(* ===== verification/Prelude.thy ===== *)
theory Prelude
  imports Main "HOL-Library.Word"
begin

unbundle bit_operations_syntax

text \<open>
  The vocabulary shared by every component: Rust's integer types, computations that may
  panic, Rust's \<open>Result\<close> and \<open>Option\<close> plumbing, integer arithmetic under the two
  build profiles, and generic facts about lists, words and page alignment.
\<close>

named_theorems outcome_simps \<open>unfolding of the panic and result combinators\<close>

section \<open>Machine integers\<close>

text \<open>The only supported target is \<open>aarch64-unknown-none\<close>, so \<open>usize\<close> has 64 bits.\<close>

type_synonym u8 = "8 word"
type_synonym u16 = "16 word"
type_synonym u32 = "32 word"
type_synonym u64 = "64 word"
type_synonym usize = "64 word"
type_synonym i32 = "32 word"
type_synonym i64 = "64 word"

section \<open>Computations that may panic\<close>

text \<open>
  \<open>Panicked msg\<close> is a call of \<open>panic!\<close>, a failed \<open>expect\<close> or \<open>assert\<close>, or an arithmetic
  overflow caught by the compiler's overflow checks. The message is the source's, without
  its formatted arguments.
\<close>

datatype 'a outcome = Done 'a | Panicked string

fun and_then :: "'a outcome \<Rightarrow> ('a \<Rightarrow> 'b outcome) \<Rightarrow> 'b outcome" where
  "and_then (Done x) f = f x"
| "and_then (Panicked m) f = Panicked m"

fun expect_some :: "string \<Rightarrow> 'a option \<Rightarrow> 'a outcome" where
  "expect_some m (Some x) = Done x"
| "expect_some m None = Panicked m"

fun expect_ok :: "string \<Rightarrow> 'e + 'a \<Rightarrow> 'a outcome" where
  "expect_ok m (Inr x) = Done x"
| "expect_ok m (Inl e) = Panicked m"

lemma and_then_eq_Done [simp]:
  "and_then m f = Done y \<longleftrightarrow> (\<exists>x. m = Done x \<and> f x = Done y)"
  by (cases m) auto

lemma and_then_eq_Panicked:
  "and_then m f = Panicked p \<longleftrightarrow> m = Panicked p \<or> (\<exists>x. m = Done x \<and> f x = Panicked p)"
  by (cases m) auto

lemma and_then_assoc: "and_then (and_then m f) g = and_then m (\<lambda>x. and_then (f x) g)"
  by (cases m) auto

lemma and_then_cong [fundef_cong]:
  "m = m' \<Longrightarrow> (\<And>x. m' = Done x \<Longrightarrow> f x = g x) \<Longrightarrow> and_then m f = and_then m' g"
  by (cases m') auto

lemma expect_some_eq_Done [simp]: "expect_some m r = Done x \<longleftrightarrow> r = Some x"
  by (cases r) auto

lemma expect_ok_eq_Done [simp]: "expect_ok m r = Done x \<longleftrightarrow> r = Inr x"
  by (cases r) auto

text \<open>Indexing a slice panics out of range.\<close>

definition index_slice :: "'a list \<Rightarrow> nat \<Rightarrow> 'a outcome" where
  "index_slice xs i = (if i < length xs then Done (xs ! i) else Panicked ''index out of bounds'')"

lemma index_slice_in_range [simp]: "i < length xs \<Longrightarrow> index_slice xs i = Done (xs ! i)"
  by (simp add: index_slice_def)

section \<open>Results\<close>

text \<open>
  Rust's \<open>Result<T, E>\<close> is \<open>'e + 'a\<close>, with \<open>Inl\<close> the error; the operator \<open>?\<close> is \<open>question\<close>.
\<close>

fun question :: "'e + 'a \<Rightarrow> ('a \<Rightarrow> 'e + 'b) \<Rightarrow> 'e + 'b" where
  "question (Inr x) f = f x"
| "question (Inl e) f = Inl e"

fun ok_or :: "'e \<Rightarrow> 'a option \<Rightarrow> 'e + 'a" where
  "ok_or e (Some x) = Inr x"
| "ok_or e None = Inl e"

lemma question_eq_Inr [simp]:
  "question r f = Inr y \<longleftrightarrow> (\<exists>x. r = Inr x \<and> f x = Inr y)"
  by (cases r) auto

lemma question_eq_Inl:
  "question r f = Inl e \<longleftrightarrow> r = Inl e \<or> (\<exists>x. r = Inr x \<and> f x = Inl e)"
  by (cases r) auto

lemma ok_or_eq_Inr [simp]: "ok_or e r = Inr x \<longleftrightarrow> r = Some x"
  by (cases r) auto

lemma ok_or_eq_Inl [simp]: "ok_or e r = Inl e' \<longleftrightarrow> r = None \<and> e' = e"
  by (cases r) auto

text \<open>\<open>?\<close> on a call that also updates a state: an error ends the caller with the state so far.\<close>

definition and_try ::
  "(('e + unit) \<times> 's) outcome \<Rightarrow> ('s \<Rightarrow> (('e + unit) \<times> 's) outcome) \<Rightarrow> (('e + unit) \<times> 's) outcome" where
  "and_try m k = and_then m (\<lambda>(r, s). case r of Inl e \<Rightarrow> Done (Inl e, s) | Inr _ \<Rightarrow> k s)"

lemma and_try_Done [simp]:
  "and_try (Done (Inr (), s)) k = k s" "and_try (Done (Inl e, s)) k = Done (Inl e, s)"
  by (simp_all add: and_try_def)

lemma and_try_ok:
  "and_try m k = Done (Inr (), s') \<longleftrightarrow> (\<exists>s. m = Done (Inr (), s) \<and> k s = Done (Inr (), s'))"
  by (cases m) (auto simp: and_try_def split: sum.splits)

lemmas [outcome_simps] = and_then_assoc and_then_eq_Panicked question_eq_Inl

section \<open>Integer arithmetic\<close>

text \<open>
  \<open>+\<close> and \<open>-\<close> on integers panic on overflow when the overflow checks are compiled in (the
  \<open>dev\<close> profile, which the Makefile builds) and wrap around otherwise (\<open>release\<close>).
\<close>

datatype profile = Dev | Release

definition add_int :: "profile \<Rightarrow> 'a::len word \<Rightarrow> 'a word \<Rightarrow> 'a word outcome" where
  "add_int pr a b =
     (if pr = Dev \<and> 2 ^ LENGTH('a) \<le> unat a + unat b
      then Panicked ''attempt to add with overflow'' else Done (a + b))"

definition sub_int :: "profile \<Rightarrow> 'a::len word \<Rightarrow> 'a word \<Rightarrow> 'a word outcome" where
  "sub_int pr a b =
     (if pr = Dev \<and> a < b then Panicked ''attempt to subtract with overflow'' else Done (a - b))"

definition checked_add :: "'a::len word \<Rightarrow> 'a word \<Rightarrow> 'a word option" where
  "checked_add a b = (if unat a + unat b < 2 ^ LENGTH('a) then Some (a + b) else None)"

definition is_multiple_of :: "'a::len word \<Rightarrow> 'a word \<Rightarrow> bool" where
  "is_multiple_of a b = (if b = 0 then a = 0 else a mod b = 0)"

text \<open>\<open>next_multiple_of\<close> is the standard library's \<open>match self % rhs { 0 => self, r => self + (rhs - r) }\<close>.\<close>

definition next_multiple_of :: "profile \<Rightarrow> 'a::len word \<Rightarrow> 'a word \<Rightarrow> 'a word outcome" where
  "next_multiple_of pr a b =
     (if b = 0 then Panicked ''attempt to calculate the remainder with a divisor of zero''
      else if a mod b = 0 then Done a else add_int pr a (b - a mod b))"

lemma next_multiple_of_Dev_le:
  assumes "next_multiple_of Dev a b = Done c"
  shows "a \<le> c"
proof (cases "a mod b = 0")
  case True
  then show ?thesis using assms by (auto simp: next_multiple_of_def split: if_splits)
next
  case False
  then have "unat a + unat (b - a mod b) < 2 ^ LENGTH('a)" and "c = a + (b - a mod b)"
    using assms by (auto simp: next_multiple_of_def add_int_def not_le split: if_splits)
  then show ?thesis by (simp add: word_le_nat_alt unat_word_ariths)
qed

text \<open>Conversions between \<open>usize\<close> and \<open>u64\<close> fail where the value does not fit.\<close>

definition try_from_uint :: "'a::len word \<Rightarrow> 'b::len word option" where
  "try_from_uint a = (if unat a < 2 ^ LENGTH('b) then Some (ucast a) else None)"

lemma try_from_uint_same [simp]: "try_from_uint (a :: 'a::len word) = Some a"
  by (simp add: try_from_uint_def)

lemma add_int_no_overflow [simp]:
  "unat a + unat b < 2 ^ LENGTH('a) \<Longrightarrow> add_int pr a (b :: 'a::len word) = Done (a + b)"
  by (simp add: add_int_def)

lemma add_int_Release [simp]: "add_int Release a b = Done (a + b)"
  by (simp add: add_int_def)

lemma sub_int_no_underflow [simp]: "b \<le> a \<Longrightarrow> sub_int pr a b = Done (a - b)"
  by (auto simp: sub_int_def)

lemma sub_int_Release [simp]: "sub_int Release a b = Done (a - b)"
  by (simp add: sub_int_def)

lemma checked_add_eq_Some:
  "checked_add a b = Some c \<longleftrightarrow> unat a + unat b < 2 ^ LENGTH('a) \<and> c = a + (b :: 'a::len word)"
  by (auto simp: checked_add_def)

lemma checked_add_eq_None:
  "checked_add a b = None \<longleftrightarrow> 2 ^ LENGTH('a) \<le> unat a + unat (b :: 'a::len word)"
  by (auto simp: checked_add_def)

lemma unat_plus_no_overflow:
  "unat a + unat b < 2 ^ LENGTH('a) \<Longrightarrow> unat (a + b) = unat a + unat (b :: 'a::len word)"
  by (simp add: unat_word_ariths)

lemma unat_u64_less: "unat (a :: u64) < 2 ^ 64"
  by (rule order.strict_trans2 [OF unsigned_less]) simp

lemma unat_take_bit: "unat (take_bit n a) = unat a mod 2 ^ n"
  by (simp only: unsigned_take_bit_eq) (simp add: take_bit_eq_mod)

section \<open>Maps and lists\<close>

lemma map_ext_Some: "(\<And>k v. f k = Some v \<longleftrightarrow> g k = Some v) \<Longrightarrow> f = g"
  by (rule ext) (metis not_Some_eq)

lemma sorted_wrt_insert_at:
  assumes "sorted_wrt R xs"
    and "\<And>i. i < n \<Longrightarrow> i < length xs \<Longrightarrow> R (xs ! i) x"
    and "\<And>i. n \<le> i \<Longrightarrow> i < length xs \<Longrightarrow> R x (xs ! i)"
  shows "sorted_wrt R (take n xs @ x # drop n xs)"
proof -
  have "sorted_wrt R (take n xs @ drop n xs)" using assms(1) by simp
  then have parts: "sorted_wrt R (take n xs)" "sorted_wrt R (drop n xs)"
    and cross: "\<forall>a\<in>set (take n xs). \<forall>b\<in>set (drop n xs). R a b"
    by (auto simp only: sorted_wrt_append)
  have "\<forall>a\<in>set (take n xs). R a x"
    using assms(2) by (auto simp: in_set_conv_nth)
  moreover have "\<forall>b\<in>set (drop n xs). R x b"
    using assms(3) by (auto simp: in_set_conv_nth)
  ultimately show ?thesis
    using parts cross by (simp add: sorted_wrt_append)
qed

lemma set_insert_at: "set (take n xs @ x # drop n xs) = insert x (set xs)"
  by (metis Un_insert_right append_take_drop_id list.simps(15) set_append)

lemma length_insert_at: "length (take n xs @ x # drop n xs) = Suc (length xs)"
  by simp

end
