(* ===== verification/Strings.thy ===== *)
theory Strings
  imports Prelude
begin

text \<open>
  The operations of Rust's \<open>str\<close> and of integer parsing and formatting that RITM and its build
  script use, on ASCII text: \<open>split_whitespace\<close>, \<open>strip_prefix\<close>, \<open>trim\<close>, \<open>lines\<close>,
  \<open>split_once\<close>, \<open>u64::from_str_radix\<close>, \<open>format!("{:x}")\<close> and \<open>format!("{}")\<close>.
\<close>

section \<open>Splitting\<close>

definition is_whitespace :: "char \<Rightarrow> bool" where
  "is_whitespace c \<longleftrightarrow> of_char c \<in> {9, 10, 11, 12, 13, 32 :: nat}"

text \<open>The pieces between the characters that satisfy \<open>p\<close>.\<close>

fun split_on :: "(char \<Rightarrow> bool) \<Rightarrow> string \<Rightarrow> string list" where
  "split_on p [] = [[]]"
| "split_on p (c # cs) =
     (if p c then [] # split_on p cs
      else case split_on p cs of [] \<Rightarrow> [[c]] | w # ws \<Rightarrow> (c # w) # ws)"

definition split_whitespace :: "string \<Rightarrow> string list" where
  "split_whitespace s = filter (\<lambda>w. w \<noteq> []) (split_on is_whitespace s)"

definition strip_prefix :: "string \<Rightarrow> string \<Rightarrow> string option" where
  "strip_prefix p s = (if take (length p) s = p then Some (drop (length p) s) else None)"

definition trim :: "string \<Rightarrow> string" where
  "trim s = rev (dropWhile is_whitespace (rev (dropWhile is_whitespace s)))"

fun split_once :: "char \<Rightarrow> string \<Rightarrow> (string \<times> string) option" where
  "split_once d [] = None"
| "split_once d (c # cs) = (if c = d then Some ([], cs) else map_option (apfst ((#) c)) (split_once d cs))"

definition newline :: char where "newline = CHR 0x0A"
definition carriage_return :: char where "carriage_return = CHR 0x0D"

definition strip_carriage_return :: "string \<Rightarrow> string" where
  "strip_carriage_return s = (if s \<noteq> [] \<and> last s = carriage_return then butlast s else s)"

text \<open>A line ends at \<open>\n\<close>, with a \<open>\r\<close> before it dropped; the text after the last \<open>\n\<close> is a line if not empty.\<close>

definition str_lines :: "string \<Rightarrow> string list" where
  "str_lines s =
     (let ps = split_on (\<lambda>c. c = newline) s
      in map strip_carriage_return (butlast ps) @ (if last ps = [] then [] else [last ps]))"

section \<open>Numbers\<close>

definition to_digit :: "nat \<Rightarrow> char \<Rightarrow> nat option" where
  "to_digit radix c =
     (let n = of_char c :: nat;
          d = (if 48 \<le> n \<and> n \<le> 57 then n - 48
               else if 97 \<le> n \<and> n \<le> 122 then n - 87
               else if 65 \<le> n \<and> n \<le> 90 then n - 55 else radix)
      in if d < radix then Some d else None)"

fun parse_digits :: "nat \<Rightarrow> nat \<Rightarrow> string \<Rightarrow> u64 option" where
  "parse_digits radix acc [] = Some (of_nat acc)"
| "parse_digits radix acc (c # cs) =
     (case to_digit radix c of
        None \<Rightarrow> None
      | Some d \<Rightarrow> if acc * radix + d < 2 ^ 64 then parse_digits radix (acc * radix + d) cs else None)"

definition u64_from_str_radix :: "nat \<Rightarrow> string \<Rightarrow> u64 option" where
  "u64_from_str_radix radix s =
     (if s = [] \<or> s = ''+'' then None
      else parse_digits radix 0 (if hd s = CHR ''+'' then tl s else s))"

definition digit_char :: "nat \<Rightarrow> char" where
  "digit_char d = char_of (if d < 10 then 48 + d else 87 + d)"

fun radix_string :: "nat \<Rightarrow> nat \<Rightarrow> string" where
  "radix_string radix n =
     (if radix < 2 \<or> n < radix then [digit_char n]
      else radix_string radix (n div radix) @ [digit_char (n mod radix)])"

declare radix_string.simps [simp del]

definition format_x :: "nat \<Rightarrow> string" where "format_x n = radix_string 16 n"
definition format_alt_x :: "nat \<Rightarrow> string" where "format_alt_x n = ''0x'' @ radix_string 16 n"
definition format_dec :: "nat \<Rightarrow> string" where "format_dec n = radix_string 10 n"

section \<open>Lemmas\<close>

lemma strip_prefix_Some: "strip_prefix p s = Some m \<longleftrightarrow> s = p @ m"
  unfolding strip_prefix_def using append_eq_conv_conj [of p m s] by auto

lemma strip_prefix_None: "strip_prefix p s = None \<Longrightarrow> s \<noteq> p @ m"
  using strip_prefix_Some [of p s m] by auto

lemma of_char_digit_char: "d < 36 \<Longrightarrow> of_char (digit_char d) = (if d < 10 then 48 + d else 87 + d :: nat)"
  by (simp add: digit_char_def)

lemma to_digit_digit_char: "d < radix \<Longrightarrow> radix \<le> 36 \<Longrightarrow> to_digit radix (digit_char d) = Some d"
  by (auto simp: to_digit_def of_char_digit_char Let_def)

lemma parse_digits_append:
  "parse_digits radix acc (xs @ [c]) =
     (case parse_digits radix acc xs of
        None \<Rightarrow> None
      | Some n \<Rightarrow> (case to_digit radix c of
           None \<Rightarrow> None
         | Some d \<Rightarrow> if unat n * radix + d < 2 ^ 64 then Some (of_nat (unat n * radix + d)) else None))"
  if "acc < 2 ^ 64"
  using that
proof (induction xs arbitrary: acc)
  case Nil
  then have "unat (of_nat acc :: u64) = acc" by (simp add: unat_of_nat)
  then show ?case by (simp split: option.split)
next
  case (Cons x xs)
  then show ?case by (simp split: option.split)
qed

lemma parse_radix_string:
  assumes "2 \<le> radix" and "radix \<le> 36" and "n < 2 ^ 64"
  shows "parse_digits radix 0 (radix_string radix n) = Some (of_nat n)"
  using assms
proof (induction radix n rule: radix_string.induct)
  case (1 radix n)
  show ?case
  proof (cases "n < radix")
    case True
    then show ?thesis using 1(2-4) by (simp add: radix_string.simps [of radix n] to_digit_digit_char)
  next
    case False
    have "n div radix \<le> n" by simp
    then have small: "n div radix < 2 ^ 64" using 1(4) by linarith
    have unat: "unat (of_nat (n div radix) :: u64) = n div radix" using small by (simp add: unat_of_nat)
    have "radix_string radix n = radix_string radix (n div radix) @ [digit_char (n mod radix)]"
      using 1(2) False by (subst radix_string.simps) simp
    moreover have "parse_digits radix 0 (radix_string radix (n div radix)) = Some (of_nat (n div radix))"
      using 1 False small by simp
    moreover have "n mod radix < radix" using 1(2) by simp
    ultimately show ?thesis
      using 1(3,4) unat by (simp add: parse_digits_append to_digit_digit_char)
  qed
qed

lemma radix_string_nonempty: "radix_string radix n \<noteq> []"
  by (subst radix_string.simps) simp

lemma radix_string_chars:
  "2 \<le> radix \<Longrightarrow> c \<in> set (radix_string radix n) \<Longrightarrow> \<exists>d<radix. c = digit_char d"
proof (induction radix n rule: radix_string.induct)
  case (1 radix n)
  show ?case
  proof (cases "n < radix")
    case True
    then show ?thesis using 1(2,3) by (auto simp: radix_string.simps [of radix n])
  next
    case False
    then have "radix_string radix n = radix_string radix (n div radix) @ [digit_char (n mod radix)]"
      using 1(2) by (subst radix_string.simps) simp
    then consider "c \<in> set (radix_string radix (n div radix))" | "c = digit_char (n mod radix)"
      using 1(3) by auto
    then show ?thesis
      by cases (use 1(1,2) False in \<open>auto intro: exI [of _ "n mod radix"]\<close>)
  qed
qed

lemma digit_char_not:
  "d < 36 \<Longrightarrow> digit_char d \<noteq> CHR ''+''" "d < 36 \<Longrightarrow> digit_char d \<noteq> CHR ''_''" "d < 16 \<Longrightarrow> digit_char d \<noteq> CHR ''x''"
  using of_char_digit_char [of d] by (auto split: if_splits)

lemma u64_from_str_radix_round_trip:
  assumes "2 \<le> radix" and "radix \<le> 36" and "n < 2 ^ 64"
  shows "u64_from_str_radix radix (radix_string radix n) = Some (of_nat n)"
proof -
  have "c \<noteq> CHR ''+''" if "c \<in> set (radix_string radix n)" for c
    using radix_string_chars [OF assms(1) that] digit_char_not(1) assms(2) by (auto dest: less_le_trans)
  then have "hd (radix_string radix n) \<noteq> CHR ''+''" "radix_string radix n \<noteq> ''+''"
    using radix_string_nonempty [of radix n] by (fastforce dest: hd_in_set)+
  then show ?thesis
    using radix_string_nonempty [of radix n] parse_radix_string [OF assms] by (simp add: u64_from_str_radix_def)
qed

end
