(* ===== verification/Build.thy ===== *)
theory Build
  imports Strings "HOL-Library.List_Lexorder" "HOL-Library.Char_ord"
begin

text \<open>
  The build script (\<open>src/build.rs\<close>) and its configuration parser
  (\<open>src/build_support/platform_config.rs\<close>): which platforms exist, the two addresses of the
  selected one, and the linker script, platform module and payload module generated from them.

  The script's surroundings are a record of values: environment variables, directory entries,
  file contents and the results of file operations. A path is its text, components joined
  by \<open>/\<close>; the host's \<open>Path\<close> does the same on the supported build hosts.
\<close>

section \<open>The configuration parser\<close>

definition parse_int :: "string \<Rightarrow> u64 option" where
  "parse_int value =
     (let value = filter (\<lambda>c. c \<noteq> CHR ''_'') value
      in case strip_prefix ''0x'' value of
           Some hex \<Rightarrow> u64_from_str_radix 16 hex
         | None \<Rightarrow> u64_from_str_radix 10 value)"

type_synonym config = "string \<rightharpoonup> u64"

fun parse_lines :: "nat \<Rightarrow> string list \<Rightarrow> config \<Rightarrow> string + config" where
  "parse_lines line_number [] config = Inr config"
| "parse_lines line_number (line # lines) config =
     (let line = trim (hd (split_on (\<lambda>c. c = CHR ''#'') line))
      in if line = [] then parse_lines (line_number + 1) lines config
         else case split_once CHR ''='' line of
                None \<Rightarrow> Inl (''line '' @ format_dec (line_number + 1) @ '': expected key=value'')
              | Some (key, value) \<Rightarrow>
                  (let key = trim key
                   in if key = [] then Inl (''line '' @ format_dec (line_number + 1) @ '': empty key'')
                      else case parse_int (trim value) of
                             None \<Rightarrow> Inl (''line '' @ format_dec (line_number + 1) @ '': invalid integer value'')
                           | Some value \<Rightarrow> parse_lines (line_number + 1) lines (config(key \<mapsto> value))))"

definition parse_platform_config :: "string \<Rightarrow> string + config" where
  "parse_platform_config source = parse_lines 0 (str_lines source) Map.empty"

text \<open>\<open>read_to_string\<close> is the result of reading the file.\<close>

definition platform_config :: "string + string \<Rightarrow> config outcome" where
  "platform_config read_to_string =
     and_then (expect_ok ''Failed to read'' read_to_string) (\<lambda>source.
     expect_ok ''Failed to parse'' (parse_platform_config source))"

section \<open>The script\<close>

definition PLATFORM_CONFIG_DIR :: string where "PLATFORM_CONFIG_DIR = ''platforms''"
definition BUILD_SUPPORT_PLATFORM_CONFIG :: string where
  "BUILD_SUPPORT_PLATFORM_CONFIG = ''build_support/platform_config.rs''"
definition PLATFORM_DIR :: string where "PLATFORM_DIR = ''src/platform''"
definition RITM_IMAGE_ADDRESS_KEY :: string where "RITM_IMAGE_ADDRESS_KEY = ''ritm_image_address''"
definition PAYLOAD_ADDRESS_KEY :: string where "PAYLOAD_ADDRESS_KEY = ''payload_address''"
definition PAYLOAD_SIZE_LIMIT :: u64 where "PAYLOAD_SIZE_LIMIT = 64 * 1024 * 1024"
definition PAYLOAD_SECTION_ALIGNMENT :: u64 where "PAYLOAD_SECTION_ALIGNMENT = 4"

record PayloadConfig =
  pc_address :: u64
  pc_path :: string
  pc_size :: u64

text \<open>
  The surroundings: a directory entry is \<open>None\<close> where reading it failed or its name is not
  valid UTF-8, otherwise its file name.
\<close>

record build_env =
  env_read_dir :: "string + string option list"
  env_platform :: "string option"
  env_read_file :: "string \<Rightarrow> string + string"
  env_payload :: "string option"
  env_canonicalize :: "string \<Rightarrow> string + string"
  env_file_size :: "string \<Rightarrow> string + u64"
  env_out_dir :: "string option"
  env_manifest_dir :: "string option"
  env_exists :: "string \<Rightarrow> bool"
  env_write :: "string \<Rightarrow> string \<Rightarrow> string + unit"

text \<open>\<open>Path::extension\<close> and \<open>Path::file_stem\<close> of a file name: split at the last dot that is not its first character.\<close>

definition last_dot :: "string \<Rightarrow> (string \<times> string) option" where
  "last_dot name =
     (if name = ''..'' then None
      else case split_once CHR ''.'' (rev name) of
             Some (ext, stem) \<Rightarrow> if stem = [] then None else Some (rev stem, rev ext)
           | None \<Rightarrow> None)"

definition path_extension :: "string \<Rightarrow> string option" where
  "path_extension name = map_option snd (last_dot name)"

definition file_stem :: "string \<Rightarrow> string" where
  "file_stem name = (case last_dot name of Some (stem, _) \<Rightarrow> stem | None \<Rightarrow> name)"

definition discover_platforms :: "build_env \<Rightarrow> string list outcome" where
  "discover_platforms env =
     and_then (expect_ok ''Failed to read platforms'' (env_read_dir env)) (\<lambda>entries.
       Done (sort (map file_stem (filter (\<lambda>name. path_extension name = Some ''conf'')
         (map the (filter (\<lambda>e. e \<noteq> None) entries))))))"

definition path_join :: "string \<Rightarrow> string \<Rightarrow> string" where
  "path_join a b = a @ ''/'' @ b"

definition platform_config_file :: "string \<Rightarrow> string" where
  "platform_config_file platform = path_join PLATFORM_CONFIG_DIR (platform @ ''.conf'')"

definition config_value :: "config \<Rightarrow> string \<Rightarrow> u64 outcome" where
  "config_value config key = expect_some ''Could not find key'' (config key)"

definition payload_config :: "profile \<Rightarrow> build_env \<Rightarrow> u64 \<Rightarrow> PayloadConfig option outcome" where
  "payload_config pr env address =
     (case env_payload env of
        Some path \<Rightarrow>
          if path \<noteq> [] then
            and_then (expect_ok ''Failed to canonicalize payload path'' (env_canonicalize env path)) (\<lambda>payload_canonical.
            and_then (expect_ok ''Failed to read metadata for payload'' (env_file_size env payload_canonical)) (\<lambda>sz.
            and_then (next_multiple_of pr sz PAYLOAD_SECTION_ALIGNMENT) (\<lambda>size_aligned.
            if size_aligned \<le> PAYLOAD_SIZE_LIMIT
            then Done (Some \<lparr>pc_address = address, pc_path = payload_canonical, pc_size = sz\<rparr>)
            else Panicked ''Payload is too large'')))
          else Done None
      | None \<Rightarrow> Done None)"

text \<open>Text with line breaks and tabs.\<close>

definition nl :: string where "nl = [newline]"
definition tab :: string where "tab = [CHR 0x09]"

definition linker_script :: "u64 \<Rightarrow> PayloadConfig option \<Rightarrow> string" where
  "linker_script image_address payload =
     (let payload_memory =
            (case payload of
               Some payload \<Rightarrow>
                 tab @ ''payload (rwx) : ORIGIN = '' @ format_alt_x (unat (pc_address payload)) @
                 '', LENGTH = '' @ format_dec (unat (PAYLOAD_SIZE_LIMIT div 1024 div 1024)) @ ''M'' @ nl
             | None \<Rightarrow> []);
          payload_sections =
            (case payload of
               Some _ \<Rightarrow>
                 nl @ ''SECTIONS {'' @ nl @
                 tab @ ''.payload :'' @ nl @
                 tab @ ''{'' @ nl @
                 tab @ tab @ ''KEEP(*(.payload));'' @ nl @
                 tab @ tab @ ''. = ALIGN(4);'' @ nl @
                 tab @ ''} > payload'' @ nl @
                 ''} INSERT AFTER .text;'' @ nl
             | None \<Rightarrow> [])
      in ''RITM_IMAGE_ADDRESS = '' @ format_alt_x (unat image_address) @ '';'' @ nl @
         nl @
         ''MEMORY'' @ nl @
         ''{'' @ nl @
         tab @ ''image : ORIGIN = RITM_IMAGE_ADDRESS, LENGTH = 4M'' @ nl @
         payload_memory @ ''}'' @ nl @
         payload_sections)"

definition platform_source_path :: "build_env \<Rightarrow> string \<Rightarrow> string \<Rightarrow> string outcome" where
  "platform_source_path env manifest_dir platform =
     (let platform_dir = path_join manifest_dir PLATFORM_DIR;
          direct_path = path_join platform_dir (platform @ ''.rs'')
      in if env_exists env direct_path then Done direct_path
         else if platform = ''qemu_bl33'' then Done (path_join platform_dir ''qemu.rs'')
         else Panicked ''Platform config has no matching source file'')"

definition platform_entry :: "string \<Rightarrow> string \<Rightarrow> string" where
  "platform_entry platform path =
     nl @
     ''#[cfg(platform = \"'' @ platform @ ''\")]'' @ nl @
     ''#[path = \"'' @ path @ ''\"]'' @ nl @
     ''mod '' @ platform @ '';'' @ nl @
     nl @
     ''#[cfg(platform = \"'' @ platform @ ''\")]'' @ nl @
     ''pub use '' @ platform @ ''::PlatformImpl;'' @ nl"

fun platform_entries :: "build_env \<Rightarrow> string \<Rightarrow> string list \<Rightarrow> string outcome" where
  "platform_entries env manifest_dir [] = Done []"
| "platform_entries env manifest_dir (platform # platforms) =
     and_then (platform_source_path env manifest_dir platform) (\<lambda>path.
     and_then (platform_entries env manifest_dir platforms) (\<lambda>rest.
     Done (platform_entry platform path @ rest)))"

definition platform_module_source :: "build_env \<Rightarrow> string list \<Rightarrow> u64 \<Rightarrow> u64 \<Rightarrow> string outcome" where
  "platform_module_source env platforms image_address payload_address =
     and_then (expect_some ''CARGO_MANIFEST_DIR is expected'' (env_manifest_dir env)) (\<lambda>manifest_dir.
     and_then (platform_entries env manifest_dir platforms) (\<lambda>entries.
     Done (''#[allow(clippy::unreadable_literal)]'' @ nl @
           ''pub const RITM_IMAGE_ADDRESS: usize = '' @ format_alt_x (unat image_address) @ '';'' @ nl @
           ''#[allow(clippy::unreadable_literal)]'' @ nl @
           ''pub const PAYLOAD_ADDRESS: u64 = '' @ format_alt_x (unat payload_address) @ '';'' @ nl @
           entries)))"

definition payload_source_code :: "PayloadConfig option \<Rightarrow> string" where
  "payload_source_code payload =
     (case payload of
        Some payload \<Rightarrow>
          nl @
          ''#[used]'' @ nl @
          ''#[unsafe(link_section = \".payload\")]'' @ nl @
          ''static EMBEDDED_PAYLOAD: [u8; '' @ format_dec (unat (pc_size payload)) @
          ''] = *include_bytes!(\"'' @ pc_path payload @ ''\");'' @ nl
      | None \<Rightarrow> [])"

text \<open>What a successful run produces: the directives printed for Cargo and the files written.\<close>

record build_output =
  bo_directives :: "string list"
  bo_files :: "(string \<times> string) list"

fun str_join :: "string \<Rightarrow> string list \<Rightarrow> string" where
  "str_join sep [] = []"
| "str_join sep [x] = x"
| "str_join sep (x # y # xs) = x @ sep @ str_join sep (y # xs)"

text \<open>The directives \<open>payload_config\<close> prints on the way.\<close>

definition payload_directives :: "build_env \<Rightarrow> string list" where
  "payload_directives env =
     ''cargo:rerun-if-env-changed=RITM_PAYLOAD'' #
     (case env_payload env of
        Some path \<Rightarrow> if path \<noteq> [] then [''cargo:rerun-if-changed='' @ path] else []
      | None \<Rightarrow> [])"

definition build_main :: "profile \<Rightarrow> build_env \<Rightarrow> build_output outcome" where
  "build_main pr env =
     and_then (discover_platforms env) (\<lambda>platforms.
     and_then (expect_some ''Missing platform name'' (env_platform env)) (\<lambda>platform.
     if platform \<notin> set platforms then Panicked ''Unexpected platform name'' else
     (let config_file = platform_config_file platform in
     and_then (platform_config (env_read_file env config_file)) (\<lambda>config.
     and_then (config_value config RITM_IMAGE_ADDRESS_KEY) (\<lambda>image_address.
     and_then (config_value config PAYLOAD_ADDRESS_KEY) (\<lambda>payload_address.
     and_then (payload_config pr env payload_address) (\<lambda>payload.
     and_then (expect_some ''OUT_DIR is expected to be set'' (env_out_dir env)) (\<lambda>out_dir.
     (let platform_linker_script = path_join out_dir ''platform.ld'';
          platform_module = path_join out_dir ''platform.rs'';
          payload_source = path_join out_dir ''payload.rs'';
          script = linker_script image_address payload;
          code = payload_source_code payload in
     and_then (expect_ok ''Failed to write'' (env_write env platform_linker_script script)) (\<lambda>_.
     and_then (platform_module_source env platforms image_address payload_address) (\<lambda>module.
     and_then (expect_ok ''Failed to write'' (env_write env platform_module module)) (\<lambda>_.
     and_then (expect_ok ''Failed to write'' (env_write env payload_source code)) (\<lambda>_.
     Done \<lparr>bo_directives =
             [''cargo::rustc-check-cfg=cfg(platform, values(\"'' @ str_join ''\", \"'' platforms @ ''\"))'',
              ''cargo:rerun-if-changed='' @ BUILD_SUPPORT_PLATFORM_CONFIG,
              ''cargo:rerun-if-changed='' @ PLATFORM_DIR,
              ''cargo:rerun-if-changed='' @ PLATFORM_CONFIG_DIR,
              ''cargo:rerun-if-changed='' @ config_file] @
             payload_directives env @
             [''cargo:rustc-link-arg=-Timage.ld'',
              ''cargo:rustc-link-arg=-T'' @ platform_linker_script],
           bo_files =
             [(platform_linker_script, script), (platform_module, module), (payload_source, code)]\<rparr>)))))))))))))"

section \<open>Lemmas on text\<close>

lemma split_on_nonempty [simp]: "split_on p s \<noteq> []"
  by (induction s) (auto split: list.split)

lemma split_on_none: "\<forall>c\<in>set s. \<not> p c \<Longrightarrow> split_on p s = [s]"
  by (induction s) auto

lemma split_on_append: "\<forall>c\<in>set s. \<not> p c \<Longrightarrow> p d \<Longrightarrow> split_on p (s @ d # rest) = s # split_on p rest"
  by (induction s) auto

lemma hd_split_on: "hd (split_on p s) = takeWhile (\<lambda>c. \<not> p c) s"
  by (induction s) (auto split: list.split)

lemma trim_id: "\<forall>c\<in>set s. \<not> is_whitespace c \<Longrightarrow> trim s = s"
  by (simp add: trim_def dropWhile_eq_self_iff)
    (metis Nil_is_rev_conv dropWhile_eq_self_iff hd_in_set rev_rev_ident set_rev)

lemma split_once_append: "d \<notin> set k \<Longrightarrow> split_once d (k @ d # v) = Some (k, v)"
  by (induction k) auto

lemma str_lines_cons:
  assumes "newline \<notin> set l"
  shows "str_lines (l @ newline # rest) = strip_carriage_return l # str_lines rest"
proof -
  have "split_on (\<lambda>c. c = newline) (l @ newline # rest) = l # split_on (\<lambda>c. c = newline) rest"
    using assms by (intro split_on_append) auto
  then show ?thesis by (simp add: str_lines_def Let_def)
qed

lemma str_lines_Nil [simp]: "str_lines [] = []"
  by (simp add: str_lines_def)

text \<open>Digits are none of the characters with a meaning of their own.\<close>

lemma digit_char_plain:
  assumes "d < 16"
  shows "\<not> is_whitespace (digit_char d)" "digit_char d \<noteq> CHR ''#''" "digit_char d \<noteq> newline"
    "digit_char d \<noteq> carriage_return" "digit_char d \<noteq> CHR ''_''" "digit_char d \<noteq> CHR ''x''"
proof -
  have n: "of_char (digit_char d) = (if d < 10 then 48 + d else 87 + d :: nat)"
    using assms by (simp add: of_char_digit_char)
  show "\<not> is_whitespace (digit_char d)" using n assms by (auto simp: is_whitespace_def)
  show "digit_char d \<noteq> CHR ''#''" "digit_char d \<noteq> CHR ''_''" "digit_char d \<noteq> CHR ''x''"
    using n assms by (auto split: if_splits)
  show "digit_char d \<noteq> newline" "digit_char d \<noteq> carriage_return"
    using n assms by (auto simp: newline_def carriage_return_def split: if_splits)
qed

lemma radix_string_plain:
  assumes "radix \<in> {10, 16}" and "c \<in> set (radix_string radix n)"
  shows "\<not> is_whitespace c \<and> c \<noteq> CHR ''#'' \<and> c \<noteq> newline \<and> c \<noteq> carriage_return \<and> c \<noteq> CHR ''_'' \<and> c \<noteq> CHR ''x''"
proof -
  have radix: "2 \<le> radix" "radix \<le> 16" using assms(1) by auto
  obtain d where d: "d < radix" "c = digit_char d"
    using radix_string_chars [OF radix(1) assms(2)] by blast
  then have "d < 16" using radix(2) by simp
  then show ?thesis using digit_char_plain [of d] d(2) by simp
qed

lemma format_alt_x_plain:
  assumes "c \<in> set (format_alt_x n)"
  shows "\<not> is_whitespace c \<and> c \<noteq> CHR ''#'' \<and> c \<noteq> newline \<and> c \<noteq> carriage_return \<and> c \<noteq> CHR ''_''"
  using assms radix_string_plain [of 16 c n]
  by (auto simp: format_alt_x_def is_whitespace_def newline_def carriage_return_def)

lemma u64_round_trip: "radix \<in> {10, 16} \<Longrightarrow> u64_from_str_radix radix (radix_string radix (unat v)) = Some v"
  using u64_from_str_radix_round_trip [of radix "unat v"] unat_u64_less [of v] by auto

lemma parse_int_filtered: "parse_int (filter (\<lambda>c. c \<noteq> CHR ''_'') s) = parse_int s"
  by (simp add: parse_int_def)

lemma parse_int_hex: "parse_int (format_alt_x (unat v)) = Some v"
proof -
  have "filter (\<lambda>c. c \<noteq> CHR ''_'') (format_alt_x (unat v)) = format_alt_x (unat v)"
    by (rule filter_True) (use format_alt_x_plain in blast)
  then show ?thesis
    using u64_round_trip [of 16 v] by (simp add: parse_int_def format_alt_x_def strip_prefix_def)
qed

lemma parse_int_dec: "parse_int (format_dec (unat v)) = Some v"
proof -
  let ?s = "radix_string 10 (unat v)"
  have plain: "c \<noteq> CHR ''_'' \<and> c \<noteq> CHR ''x''" if "c \<in> set ?s" for c
    using radix_string_plain [OF _ that] by simp
  have "strip_prefix ''0x'' ?s = None"
  proof (rule ccontr)
    assume "strip_prefix ''0x'' ?s \<noteq> None"
    then have "take 2 ?s = ''0x''" by (simp add: strip_prefix_def numeral_2_eq_2 split: if_splits)
    then have "CHR ''x'' \<in> set ?s" using in_set_takeD [of "CHR ''x''" 2 ?s] by simp
    then show False using plain by blast
  qed
  moreover have "filter (\<lambda>c. c \<noteq> CHR ''_'') ?s = ?s" by (rule filter_True) (use plain in blast)
  ultimately show ?thesis
    using u64_round_trip [of 10 v] by (simp add: parse_int_def format_dec_def)
qed

section \<open>Parsing a rendered configuration\<close>

text \<open>A line \<open>key=0x...\<close> with an optional comment after it.\<close>

definition config_line :: "string \<times> u64 \<times> string \<Rightarrow> string" where
  "config_line e = (case e of (key, value, comment) \<Rightarrow> key @ CHR ''='' # format_alt_x (unat value) @ comment @ nl)"

definition config_entry_ok :: "string \<times> u64 \<times> string \<Rightarrow> bool" where
  "config_entry_ok e \<longleftrightarrow>
     (case e of (key, value, comment) \<Rightarrow>
        key \<noteq> [] \<and> (\<forall>c\<in>set key. \<not> is_whitespace c \<and> c \<noteq> CHR ''#'' \<and> c \<noteq> CHR ''='') \<and>
        (comment = [] \<or> hd comment = CHR ''#'') \<and> newline \<notin> set comment)"

lemma whitespace_newline: "is_whitespace newline" "is_whitespace carriage_return"
  by (simp_all add: is_whitespace_def newline_def carriage_return_def)

lemma strip_carriage_return_append:
  "c \<noteq> [] \<Longrightarrow> strip_carriage_return (b @ c) = b @ strip_carriage_return c"
  by (simp add: strip_carriage_return_def butlast_append)

lemma strip_carriage_return_hd:
  "hd c = d \<Longrightarrow> c \<noteq> [] \<Longrightarrow> strip_carriage_return c = [] \<or> hd (strip_carriage_return c) = d"
  by (cases c) (auto simp: strip_carriage_return_def)

lemma parse_lines_entry:
  assumes "config_entry_ok (key, value, comment)"
  shows "parse_lines n (strip_carriage_return (key @ CHR ''='' # format_alt_x (unat value) @ comment) # lines) config =
     parse_lines (n + 1) lines (config(key \<mapsto> value))"
proof -
  let ?v = "format_alt_x (unat value)" and ?body = "key @ CHR ''='' # format_alt_x (unat value)"
  have key: "key \<noteq> []" "\<forall>c\<in>set key. \<not> is_whitespace c \<and> c \<noteq> CHR ''#''" "CHR ''='' \<notin> set key"
    using assms by (auto simp: config_entry_ok_def)
  have body: "\<forall>c\<in>set ?body. \<not> is_whitespace c \<and> c \<noteq> CHR ''#''"
    using key(2) format_alt_x_plain by (auto simp: is_whitespace_def)
  obtain comment' where stripped: "strip_carriage_return (?body @ comment) = ?body @ comment'"
    and comment': "comment' = [] \<or> hd comment' = CHR ''#''"
  proof (cases "comment = []")
    case True
    have "?v \<noteq> []" by (simp add: format_alt_x_def)
    then have "last (?body @ comment) \<in> set ?v" using True by simp
    then have "last (?body @ comment) \<noteq> carriage_return" using format_alt_x_plain by blast
    then show thesis using that [of "[]"] True by (simp add: strip_carriage_return_def)
  next
    case False
    then have hash: "hd comment = CHR ''#''" using assms by (simp add: config_entry_ok_def)
    show thesis
      by (rule that [OF strip_carriage_return_append [OF False] strip_carriage_return_hd [OF hash False]])
  qed
  have "takeWhile (\<lambda>c. c \<noteq> CHR ''#'') comment' = []"
    using comment' by (cases comment') auto
  then have "takeWhile (\<lambda>c. c \<noteq> CHR ''#'') (?body @ comment') = ?body"
    using body takeWhile_append2 [of ?body "\<lambda>c. c \<noteq> CHR ''#''" comment'] by simp
  moreover have "trim ?body = ?body" by (rule trim_id) (use body in blast)
  moreover have "trim key = key" by (rule trim_id) (use key(2) in blast)
  moreover have "trim ?v = ?v" by (rule trim_id) (use format_alt_x_plain in blast)
  moreover have "key @ CHR ''='' # ?v @ comment = ?body @ comment" by simp
  ultimately show ?thesis
    using key(1) split_once_append [OF key(3), of ?v]
    by (simp only: parse_lines.simps stripped hd_split_on Let_def) (simp add: parse_int_hex)
qed

lemma parse_rendered:
  "\<forall>e\<in>set entries. config_entry_ok e \<Longrightarrow>
   parse_lines n (str_lines (concat (map config_line entries))) config =
     Inr (config ++ map_of (rev (map (\<lambda>(key, value, _). (key, value)) entries)))"
proof (induction entries arbitrary: n config)
  case Nil
  then show ?case by simp
next
  case (Cons e entries)
  obtain key v comment where e: "e = (key, v, comment)" by (cases e)
  let ?line = "key @ CHR ''='' # format_alt_x (unat v) @ comment"
  have ok: "config_entry_ok (key, v, comment)" using Cons.prems e by simp
  have "newline \<notin> set ?line"
    using ok format_alt_x_plain whitespace_newline(1)
    by (auto simp: config_entry_ok_def newline_def)
  then have "str_lines (concat (map config_line (e # entries))) =
      strip_carriage_return ?line # str_lines (concat (map config_line entries))"
    using str_lines_cons [of ?line "concat (map config_line entries)"] by (simp add: config_line_def e nl_def)
  then show ?case
    using Cons parse_lines_entry [OF ok] by (simp add: e)
qed

section \<open>Properties\<close>

text \<open>
  C33: Addresses survive the configuration format: a number printed in hexadecimal with a
  \<open>0x\<close> prefix, or in decimal, with underscores inserted anywhere, parses back to itself, for
  every 64-bit value.
\<close>

theorem parse_int_inverts_printing:
  assumes "filter (\<lambda>c. c \<noteq> CHR ''_'') s \<in> {format_alt_x (unat v), format_dec (unat v)}"
  shows "parse_int s = Some v"
  using assms parse_int_hex [of v] parse_int_dec [of v] parse_int_filtered [of s] by auto

theorem parse_int_inverts_printing_witness:
  "parse_int ''0x4700_0000'' = Some 0x47000000"
proof -
  have "format_alt_x (unat (0x47000000 :: u64)) = ''0x47000000''"
    by (simp add: format_alt_x_def radix_string.simps digit_char_def char_of_def bit_0)
  then show ?thesis by (intro parse_int_inverts_printing) simp
qed

text \<open>
  C34: Parsing a configuration file of lines \<open>key=0x...\<close>, each possibly followed by a comment,
  yields exactly the entries written, the last one winning where a key is repeated.
\<close>

theorem parse_platform_config_inverts_rendering:
  assumes "\<forall>e\<in>set entries. config_entry_ok e"
  shows "parse_platform_config (concat (map config_line entries)) =
     Inr (map_of (rev (map (\<lambda>(key, value, _). (key, value)) entries)))"
  using parse_rendered [OF assms] by (simp add: parse_platform_config_def)

theorem parse_platform_config_inverts_rendering_witness:
  "parse_platform_config (concat (map config_line [(''a'', 1, ''# first''), (''b'', 2, []), (''a'', 3, [])])) =
     Inr [''a'' \<mapsto> 1, ''b'' \<mapsto> 2, ''a'' \<mapsto> 3]"
proof -
  have "\<forall>e\<in>set [(''a'', 1, ''# first''), (''b'', 2, []), (''a'', 3, [])]. config_entry_ok e"
    by (simp add: config_entry_ok_def is_whitespace_def newline_def)
  then show ?thesis
    by (subst parse_platform_config_inverts_rendering) (auto simp: fun_eq_iff)
qed

text \<open>The shipped configurations.\<close>

definition qemu_conf :: string where
  "qemu_conf =
     ''# QEMU aarch64 virt platform addresses.'' @ nl @
     ''ritm_image_address=0x4700_0000'' @ nl @
     ''payload_address=0x4020_0000'' @ nl"

definition qemu_bl33_conf :: string where
  "qemu_bl33_conf =
     ''# QEMU aarch64 virt BL33 platform addresses.'' @ nl @
     ''ritm_image_address=0x6000_0000'' @ nl @
     ''payload_address=0x6040_0000'' @ nl"

lemma shipped_lines:
  "str_lines qemu_conf = [''# QEMU aarch64 virt platform addresses.'',
     ''ritm_image_address=0x4700_0000'', ''payload_address=0x4020_0000'']"
  "str_lines qemu_bl33_conf = [''# QEMU aarch64 virt BL33 platform addresses.'',
     ''ritm_image_address=0x6000_0000'', ''payload_address=0x6040_0000'']"
  by code_simp+

lemma parse_lines_skip:
  "trim (hd (split_on (\<lambda>c. c = CHR ''#'') line)) = [] \<Longrightarrow>
   parse_lines n (line # lines) config = parse_lines (n + 1) lines config"
  by simp

lemma parse_lines_step:
  assumes "split_once CHR ''='' (trim (hd (split_on (\<lambda>c. c = CHR ''#'') line))) = Some (key, value)"
    and "trim key = key" and "key \<noteq> []" and "parse_int (trim value) = Some v"
  shows "parse_lines n (line # lines) config = parse_lines (n + 1) lines (config(key \<mapsto> v))"
proof -
  have "trim (hd (split_on (\<lambda>c. c = CHR ''#'') line)) \<noteq> []" using assms(1) by auto
  then show ?thesis using assms by (simp add: Let_def)
qed

lemma shipped_entries:
  "split_once CHR ''='' (trim (hd (split_on (\<lambda>c. c = CHR ''#'') ''ritm_image_address=0x4700_0000''))) =
     Some (''ritm_image_address'', ''0x4700_0000'')"
  "split_once CHR ''='' (trim (hd (split_on (\<lambda>c. c = CHR ''#'') ''payload_address=0x4020_0000''))) =
     Some (''payload_address'', ''0x4020_0000'')"
  "split_once CHR ''='' (trim (hd (split_on (\<lambda>c. c = CHR ''#'') ''ritm_image_address=0x6000_0000''))) =
     Some (''ritm_image_address'', ''0x6000_0000'')"
  "split_once CHR ''='' (trim (hd (split_on (\<lambda>c. c = CHR ''#'') ''payload_address=0x6040_0000''))) =
     Some (''payload_address'', ''0x6040_0000'')"
  by code_simp+

lemma shipped_comments:
  "trim (hd (split_on (\<lambda>c. c = CHR ''#'') ''# QEMU aarch64 virt platform addresses.'')) = []"
  "trim (hd (split_on (\<lambda>c. c = CHR ''#'') ''# QEMU aarch64 virt BL33 platform addresses.'')) = []"
  by code_simp+

lemma shipped_keys: "trim ''ritm_image_address'' = ''ritm_image_address''" "trim ''payload_address'' = ''payload_address''"
  by code_simp+

lemma shipped_values:
  "parse_int (trim ''0x4700_0000'') = Some 0x47000000" "parse_int (trim ''0x4020_0000'') = Some 0x40200000"
  "parse_int (trim ''0x6000_0000'') = Some 0x60000000" "parse_int (trim ''0x6040_0000'') = Some 0x60400000"
  by (simp_all add: trim_def is_whitespace_def parse_int_def strip_prefix_def u64_from_str_radix_def to_digit_def Let_def)

lemma shipped_config:
  "parse_platform_config qemu_conf =
     Inr [''ritm_image_address'' \<mapsto> 0x47000000, ''payload_address'' \<mapsto> 0x40200000]"
  "parse_platform_config qemu_bl33_conf =
     Inr [''ritm_image_address'' \<mapsto> 0x60000000, ''payload_address'' \<mapsto> 0x60400000]"
  unfolding parse_platform_config_def shipped_lines
  by (simp_all only: parse_lines_skip [OF shipped_comments(1)] parse_lines_skip [OF shipped_comments(2)]
      parse_lines_step [OF shipped_entries(1) shipped_keys(1) list.distinct(2) shipped_values(1)]
      parse_lines_step [OF shipped_entries(2) shipped_keys(2) list.distinct(2) shipped_values(2)]
      parse_lines_step [OF shipped_entries(3) shipped_keys(1) list.distinct(2) shipped_values(3)]
      parse_lines_step [OF shipped_entries(4) shipped_keys(2) list.distinct(2) shipped_values(4)]
      parse_lines.simps(1))

text \<open>
  Both shipped platform configurations are accepted and define both addresses, each
  page-aligned, with a payload that starts outside the 4 MiB image.
\<close>

theorem shipped_platform_addresses:
  "platform_config (Inr qemu_conf) =
     Done [''ritm_image_address'' \<mapsto> 0x47000000, ''payload_address'' \<mapsto> 0x40200000] \<and>
   platform_config (Inr qemu_bl33_conf) =
     Done [''ritm_image_address'' \<mapsto> 0x60000000, ''payload_address'' \<mapsto> 0x60400000]"
  by (simp add: platform_config_def shipped_config)

lemma next_multiple_of_section:
  assumes "next_multiple_of pr sz PAYLOAD_SECTION_ALIGNMENT = Done aligned" and "pr = Dev \<or> unat sz \<le> 2 ^ 64 - 4"
  shows "sz \<le> aligned"
proof -
  have "next_multiple_of Dev sz PAYLOAD_SECTION_ALIGNMENT = Done aligned"
  proof (cases "pr = Dev \<or> sz mod PAYLOAD_SECTION_ALIGNMENT = 0")
    case True
    then show ?thesis using assms(1) unfolding next_multiple_of_def
      by (elim disjE) (simp only:, simp only: refl if_True)
  next
    case False
    then have "sz mod 4 \<noteq> 0" by (simp add: PAYLOAD_SECTION_ALIGNMENT_def)
    then have pos: "unat sz mod 4 \<noteq> 0" by (simp add: word_unat_eq_iff unat_mod)
    have small: "unat sz \<le> 2 ^ 64 - 4" using False assms(2) by blast
    have "unat (4 - sz mod 4) = 4 - unat sz mod 4" by (simp add: unat_sub word_le_nat_alt unat_mod)
    moreover have "unat sz \<noteq> 2 ^ 64 - 4" using pos by auto
    ultimately have "unat sz + unat (4 - sz mod 4) < 2 ^ 64" using small pos by simp
    then show ?thesis
      using assms(1) False by (simp add: next_multiple_of_def PAYLOAD_SECTION_ALIGNMENT_def add_int_def split: if_splits)
  qed
  then show ?thesis by (rule next_multiple_of_Dev_le)
qed

text \<open>
  C35: A payload that the build script accepts is the file that the variable names, a non-empty
  path, keeps the configured address, and its size fits the 64 MiB payload window of the linker
  script. In the release profile, where rounding the size up to a multiple of 4 wraps, this
  needs the file to be at most 2^64 - 4 bytes.
\<close>

theorem accepted_payload_fits_window:
  assumes "payload_config pr env address = Done (Some p)" and "pr = Dev \<or> unat (pc_size p) \<le> 2 ^ 64 - 4"
  shows "unat (pc_size p) \<le> 64 * 1024 * 1024 \<and> pc_address p = address \<and>
     (\<exists>path. env_payload env = Some path \<and> path \<noteq> [] \<and> env_canonicalize env path = Inr (pc_path p)) \<and>
     env_file_size env (pc_path p) = Inr (pc_size p)"
proof -
  obtain path aligned where path: "env_payload env = Some path" "path \<noteq> []"
    "env_canonicalize env path = Inr (pc_path p)" "env_file_size env (pc_path p) = Inr (pc_size p)"
    and aligned: "next_multiple_of pr (pc_size p) PAYLOAD_SECTION_ALIGNMENT = Done aligned"
      "aligned \<le> PAYLOAD_SIZE_LIMIT" and "pc_address p = address"
    using assms(1) by (auto simp: payload_config_def split: option.splits if_splits)
  moreover have "pc_size p \<le> PAYLOAD_SIZE_LIMIT"
    using next_multiple_of_section [OF aligned(1) assms(2)] aligned(2) by (rule order_trans)
  then have "unat (pc_size p) \<le> 64 * 1024 * 1024"
    by (simp add: PAYLOAD_SIZE_LIMIT_def word_le_nat_alt)
  ultimately show ?thesis by blast
qed

text \<open>A build tree with the shipped platforms, for the examples.\<close>

definition example_env :: build_env where
  "example_env =
     \<lparr>env_read_dir = Inr [Some ''qemu_bl33.conf'', Some ''qemu.conf'', None, Some ''README''],
      env_platform = Some ''qemu'',
      env_read_file = (\<lambda>path. if path = ''platforms/qemu.conf'' then Inr qemu_conf else Inl ''not found''),
      env_payload = Some ''Image'',
      env_canonicalize = (\<lambda>path. Inr (''/boot/'' @ path)),
      env_file_size = (\<lambda>path. Inr 10),
      env_out_dir = Some ''out'',
      env_manifest_dir = Some ''ritm'',
      env_exists = (\<lambda>path. path = ''ritm/src/platform/qemu.rs''),
      env_write = (\<lambda>path contents. Inr ())\<rparr>"

theorem accepted_payload_fits_window_witness:
  "payload_config Dev example_env 0x40200000 =
     Done (Some \<lparr>pc_address = 0x40200000, pc_path = ''/boot/Image'', pc_size = 10\<rparr>) \<and>
   unat (pc_size \<lparr>pc_address = 0x40200000, pc_path = ''/boot/Image'', pc_size = 10\<rparr>) \<le> 64 * 1024 * 1024"
proof -
  have run: "payload_config Dev example_env 0x40200000 =
     Done (Some \<lparr>pc_address = 0x40200000, pc_path = ''/boot/Image'', pc_size = 10\<rparr>)"
    by (simp add: payload_config_def example_env_def next_multiple_of_def PAYLOAD_SECTION_ALIGNMENT_def
        PAYLOAD_SIZE_LIMIT_def add_int_def)
  with accepted_payload_fits_window [OF run disjI1 [OF refl]] show ?thesis by blast
qed

lemma example_builds: "\<exists>out. build_main Dev example_env = Done out"
proof -
  have "discover_platforms example_env = Done [''qemu'', ''qemu_bl33'']" by code_simp
  moreover have "platform_config (env_read_file example_env (platform_config_file ''qemu'')) =
      Done [''ritm_image_address'' \<mapsto> 0x47000000, ''payload_address'' \<mapsto> 0x40200000]"
    by (simp add: platform_config_def shipped_config example_env_def platform_config_file_def path_join_def
        PLATFORM_CONFIG_DIR_def)
  moreover have "\<exists>p. payload_config Dev example_env 0x40200000 = Done p"
    by (simp add: payload_config_def example_env_def next_multiple_of_def PAYLOAD_SECTION_ALIGNMENT_def
        PAYLOAD_SIZE_LIMIT_def add_int_def)
  moreover have "env_platform example_env = Some ''qemu''" "env_out_dir example_env = Some ''out''"
    "env_manifest_dir example_env = Some ''ritm''" "\<And>p c. env_write example_env p c = Inr ()"
    by (simp_all add: example_env_def)
  moreover have "platform_source_path example_env ''ritm'' ''qemu'' = Done ''ritm/src/platform/qemu.rs''"
    "platform_source_path example_env ''ritm'' ''qemu_bl33'' = Done ''ritm/src/platform/qemu.rs''"
    by (simp_all add: platform_source_path_def path_join_def PLATFORM_DIR_def example_env_def Let_def)
  ultimately show ?thesis
    by (auto simp: build_main_def platform_module_source_def config_value_def Let_def
        RITM_IMAGE_ADDRESS_KEY_def PAYLOAD_ADDRESS_KEY_def)
qed

end
