(* ===== verification/Test_Build.thy ===== *)
theory Test_Build
  imports Build
begin

text \<open>
  The build scripts of the two test payloads (\<open>src/tests/integration_test/build.rs\<close> and
  \<open>src/tests/psci_test/build.rs\<close>), and that RITM and the integration test are built for the same
  addresses. The surroundings are those of \<open>Build\<close>; paths have no trailing or repeated separators.
\<close>

section \<open>The scripts\<close>

text \<open>\<open>Path::parent\<close>.\<close>

definition path_parent :: "string \<Rightarrow> string option" where
  "path_parent path =
     (case split_once CHR ''/'' (rev path) of
        None \<Rightarrow> if path = [] then None else Some []
      | Some (name, dir) \<Rightarrow> if name = [] then None else if dir = [] then Some ''/'' else Some (rev dir))"

definition test_config_value :: "config \<Rightarrow> string \<Rightarrow> u64 outcome" where
  "test_config_value config key = expect_some ''Could not find '' (config key)"

definition spaces :: string where "spaces = replicate 8 CHR '' ''"

text \<open>The two files: the constants included by the payload, and its memory layout.\<close>

definition test_constants :: "u64 \<Rightarrow> string" where
  "test_constants ritm_image_address =
     nl @
     spaces @ ''#[allow(clippy::unreadable_literal)]'' @ nl @
     spaces @ ''pub const RITM_IMAGE_ADDRESS: usize = '' @ format_alt_x (unat ritm_image_address) @ '';'' @ nl @
     spaces"

definition test_layout :: "u64 \<Rightarrow> string" where
  "test_layout payload_address =
     ''MEMORY'' @ nl @
     ''{'' @ nl @
     tab @ ''image : ORIGIN = '' @ format_alt_x (unat payload_address) @ '', LENGTH = 4M'' @ nl @
     ''}'' @ nl"

definition integration_test_build_main :: "build_env \<Rightarrow> build_output outcome" where
  "integration_test_build_main env =
     and_then (expect_some ''called `Result::unwrap()` on an `Err` value'' (env_manifest_dir env)) (\<lambda>dir.
     and_then (expect_some ''integration test crate should be under tests/'' (path_parent dir)) (\<lambda>tests.
     and_then (expect_some ''tests/ should be under the project root'' (path_parent tests)) (\<lambda>project_root.
     (let config_file = path_join project_root ''platforms/qemu.conf'' in
     and_then (platform_config (env_read_file env config_file)) (\<lambda>config.
     and_then (test_config_value config ''ritm_image_address'') (\<lambda>ritm_image_address.
     and_then (test_config_value config ''payload_address'') (\<lambda>payload_address.
     and_then (expect_some ''OUT_DIR is expected to be set in build.rs'' (env_out_dir env)) (\<lambda>out_dir.
     (let constants_path = path_join out_dir ''platform_constants.rs'';
          layout_path = path_join out_dir ''layout.ld'' in
     and_then (expect_ok ''Failed to write platform constants''
       (env_write env constants_path (test_constants ritm_image_address))) (\<lambda>_.
     and_then (expect_ok ''Failed to write linker layout'' (env_write env layout_path (test_layout payload_address))) (\<lambda>_.
     Done \<lparr>bo_directives =
             [''cargo:rerun-if-changed='' @ path_join project_root ''build_support/platform_config.rs'',
              ''cargo:rerun-if-changed='' @ config_file,
              ''cargo:rustc-link-search='' @ dir,
              ''cargo:rustc-link-arg=-Timage.ld'',
              ''cargo:rustc-link-arg=-T'' @ layout_path],
           bo_files =
             [(constants_path, test_constants ritm_image_address), (layout_path, test_layout payload_address)]\<rparr>)))))))))))"

definition psci_test_build_main :: "build_env \<Rightarrow> build_output outcome" where
  "psci_test_build_main env =
     and_then (expect_some ''called `Result::unwrap()` on an `Err` value'' (env_manifest_dir env)) (\<lambda>dir.
     Done \<lparr>bo_directives =
             [''cargo:rustc-link-search='' @ dir,
              ''cargo:rustc-link-arg=-Timage.ld'',
              ''cargo:rustc-link-arg=-Tlayout.ld'',
              ''cargo:rerun-if-changed=layout.ld''],
           bo_files = []\<rparr>)"

section \<open>Agreement of the builds\<close>

lemma path_parent_join:
  assumes "dir \<noteq> []" and "name \<noteq> []" and "CHR ''/'' \<notin> set name"
  shows "path_parent (path_join dir name) = Some dir"
  using split_once_append [of "CHR ''/''" "rev name" "rev dir"] assms by (simp add: path_parent_def path_join_def)

lemma test_crate_root:
  "root \<noteq> [] \<Longrightarrow> path_parent (root @ ''/tests/integration_test'') = Some (root @ ''/tests'')"
  "root \<noteq> [] \<Longrightarrow> path_parent (root @ ''/tests'') = Some root"
  using path_parent_join [of "root @ ''/tests''" "''integration_test''"] path_parent_join [of root "''tests''"]
  by (simp_all add: path_join_def)

lemma build_main_files:
  assumes "build_main pr env = Done out" and "env_platform env = Some platform"
  shows "\<exists>config image payload embedded platforms module dir.
     platform_config (env_read_file env (platform_config_file platform)) = Done config \<and>
     config ''ritm_image_address'' = Some image \<and> config ''payload_address'' = Some payload \<and>
     payload_config pr env payload = Done embedded \<and> platform_module_source env platforms image payload = Done module \<and>
     bo_files out = [(path_join dir ''platform.ld'', linker_script image embedded), (path_join dir ''platform.rs'', module),
       (path_join dir ''payload.rs'', payload_source_code embedded)] \<and>
     ''cargo:rustc-link-arg=-T'' @ path_join dir ''platform.ld'' \<in> set (bo_directives out)"
  using assms unfolding build_main_def config_value_def Let_def RITM_IMAGE_ADDRESS_KEY_def PAYLOAD_ADDRESS_KEY_def
  by (clarsimp split: if_splits) blast

lemma test_build_files:
  assumes "integration_test_build_main env = Done out" and "env_manifest_dir env = Some (root @ ''/tests/integration_test'')"
    and "root \<noteq> []"
  shows "\<exists>config image payload dir.
     platform_config (env_read_file env (root @ ''/platforms/qemu.conf'')) = Done config \<and>
     config ''ritm_image_address'' = Some image \<and> config ''payload_address'' = Some payload \<and>
     bo_files out = [(path_join dir ''platform_constants.rs'', test_constants image), (path_join dir ''layout.ld'', test_layout payload)] \<and>
     ''cargo:rustc-link-arg=-T'' @ path_join dir ''layout.ld'' \<in> set (bo_directives out)"
  using assms unfolding integration_test_build_main_def test_config_value_def Let_def
  by (clarsimp simp: test_crate_root) (simp add: path_join_def)

text \<open>What the generated files of RITM say about the addresses.\<close>

lemma linker_script_image:
  "\<exists>rest. linker_script base embedded =
     ''RITM_IMAGE_ADDRESS = '' @ format_alt_x (unat base) @ '';'' @ nl @
     nl @
     ''MEMORY'' @ nl @
     ''{'' @ nl @
     tab @ ''image : ORIGIN = RITM_IMAGE_ADDRESS, LENGTH = 4M'' @ nl @ rest"
  by (simp add: linker_script_def Let_def)

lemma linker_script_payload:
  assumes "payload_source_code embedded \<noteq> []" and "\<And>p. embedded = Some p \<Longrightarrow> pc_address p = payload"
  shows "\<exists>before after. linker_script base embedded =
     before @ nl @ tab @ ''payload (rwx) : ORIGIN = '' @ format_alt_x (unat payload) @ '', LENGTH = 64M'' @ nl @ after"
proof -
  obtain p where p: "embedded = Some p" "pc_address p = payload"
    using assms by (cases embedded) (simp_all add: payload_source_code_def)
  have "unat (PAYLOAD_SIZE_LIMIT div 1024 div 1024) = 64" by (simp add: PAYLOAD_SIZE_LIMIT_def)
  moreover have "format_dec 64 = ''64''" by (simp add: format_dec_def radix_string.simps digit_char_def char_of_def bit_0)
  ultimately show ?thesis
    unfolding linker_script_def p(1) Let_def option.case p(2)
    by (intro exI [of _ "''RITM_IMAGE_ADDRESS = '' @ format_alt_x (unat base) @ '';'' @ nl @ nl @ ''MEMORY'' @ nl @ ''{'' @ nl @
          tab @ ''image : ORIGIN = RITM_IMAGE_ADDRESS, LENGTH = 4M''"] exI) (simp only: append_assoc append.simps)
qed

lemma module_source_addresses:
  assumes "platform_module_source env platforms base payload = Done module"
  shows "\<exists>rest. module =
     ''#[allow(clippy::unreadable_literal)]'' @ nl @
     ''pub const RITM_IMAGE_ADDRESS: usize = '' @ format_alt_x (unat base) @ '';'' @ nl @
     ''#[allow(clippy::unreadable_literal)]'' @ nl @
     ''pub const PAYLOAD_ADDRESS: u64 = '' @ format_alt_x (unat payload) @ '';'' @ nl @ rest"
  using assms by (auto simp: platform_module_source_def)

text \<open>
  C36: RITM and the integration test agree on the addresses. If both builds succeed, RITM's for the
  platform \<open>qemu\<close> and the test's in the same tree, then there is one image address and one payload
  address, those of the configuration file, whose texts, which parse back to them, are in all the
  generated files: the linker script that RITM is linked with sets its image to that address, and
  to that address the payload's region if one is embedded; RITM's platform module defines both
  constants; the test's constants define the image address that it reads to check the isolation;
  and the memory layout it is linked with puts it where RITM starts its payload.
\<close>

theorem builds_agree_on_addresses:
  assumes ritm: "build_main pr env = Done out" "env_platform env = Some ''qemu''"
    and test: "integration_test_build_main tenv = Done tout" "env_manifest_dir tenv = Some (root @ ''/tests/integration_test'')"
    and tree: "root \<noteq> []" "env_read_file tenv (root @ ''/platforms/qemu.conf'') = env_read_file env ''platforms/qemu.conf''"
  shows "\<exists>config image payload image_text payload_text out_dir script module code test_dir constants layout.
     platform_config (env_read_file env ''platforms/qemu.conf'') = Done config \<and>
     config ''ritm_image_address'' = Some image \<and> config ''payload_address'' = Some payload \<and>
     parse_int image_text = Some image \<and> parse_int payload_text = Some payload \<and>
     bo_files out = [(path_join out_dir ''platform.ld'', script), (path_join out_dir ''platform.rs'', module),
       (path_join out_dir ''payload.rs'', code)] \<and>
     ''cargo:rustc-link-arg=-T'' @ path_join out_dir ''platform.ld'' \<in> set (bo_directives out) \<and>
     (\<exists>rest. script =
        ''RITM_IMAGE_ADDRESS = '' @ image_text @ '';'' @ nl @
        nl @
        ''MEMORY'' @ nl @
        ''{'' @ nl @
        tab @ ''image : ORIGIN = RITM_IMAGE_ADDRESS, LENGTH = 4M'' @ nl @ rest) \<and>
     (code \<noteq> [] \<longrightarrow> (\<exists>before after. script =
        before @ nl @ tab @ ''payload (rwx) : ORIGIN = '' @ payload_text @ '', LENGTH = 64M'' @ nl @ after)) \<and>
     (\<exists>rest. module =
        ''#[allow(clippy::unreadable_literal)]'' @ nl @
        ''pub const RITM_IMAGE_ADDRESS: usize = '' @ image_text @ '';'' @ nl @
        ''#[allow(clippy::unreadable_literal)]'' @ nl @
        ''pub const PAYLOAD_ADDRESS: u64 = '' @ payload_text @ '';'' @ nl @ rest) \<and>
     bo_files tout = [(path_join test_dir ''platform_constants.rs'', constants), (path_join test_dir ''layout.ld'', layout)] \<and>
     ''cargo:rustc-link-arg=-T'' @ path_join test_dir ''layout.ld'' \<in> set (bo_directives tout) \<and>
     constants =
        nl @
        ''        #[allow(clippy::unreadable_literal)]'' @ nl @
        ''        pub const RITM_IMAGE_ADDRESS: usize = '' @ image_text @ '';'' @ nl @
        ''        '' \<and>
     layout =
        ''MEMORY'' @ nl @
        ''{'' @ nl @
        tab @ ''image : ORIGIN = '' @ payload_text @ '', LENGTH = 4M'' @ nl @
        ''}'' @ nl"
proof -
  have conf: "platform_config_file ''qemu'' = ''platforms/qemu.conf''"
    by (simp add: platform_config_file_def path_join_def PLATFORM_CONFIG_DIR_def)
  obtain config image payload embedded platforms module out_dir where
      config: "platform_config (env_read_file env ''platforms/qemu.conf'') = Done config"
        "config ''ritm_image_address'' = Some image" "config ''payload_address'' = Some payload"
    and embedded: "payload_config pr env payload = Done embedded"
    and module: "platform_module_source env platforms image payload = Done module"
    and files: "bo_files out = [(path_join out_dir ''platform.ld'', linker_script image embedded),
       (path_join out_dir ''platform.rs'', module), (path_join out_dir ''payload.rs'', payload_source_code embedded)]"
      "''cargo:rustc-link-arg=-T'' @ path_join out_dir ''platform.ld'' \<in> set (bo_directives out)"
    using build_main_files [OF ritm] unfolding conf by (elim exE conjE) (rule that)
  obtain config' image' payload' test_dir where
      config': "platform_config (env_read_file env ''platforms/qemu.conf'') = Done config'"
        "config' ''ritm_image_address'' = Some image'" "config' ''payload_address'' = Some payload'"
    and tfiles: "bo_files tout = [(path_join test_dir ''platform_constants.rs'', test_constants image'),
        (path_join test_dir ''layout.ld'', test_layout payload')]"
      "''cargo:rustc-link-arg=-T'' @ path_join test_dir ''layout.ld'' \<in> set (bo_directives tout)"
    using test_build_files [OF test tree(1)] unfolding tree(2) by (elim exE conjE) (rule that)
  have same: "image' = image" "payload' = payload" using config config' by simp_all
  have "pc_address p = payload" if "embedded = Some p" for p
    using embedded that by (auto simp: payload_config_def split: option.splits if_splits)
  note payload_region = linker_script_payload [OF _ this, rule_format]
  have spaces: "spaces = ''        ''" by (simp add: spaces_def numeral_eq_Suc)
  have texts: "test_constants image =
        nl @
        ''        #[allow(clippy::unreadable_literal)]'' @ nl @
        ''        pub const RITM_IMAGE_ADDRESS: usize = '' @ format_alt_x (unat image) @ '';'' @ nl @
        ''        ''"
    "test_layout payload =
        ''MEMORY'' @ nl @
        ''{'' @ nl @
        tab @ ''image : ORIGIN = '' @ format_alt_x (unat payload) @ '', LENGTH = 4M'' @ nl @
        ''}'' @ nl"
    by (simp_all only: test_constants_def test_layout_def spaces append.simps)
  show ?thesis
    by (rule exI [of _ config], rule exI [of _ image], rule exI [of _ payload], rule exI [of _ "format_alt_x (unat image)"],
        rule exI [of _ "format_alt_x (unat payload)"], rule exI [of _ out_dir], rule exI, rule exI, rule exI, rule exI [of _ test_dir],
        rule exI, rule exI, intro conjI)
      (rule config files tfiles [unfolded same] parse_int_hex linker_script_image impI module_source_addresses [OF module]
        texts payload_region | assumption)+
qed

text \<open>The tree of the examples, seen from the test's crate.\<close>

definition example_test_env :: build_env where
  "example_test_env =
     example_env\<lparr>env_manifest_dir := Some ''ritm/tests/integration_test'',
       env_read_file := (\<lambda>path. if path = ''ritm/platforms/qemu.conf'' then Inr qemu_conf else Inl ''not found'')\<rparr>"

lemma example_test_builds: "\<exists>out. integration_test_build_main example_test_env = Done out"
  using test_crate_root [of "''ritm''"]
  by (simp add: integration_test_build_main_def example_test_env_def example_env_def path_join_def platform_config_def shipped_config
      test_config_value_def Let_def)

theorem builds_agree_on_addresses_witness:
  "\<exists>out tout image_text. build_main Dev example_env = Done out \<and> integration_test_build_main example_test_env = Done tout \<and>
     parse_int image_text = Some 0x47000000 \<and>
     snd (hd (bo_files tout)) =
        nl @
        ''        #[allow(clippy::unreadable_literal)]'' @ nl @
        ''        pub const RITM_IMAGE_ADDRESS: usize = '' @ image_text @ '';'' @ nl @
        ''        ''"
proof -
  obtain out tout where builds: "build_main Dev example_env = Done out" "integration_test_build_main example_test_env = Done tout"
    using example_builds example_test_builds by blast
  have qemu: "env_platform example_env = Some ''qemu''" by (simp add: example_env_def)
  have tree: "env_manifest_dir example_test_env = Some (''ritm'' @ ''/tests/integration_test'')" "''ritm'' \<noteq> []"
    "env_read_file example_test_env (''ritm'' @ ''/platforms/qemu.conf'') = env_read_file example_env ''platforms/qemu.conf''"
    by (simp_all add: example_test_env_def example_env_def)
  have conf: "platform_config (env_read_file example_env ''platforms/qemu.conf'') =
      Done [''ritm_image_address'' \<mapsto> 0x47000000, ''payload_address'' \<mapsto> 0x40200000]"
    by (simp add: example_env_def platform_config_def shipped_config)
  obtain config image image_text constants files where image: "config ''ritm_image_address'' = Some image" "parse_int image_text = Some image"
    and config: "platform_config (env_read_file example_env ''platforms/qemu.conf'') = Done config"
    and constants: "bo_files tout = constants # files"
      "snd constants = nl @ ''        #[allow(clippy::unreadable_literal)]'' @ nl @
        ''        pub const RITM_IMAGE_ADDRESS: usize = '' @ image_text @ '';'' @ nl @ ''        ''"
    using builds_agree_on_addresses [OF builds(1) qemu builds(2) tree]
    by (elim exE conjE) (rule that, assumption, assumption, assumption, assumption, simp only: snd_conv)
  have "config = [''ritm_image_address'' \<mapsto> 0x47000000, ''payload_address'' \<mapsto> 0x40200000]"
    using config unfolding conf by simp
  then have "image = 0x47000000" using image(1) by simp
  with image(2) have "parse_int image_text = Some 0x47000000" by (simp only:)
  then show ?thesis using builds constants(2) unfolding constants(1) [THEN arg_cong [of _ _ hd], unfolded list.sel, symmetric]
    by (intro exI conjI)
qed

end
