(* ===== verification/Exceptions.thy ===== *)
theory Exceptions
  imports Prelude
begin

text \<open>
  The saved guest registers of a trap (\<open>src/src/exceptions.rs\<close>): the volatile frame of
  \<open>aarch64-rt\<close> (x0--x18, x29, x30, ELR, SPSR) combined with the x19--x28 frame of RITM's own
  wrapper. The assembly of the wrapper itself is in the theory \<open>Assembly\<close>.

  The two frames are fixed-size arrays, lists of length 19 and 10 here (\<open>guest_regs_wf\<close>);
  every index the code uses is within its match arm's range.
\<close>

section \<open>The saved frames\<close>

record VolatileRegisters =
  vr_registers :: "u64 list"
  vr_fp :: u64
  vr_sp :: u64
  vr_elr :: usize
  vr_spsr :: u64

record NonVolatileRegisters =
  nv_registers :: "u64 list"

record GuestRegisterState =
  grs_volatile :: VolatileRegisters
  grs_nonvolatile :: NonVolatileRegisters

definition guest_regs_wf :: "GuestRegisterState \<Rightarrow> bool" where
  "guest_regs_wf rs \<longleftrightarrow>
     length (vr_registers (grs_volatile rs)) = 19 \<and> length (nv_registers (grs_nonvolatile rs)) = 10"

definition volatile_gprs :: "GuestRegisterState \<Rightarrow> u64 list" where
  "volatile_gprs self = vr_registers (grs_volatile self)"

definition read_gpr :: "GuestRegisterState \<Rightarrow> usize \<Rightarrow> u64 option" where
  "read_gpr self index =
     (if index \<le> 18 then Some (vr_registers (grs_volatile self) ! unat index)
      else if index \<le> 28 then Some (nv_registers (grs_nonvolatile self) ! unat (index - 19))
      else if index = 29 then Some (vr_fp (grs_volatile self))
      else if index = 30 then Some (vr_sp (grs_volatile self))
      else if index = 31 then Some 0
      else None)"

definition write_gpr :: "GuestRegisterState \<Rightarrow> usize \<Rightarrow> u64 \<Rightarrow> bool \<times> GuestRegisterState" where
  "write_gpr self index value =
     (if index \<le> 18
      then (True, self\<lparr>grs_volatile := (grs_volatile self)
              \<lparr>vr_registers := (vr_registers (grs_volatile self))[unat index := value]\<rparr>\<rparr>)
      else if index \<le> 28
      then (True, self\<lparr>grs_nonvolatile := (grs_nonvolatile self)
              \<lparr>nv_registers := (nv_registers (grs_nonvolatile self))[unat (index - 19) := value]\<rparr>\<rparr>)
      else if index = 29 then (True, self\<lparr>grs_volatile := (grs_volatile self)\<lparr>vr_fp := value\<rparr>\<rparr>)
      else if index = 30 then (True, self\<lparr>grs_volatile := (grs_volatile self)\<lparr>vr_sp := value\<rparr>\<rparr>)
      else if index = 31 then (True, self)
      else (False, self))"

definition exception_return :: "GuestRegisterState \<Rightarrow> usize \<times> u64" where
  "exception_return self = (vr_elr (grs_volatile self), vr_spsr (grs_volatile self))"

definition advance_pc :: "profile \<Rightarrow> GuestRegisterState \<Rightarrow> usize \<Rightarrow> GuestRegisterState outcome" where
  "advance_pc pr self byte_count =
     and_then (add_int pr (vr_elr (grs_volatile self)) byte_count) (\<lambda>elr.
       Done (self\<lparr>grs_volatile := (grs_volatile self)\<lparr>vr_elr := elr\<rparr>\<rparr>))"

definition set_exception_return :: "GuestRegisterState \<Rightarrow> usize \<Rightarrow> u64 \<Rightarrow> GuestRegisterState" where
  "set_exception_return self elr spsr =
     self\<lparr>grs_volatile := (grs_volatile self)\<lparr>vr_elr := elr, vr_spsr := spsr\<rparr>\<rparr>"

section \<open>The register file as an interface\<close>

text \<open>
  What clients of the frames rely on: 31 independent registers, a zero register that ignores
  writes, refusal of any other index, and a rest of the state that writes leave alone.
\<close>

locale register_file =
  fixes valid :: "'s \<Rightarrow> bool"
    and rd :: "'s \<Rightarrow> usize \<Rightarrow> u64 option"
    and wr :: "'s \<Rightarrow> usize \<Rightarrow> u64 \<Rightarrow> bool \<times> 's"
    and rest :: "'s \<Rightarrow> 'r"
  assumes valid_wr: "valid s \<Longrightarrow> valid (snd (wr s i v))"
    and rd_defined: "valid s \<Longrightarrow> rd s i \<noteq> None \<longleftrightarrow> i \<le> 31"
    and rd_zero: "rd s 31 = Some 0"
    and rd_wr: "valid s \<Longrightarrow> i \<le> 30 \<Longrightarrow> rd (snd (wr s i v)) j = (if j = i then Some v else rd s j)"
    and wr_zero: "wr s 31 v = (True, s)"
    and wr_accepts: "fst (wr s i v) \<longleftrightarrow> i \<le> 31"
    and wr_refused: "\<not> i \<le> 31 \<Longrightarrow> snd (wr s i v) = s"
    and rest_wr: "rest (snd (wr s i v)) = rest s"
begin

text \<open>Writing a block of values to consecutive registers.\<close>

lemma wr_block_valid:
  "valid s \<Longrightarrow> valid (fold (\<lambda>(i, v) s. snd (wr s (of_nat i) v)) (enumerate n vs) s)"
  by (induction vs arbitrary: n s) (simp_all add: valid_wr)

lemma wr_block_rest:
  "rest (fold (\<lambda>(i, v) s. snd (wr s (of_nat i) v)) (enumerate n vs) s) = rest s"
  by (induction vs arbitrary: n s) (simp_all add: rest_wr)

lemma rd_wr_block:
  assumes "valid s" and "n + length vs \<le> 31"
  shows "rd (fold (\<lambda>(i, v) s. snd (wr s (of_nat i) v)) (enumerate n vs) s) j =
     (if n \<le> unat j \<and> unat j < n + length vs then Some (vs ! (unat j - n)) else rd s j)"
  using assms
proof (induction vs arbitrary: n s)
  case Nil
  then show ?case by auto
next
  case (Cons v vs)
  have un: "unat (of_nat n :: usize) = n"
    using Cons.prems(2) by (simp add: unat_of_nat)
  have n: "(of_nat n :: usize) \<le> 30"
    using Cons.prems(2) by (simp add: word_le_nat_alt un)
  have j: "j = of_nat n \<longleftrightarrow> unat j = n"
    by (simp add: word_unat_eq_iff un)
  have "rd (fold (\<lambda>(i, v) s. snd (wr s (of_nat i) v)) (enumerate n (v # vs)) s) j =
      (if Suc n \<le> unat j \<and> unat j < Suc n + length vs then Some (vs ! (unat j - Suc n))
       else rd (snd (wr s (of_nat n) v)) j)"
    using Cons.IH [OF valid_wr [OF Cons.prems(1)], of "Suc n"] Cons.prems(2) by simp
  then show ?case
    using rd_wr [OF Cons.prems(1) n, of v j] j Cons.prems(2) by (auto simp: nth_Cons' Suc_le_eq)
qed

end

lemma word_le_29_30:
  "\<not> (i :: usize) \<le> 28 \<Longrightarrow> i \<le> 31 \<longleftrightarrow> i = 29 \<or> i = 30 \<or> i = 31"
  by (auto simp: word_le_nat_alt word_unat_eq_iff)

lemma word_le_30_31: "(i :: usize) \<le> 31 \<longleftrightarrow> i = 31 \<or> i \<le> 30"
  by (auto simp: word_le_nat_alt word_unat_eq_iff)

lemma gpr_slot_volatile: "(i :: usize) \<le> 18 \<Longrightarrow> unat i < 19"
  by (simp add: word_le_nat_alt)

lemma gpr_slot_nonvolatile:
  assumes "\<not> (i :: usize) \<le> 18" and "i \<le> 28"
  shows "unat (i - 19) = unat i - 19" and "19 \<le> unat i" and "unat i < 29"
proof -
  have "19 \<le> i" using assms(1) by (simp add: word_le_nat_alt)
  then show "unat (i - 19) = unat i - 19" by (simp add: unat_sub)
qed (use assms in \<open>simp_all add: word_le_nat_alt\<close>)

lemma read_write_gpr:
  assumes wf: "guest_regs_wf s" and i: "i \<le> 30"
  shows "read_gpr (snd (write_gpr s i v)) j = (if j = i then Some v else read_gpr s j)"
proof -
  consider "i \<le> 18" | "\<not> i \<le> 18" "i \<le> 28" | "i = 29" | "i = 30"
    using i word_le_29_30 [of i] by (force simp: word_le_nat_alt word_unat_eq_iff)
  then show ?thesis
  proof cases
    case 1
    have "unat j = unat i \<longleftrightarrow> j = i" by (simp add: word_unat_eq_iff)
    then show ?thesis
      using wf 1 gpr_slot_volatile [OF 1]
      by (auto simp: guest_regs_wf_def read_gpr_def write_gpr_def nth_list_update)
  next
    case 2
    note slot = gpr_slot_nonvolatile [OF 2]
    have same: "unat (j - 19) = unat (i - 19) \<longleftrightarrow> j = i" if "\<not> j \<le> 18" "j \<le> 28"
      using gpr_slot_nonvolatile [OF that] slot by (auto simp: word_unat_eq_iff)
    have "unat (i - 19) < 10" using slot by simp
    then show ?thesis
      using wf 2 same
      by (auto simp: guest_regs_wf_def read_gpr_def write_gpr_def nth_list_update)
  qed (auto simp: read_gpr_def write_gpr_def)
qed

interpretation guest: register_file guest_regs_wf read_gpr write_gpr exception_return
proof (unfold_locales, goal_cases)
  case (1 s i v)
  then show ?case by (simp add: guest_regs_wf_def write_gpr_def)
next
  case (2 s i)
  have "i \<le> 18 \<Longrightarrow> i \<le> 31" "i \<le> 28 \<Longrightarrow> i \<le> 31" by (auto intro: order_trans)
  then show ?case using word_le_29_30 [of i] by (auto simp: read_gpr_def)
next
  case (3 s)
  then show ?case by (simp add: read_gpr_def)
next
  case (4 s i v j)
  then show ?case by (rule read_write_gpr)
next
  case (5 s v)
  then show ?case by (simp add: write_gpr_def)
next
  case (6 s i v)
  have "i \<le> 18 \<Longrightarrow> i \<le> 31" "i \<le> 28 \<Longrightarrow> i \<le> 31" by (auto intro: order_trans)
  then show ?case using word_le_29_30 [of i] by (auto simp: write_gpr_def)
next
  case (7 i s v)
  moreover have "i \<le> 18 \<Longrightarrow> i \<le> 31" "i \<le> 28 \<Longrightarrow> i \<le> 31" by (auto intro: order_trans)
  ultimately show ?case using word_le_29_30 [of i] by (auto simp: write_gpr_def)
next
  case (8 s i v)
  then show ?case by (simp add: write_gpr_def exception_return_def)
qed

lemma advance_pc_eq:
  "unat (vr_elr (grs_volatile rs)) + unat n < 2 ^ 64 \<Longrightarrow>
   advance_pc pr rs n = Done (rs\<lparr>grs_volatile := (grs_volatile rs)\<lparr>vr_elr := vr_elr (grs_volatile rs) + n\<rparr>\<rparr>)"
  by (simp add: advance_pc_def)

lemma advance_pc_keeps:
  assumes "advance_pc pr rs n = Done rs'"
  shows "read_gpr rs' j = read_gpr rs j" and "guest_regs_wf rs' = guest_regs_wf rs"
    and "exception_return rs' = (fst (exception_return rs) + n, snd (exception_return rs))"
  using assms
  by (auto simp: advance_pc_def add_int_def read_gpr_def guest_regs_wf_def exception_return_def split: if_splits)

lemma set_exception_return_keeps [simp]:
  "read_gpr (set_exception_return rs elr spsr) j = read_gpr rs j"
  "guest_regs_wf (set_exception_return rs elr spsr) = guest_regs_wf rs"
  "exception_return (set_exception_return rs elr spsr) = (elr, spsr)"
  by (simp_all add: set_exception_return_def read_gpr_def guest_regs_wf_def exception_return_def)

section \<open>Properties\<close>

text \<open>A frame whose registers hold distinct values, for the examples.\<close>

definition numbered_regs :: GuestRegisterState where
  "numbered_regs =
     \<lparr>grs_volatile = \<lparr>vr_registers = map of_nat [100..<119], vr_fp = 129, vr_sp = 130,
                      vr_elr = 0x80000, vr_spsr = 0x3c5\<rparr>,
      grs_nonvolatile = \<lparr>nv_registers = map of_nat [119..<129]\<rparr>\<rparr>"

lemma numbered_regs_wf: "guest_regs_wf numbered_regs"
  by (simp add: guest_regs_wf_def numbered_regs_def)

text \<open>
  C29: The two saved frames together behave as the architectural register file: a write to
  \<open>x0\<close>--\<open>x30\<close> changes that register and no other, \<open>x31\<close> reads as zero and ignores writes, any
  higher index is refused with nothing changed, and the return address and status are never
  touched by a register write.
\<close>

theorem guest_frames_are_a_register_file:
  assumes "guest_regs_wf rs"
  shows "fst (write_gpr rs index v) = (index \<le> 31) \<and>
    read_gpr (snd (write_gpr rs index v)) j =
      (if j = index \<and> index \<le> 30 then Some v
       else if j = 31 then Some 0 else if j \<le> 30 then Some (the (read_gpr rs j)) else None) \<and>
    exception_return (snd (write_gpr rs index v)) = exception_return rs \<and>
    guest_regs_wf (snd (write_gpr rs index v))"
proof -
  have j: "read_gpr rs j = (if j = 31 then Some 0 else if j \<le> 30 then Some (the (read_gpr rs j)) else None)"
    using guest.rd_defined [OF assms, of j] guest.rd_zero [of rs] word_le_30_31 [of j] by auto
  have "snd (write_gpr rs index v) = rs" if "\<not> index \<le> 30"
    using that guest.wr_zero [of rs v] guest.wr_refused [of index rs v] word_le_30_31 [of index]
    by (cases "index = 31") auto
  then have "read_gpr (snd (write_gpr rs index v)) j =
      (if j = index \<and> index \<le> 30 then Some v
       else if j = 31 then Some 0 else if j \<le> 30 then Some (the (read_gpr rs j)) else None)"
    using guest.rd_wr [OF assms, of index v j] j by (cases "index \<le> 30") auto
  then show ?thesis
    by (simp add: guest.wr_accepts guest.rest_wr guest.valid_wr assms)
qed

theorem guest_frames_are_a_register_file_witness:
  "read_gpr (snd (write_gpr numbered_regs 20 7)) 20 = Some 7 \<and>
   read_gpr (snd (write_gpr numbered_regs 20 7)) 31 = Some 0 \<and>
   fst (write_gpr numbered_regs 32 7) = False"
  by (simp add: guest_frames_are_a_register_file [OF numbered_regs_wf])

end
