(* ===== verification/Assembly.thy ===== *)
theory Assembly
  imports Exceptions
begin

text \<open>
  RITM's naked assembly functions as lists of instructions with an executor: the return to
  EL1 (\<open>eret_to_el1\<close> in \<open>src/src/hypervisor.rs\<close>), the trap wrapper (\<open>sync_lower\<close> in
  \<open>src/src/exceptions.rs\<close>), \<open>disable_mmu_and_caches\<close> (\<open>src/src/arch.rs\<close>) and
  \<open>run_payload_el2\<close> (\<open>src/src/main.rs\<close>).

  The machine is the part of the A64 architecture these functions touch. Memory is addressed
  in doublewords: every access of the code is 8-byte sized and at a multiple of 8 from the same
  stack pointer. Maintenance instructions are recorded in the order they execute. A \<open>bl\<close> to
  compiled Rust code is a parameter, with the procedure call standard as its hypothesis.
\<close>

section \<open>Machine and instructions\<close>

datatype maintenance =
    Tlbi_alle2is | Tlbi_vmalls12e1 | Dsb_sy | Isb | Ic_iallu | Msr_sctlr_el2 u64 | Msr_vtcr_el2 u64

record cpu =
  cpu_x :: "nat \<Rightarrow> u64"
  cpu_v :: "nat \<Rightarrow> 128 word"
  cpu_sp :: u64
  cpu_pc :: u64
  cpu_mem :: "u64 \<Rightarrow> u64"
  cpu_sctlr_el2 :: u64
  cpu_events :: "maintenance list"

datatype 'f instr =
    MovImm nat u64            \<comment> \<open>\<open>mov xd, imm\<close>\<close>
  | Mov nat nat               \<comment> \<open>\<open>mov xd, xm\<close>\<close>
  | MovFromSp nat             \<comment> \<open>\<open>mov xd, sp\<close>\<close>
  | Movi2d nat "128 word"     \<comment> \<open>\<open>movi vd.2d, #imm\<close>\<close>
  | SubSp u64                 \<comment> \<open>\<open>sub sp, sp, #imm\<close>\<close>
  | AddSp u64                 \<comment> \<open>\<open>add sp, sp, #imm\<close>\<close>
  | Stp nat nat u64           \<comment> \<open>\<open>stp xa, xb, [sp, #imm]\<close>\<close>
  | Str nat u64               \<comment> \<open>\<open>str xa, [sp, #imm]\<close>\<close>
  | Ldp nat nat u64           \<comment> \<open>\<open>ldp xa, xb, [sp, #imm]\<close>\<close>
  | Ldr nat u64               \<comment> \<open>\<open>ldr xa, [sp, #imm]\<close>\<close>
  | MsrSctlrEl2 nat           \<comment> \<open>\<open>msr sctlr_el2, xa\<close>\<close>
  | Maintain maintenance      \<comment> \<open>\<open>tlbi\<close>, \<open>dsb\<close>, \<open>isb\<close>, \<open>ic\<close>\<close>
  | Bl 'f                     \<comment> \<open>\<open>bl function\<close>\<close>
  | Br nat                    \<comment> \<open>\<open>br xa\<close>\<close>
  | Ret                       \<comment> \<open>\<open>ret\<close>, to \<open>x30\<close>\<close>
  | Eret                      \<comment> \<open>\<open>eret\<close>\<close>

text \<open>How a piece of code is left.\<close>

datatype exit = FellThrough | JumpTo u64 | ExceptionReturn

fun exec :: "'f instr \<Rightarrow> cpu \<Rightarrow> cpu" where
  "exec (MovImm d v) s = s\<lparr>cpu_x := (cpu_x s)(d := v)\<rparr>"
| "exec (Mov d m) s = s\<lparr>cpu_x := (cpu_x s)(d := cpu_x s m)\<rparr>"
| "exec (MovFromSp d) s = s\<lparr>cpu_x := (cpu_x s)(d := cpu_sp s)\<rparr>"
| "exec (Movi2d d v) s = s\<lparr>cpu_v := (cpu_v s)(d := v)\<rparr>"
| "exec (SubSp n) s = s\<lparr>cpu_sp := cpu_sp s - n\<rparr>"
| "exec (AddSp n) s = s\<lparr>cpu_sp := cpu_sp s + n\<rparr>"
| "exec (Stp a b n) s =
     s\<lparr>cpu_mem := (cpu_mem s)(cpu_sp s + n := cpu_x s a, cpu_sp s + n + 8 := cpu_x s b)\<rparr>"
| "exec (Str a n) s = s\<lparr>cpu_mem := (cpu_mem s)(cpu_sp s + n := cpu_x s a)\<rparr>"
| "exec (Ldp a b n) s =
     s\<lparr>cpu_x := (cpu_x s)(a := cpu_mem s (cpu_sp s + n), b := cpu_mem s (cpu_sp s + n + 8))\<rparr>"
| "exec (Ldr a n) s = s\<lparr>cpu_x := (cpu_x s)(a := cpu_mem s (cpu_sp s + n))\<rparr>"
| "exec (MsrSctlrEl2 a) s =
     s\<lparr>cpu_sctlr_el2 := cpu_x s a, cpu_events := cpu_events s @ [Msr_sctlr_el2 (cpu_x s a)]\<rparr>"
| "exec (Maintain m) s = s\<lparr>cpu_events := cpu_events s @ [m]\<rparr>"
| "exec _ s = s"

text \<open>
  Straight-line execution. \<open>call f s\<close> is the state in which the function \<open>f\<close>, entered in \<open>s\<close>,
  returns to the instruction after the \<open>bl\<close>.
\<close>

fun run :: "('f \<Rightarrow> cpu \<Rightarrow> cpu) \<Rightarrow> 'f instr list \<Rightarrow> cpu \<Rightarrow> exit \<times> cpu" where
  "run call [] s = (FellThrough, s)"
| "run call (Bl f # is) s =
     run call is (call f (s\<lparr>cpu_x := (cpu_x s)(30 := cpu_pc s + 4)\<rparr>)\<lparr>cpu_pc := cpu_pc s + 4\<rparr>)"
| "run call (Br a # is) s = (JumpTo (cpu_x s a), s)"
| "run call (Ret # is) s = (JumpTo (cpu_x s 30), s)"
| "run call (Eret # is) s = (ExceptionReturn, s)"
| "run call (i # is) s = run call is ((exec i s)\<lparr>cpu_pc := cpu_pc s + 4\<rparr>)"

section \<open>The functions\<close>

definition eret_to_el1 :: "unit instr list" where
  "eret_to_el1 =
     [MovImm 4 0, MovImm 5 0, MovImm 6 0, MovImm 7 0, MovImm 8 0, MovImm 9 0, MovImm 10 0,
      MovImm 11 0, MovImm 12 0, MovImm 13 0, MovImm 14 0, MovImm 15 0, MovImm 16 0, MovImm 17 0,
      MovImm 18 0, MovImm 19 0, MovImm 20 0, MovImm 21 0, MovImm 22 0, MovImm 23 0, MovImm 24 0,
      MovImm 25 0, MovImm 26 0, MovImm 27 0, MovImm 28 0, MovImm 29 0, MovImm 30 0,
      Movi2d 0 0, Movi2d 1 0, Movi2d 2 0, Movi2d 3 0, Movi2d 4 0, Movi2d 5 0, Movi2d 6 0, Movi2d 7 0,
      Movi2d 8 0, Movi2d 9 0, Movi2d 10 0, Movi2d 11 0, Movi2d 12 0, Movi2d 13 0, Movi2d 14 0,
      Movi2d 15 0, Movi2d 16 0, Movi2d 17 0, Movi2d 18 0, Movi2d 19 0, Movi2d 20 0, Movi2d 21 0,
      Movi2d 22 0, Movi2d 23 0, Movi2d 24 0, Movi2d 25 0, Movi2d 26 0, Movi2d 27 0, Movi2d 28 0,
      Movi2d 29 0, Movi2d 30 0, Movi2d 31 0,
      Eret]"

datatype handler_symbol = sync_lower_with_nonvolatile_symbol

definition sync_lower :: "handler_symbol instr list" where
  "sync_lower =
     [SubSp (8 * 12),
      Stp 19 20 (8 * 0),
      Stp 21 22 (8 * 2),
      Stp 23 24 (8 * 4),
      Stp 25 26 (8 * 6),
      Stp 27 28 (8 * 8),
      Str 30 (8 * 10),
      MovFromSp 1,
      Bl sync_lower_with_nonvolatile_symbol,
      Ldr 30 (8 * 10),
      Ldp 19 20 (8 * 0),
      Ldp 21 22 (8 * 2),
      Ldp 23 24 (8 * 4),
      Ldp 25 26 (8 * 6),
      Ldp 27 28 (8 * 8),
      AddSp (8 * 12),
      Ret]"

text \<open>
  \<open>arm_sysregs\<close> provides the bits of \<open>SCTLR_EL2\<close>; \<open>-=\<close> on its bit flags clears them.
\<close>

record sctlr_el2_bits =
  SctlrEl2_M :: u64
  SctlrEl2_C :: u64
  SctlrEl2_I :: u64

definition disable_mmu_and_caches_impl :: "sctlr_el2_bits \<Rightarrow> u64 \<Rightarrow> u64" where
  "disable_mmu_and_caches_impl B sctlr_el2 =
     (let sctlr = sctlr_el2;
          sctlr = sctlr AND NOT (SctlrEl2_M B);
          sctlr = sctlr AND NOT (SctlrEl2_C B);
          sctlr = sctlr AND NOT (SctlrEl2_I B)
      in sctlr)"

datatype arch_symbol = disable_mmu_and_caches_impl_symbol

definition disable_mmu_and_caches :: "arch_symbol instr list" where
  "disable_mmu_and_caches =
     [Mov 27 29,
      Mov 28 30,
      Bl disable_mmu_and_caches_impl_symbol,
      Maintain Tlbi_alle2is,
      Maintain Dsb_sy,
      MsrSctlrEl2 0,
      Maintain Isb,
      Mov 29 27,
      Mov 30 28,
      Maintain Ic_iallu,
      Maintain Isb,
      Ret]"

datatype main_symbol = disable_mmu_and_caches_symbol

definition run_payload_el2 :: "main_symbol instr list" where
  "run_payload_el2 =
     [Mov 19 0,
      Mov 20 1,
      Mov 21 2,
      Mov 22 3,
      Mov 23 4,
      Bl disable_mmu_and_caches_symbol,
      Mov 0 20,
      Mov 1 21,
      Mov 2 22,
      Mov 3 23,
      Br 19]"

section \<open>Clearing registers\<close>

lemma run_clear_x:
  "run call (map (\<lambda>r. MovImm r 0) rs @ is) s =
   run call is (s\<lparr>cpu_x := (\<lambda>r. if r \<in> set rs then 0 else cpu_x s r), cpu_pc := cpu_pc s + 4 * of_nat (length rs)\<rparr>)"
proof (induction rs arbitrary: s)
  case Nil
  then show ?case by simp
next
  case (Cons a rs)
  have "(\<lambda>r. if r \<in> set rs then 0 else cpu_x (s\<lparr>cpu_x := (cpu_x s)(a := 0), cpu_pc := cpu_pc s + 4\<rparr>) r) =
      (\<lambda>r. if r \<in> set (a # rs) then 0 else cpu_x s r)"
    by (rule ext) simp
  then show ?case by (simp add: Cons algebra_simps)
qed

lemma run_clear_v:
  "run call (map (\<lambda>r. Movi2d r 0) rs @ is) s =
   run call is (s\<lparr>cpu_v := (\<lambda>r. if r \<in> set rs then 0 else cpu_v s r), cpu_pc := cpu_pc s + 4 * of_nat (length rs)\<rparr>)"
proof (induction rs arbitrary: s)
  case Nil
  then show ?case by simp
next
  case (Cons a rs)
  have "(\<lambda>r. if r \<in> set rs then 0 else cpu_v (s\<lparr>cpu_v := (cpu_v s)(a := 0), cpu_pc := cpu_pc s + 4\<rparr>) r) =
      (\<lambda>r. if r \<in> set (a # rs) then 0 else cpu_v s r)"
    by (rule ext) simp
  then show ?case by (simp add: Cons algebra_simps)
qed

lemma eret_to_el1_blocks:
  "eret_to_el1 = map (\<lambda>r. MovImm r 0) [4..<31] @ map (\<lambda>r. Movi2d r 0) [0..<32] @ [Eret]"
  by (simp add: eret_to_el1_def upt_rec)

lemma run_eret_to_el1:
  obtains s' where "run call eret_to_el1 s = (ExceptionReturn, s')"
    and "\<And>r. cpu_x s' r = (if 4 \<le> r \<and> r \<le> 30 then 0 else cpu_x s r)"
    and "\<And>r. cpu_v s' r = (if r < 32 then 0 else cpu_v s r)"
    and "cpu_sp s' = cpu_sp s" and "cpu_mem s' = cpu_mem s" and "cpu_events s' = cpu_events s"
  unfolding eret_to_el1_blocks run_clear_x run_clear_v set_upt by auto

section \<open>Properties\<close>

text \<open>
  C25: Entering the guest leaks nothing through the register file: \<open>eret_to_el1\<close> ends in the
  exception return with \<open>x0\<close>--\<open>x3\<close> as passed, \<open>x4\<close>--\<open>x30\<close> zero and all 32 vector registers zero,
  and touches neither the stack pointer nor memory.
\<close>

theorem eret_to_el1_clears_registers:
  "\<exists>s'. run call eret_to_el1 s = (ExceptionReturn, s') \<and>
     (\<forall>r. cpu_x s' r = (if 4 \<le> r \<and> r \<le> 30 then 0 else cpu_x s r)) \<and>
     (\<forall>r. cpu_v s' r = (if r < 32 then 0 else cpu_v s r)) \<and>
     cpu_sp s' = cpu_sp s \<and> cpu_mem s' = cpu_mem s"
  by (rule run_eret_to_el1 [of call s]) blast

text \<open>
  The handler called by the wrapper follows the procedure call standard: it restores the stack
  pointer and does not touch the caller's stack outside the frame it was given. The slot that
  matters is the one where the wrapper keeps its return address, right after the ten words.
\<close>

definition handler_keeps_caller_frame :: "(cpu \<Rightarrow> cpu) \<Rightarrow> bool" where
  "handler_keeps_caller_frame h \<longleftrightarrow>
     (\<forall>s. cpu_sp (h s) = cpu_sp s \<and> cpu_mem (h s) (cpu_sp s + 80) = cpu_mem s (cpu_sp s + 80))"

text \<open>The ten doublewords at an address, as the code's \<open>NonVolatileRegisters\<close>.\<close>

definition nonvolatile_at :: "(u64 \<Rightarrow> u64) \<Rightarrow> u64 \<Rightarrow> NonVolatileRegisters" where
  "nonvolatile_at mem p = \<lparr>nv_registers = map (\<lambda>i. mem (p + 8 * of_nat i)) [0..<10]\<rparr>"

lemma nonvolatile_at_eq:
  "nv_registers (nonvolatile_at mem p) =
     [mem p, mem (p + 8), mem (p + 16), mem (p + 24), mem (p + 32), mem (p + 40), mem (p + 48),
      mem (p + 56), mem (p + 64), mem (p + 72)]"
  by (simp add: nonvolatile_at_def upt_rec)

text \<open>
  C26: The trap wrapper hands the handler a frame with the guest's \<open>x19\<close>--\<open>x28\<close> and, when the
  handler returns, loads \<open>x19\<close>--\<open>x28\<close> from that frame as the handler left it, so an emulated
  load into any of them reaches the guest. The pointer to the volatile frame in \<open>x0\<close> is passed
  on, the stack is balanced, and the wrapper returns to its caller.
\<close>

theorem sync_lower_passes_nonvolatile_frame:
  assumes "handler_keeps_caller_frame h"
  shows "\<exists>s1 s'. run (\<lambda>_. h) sync_lower s = (JumpTo (cpu_x s 30), s') \<and>
     cpu_x s1 0 = cpu_x s 0 \<and>
     nv_registers (nonvolatile_at (cpu_mem s1) (cpu_x s1 1)) = map (cpu_x s) [19..<29] \<and>
     map (cpu_x s') [19..<29] = nv_registers (nonvolatile_at (cpu_mem (h s1)) (cpu_x s1 1)) \<and>
     cpu_sp s' = cpu_sp s \<and> cpu_x s' 30 = cpu_x s 30"
proof -
  define p where "p = cpu_sp s - 96"
  define s1 where "s1 = s\<lparr>cpu_sp := p,
    cpu_mem := (cpu_mem s)(p := cpu_x s 19, p + 8 := cpu_x s 20, p + 16 := cpu_x s 21,
      p + 24 := cpu_x s 22, p + 32 := cpu_x s 23, p + 40 := cpu_x s 24, p + 48 := cpu_x s 25,
      p + 56 := cpu_x s 26, p + 64 := cpu_x s 27, p + 72 := cpu_x s 28, p + 80 := cpu_x s 30),
    cpu_pc := cpu_pc s + 32, cpu_x := (cpu_x s)(1 := p, 30 := cpu_pc s + 36)\<rparr>"
  have "cpu_sp s1 = p" "cpu_mem s1 (p + 80) = cpu_x s 30" by (simp_all add: s1_def)
  then have h: "cpu_sp (h s1) = p" "cpu_mem (h s1) (p + 80) = cpu_x s 30"
    using assms by (metis handler_keeps_caller_frame_def)+
  have entry: "run (\<lambda>_. h) sync_lower s =
      run (\<lambda>_. h) (drop 9 sync_lower) ((h s1)\<lparr>cpu_pc := cpu_pc s + 36\<rparr>)"
    by (simp add: sync_lower_def s1_def p_def algebra_simps)
  obtain s' where run': "run (\<lambda>_. h) sync_lower s = (JumpTo (cpu_x s 30), s')"
    and x': "map (cpu_x s') [19..<29] = nv_registers (nonvolatile_at (cpu_mem (h s1)) p)"
    and rest: "cpu_sp s' = p + 96" "cpu_x s' 30 = cpu_x s 30"
    unfolding entry by (simp add: sync_lower_def h nonvolatile_at_eq upt_rec algebra_simps)
  have "nv_registers (nonvolatile_at (cpu_mem s1) p) = map (cpu_x s) [19..<29]"
    by (simp add: nonvolatile_at_eq s1_def upt_rec)
  moreover have "cpu_x s1 0 = cpu_x s 0" "cpu_x s1 1 = p" by (simp_all add: s1_def)
  ultimately show ?thesis using run' x' rest by (intro exI [of _ s1] exI [of _ s']) (simp add: p_def)
qed

theorem sync_lower_passes_nonvolatile_frame_witness:
  "\<exists>s'. run (\<lambda>_ s. s) sync_lower
     \<lparr>cpu_x = of_nat, cpu_v = (\<lambda>_. 0), cpu_sp = 0x1000, cpu_pc = 0, cpu_mem = (\<lambda>_. 0), cpu_sctlr_el2 = 0,
      cpu_events = []\<rparr> = (JumpTo 30, s') \<and> cpu_sp s' = 0x1000"
  using sync_lower_passes_nonvolatile_frame [of "\<lambda>s. s" "\<lparr>cpu_x = of_nat, cpu_v = (\<lambda>_. 0), cpu_sp = 0x1000,
      cpu_pc = 0, cpu_mem = (\<lambda>_. 0), cpu_sctlr_el2 = 0, cpu_events = []\<rparr>"]
  by (auto simp: handler_keeps_caller_frame_def)

text \<open>
  The compiled \<open>disable_mmu_and_caches_impl\<close>: it keeps the callee-saved registers, the stack
  pointer and \<open>SCTLR_EL2\<close>, and returns its result in \<open>x0\<close>.
\<close>

definition compiled_impl :: "sctlr_el2_bits \<Rightarrow> (cpu \<Rightarrow> cpu) \<Rightarrow> bool" where
  "compiled_impl B f \<longleftrightarrow>
     (\<forall>s. (\<forall>r. 19 \<le> r \<and> r \<le> 29 \<longrightarrow> cpu_x (f s) r = cpu_x s r) \<and> cpu_sp (f s) = cpu_sp s \<and>
          cpu_sctlr_el2 (f s) = cpu_sctlr_el2 s \<and> cpu_events (f s) = cpu_events s \<and>
          cpu_x (f s) 0 = disable_mmu_and_caches_impl B (cpu_sctlr_el2 s))"

text \<open>The architecture's positions of the M, C and I bits.\<close>

definition sctlr_el2_bits_ok :: "sctlr_el2_bits \<Rightarrow> bool" where
  "sctlr_el2_bits_ok B \<longleftrightarrow>
     SctlrEl2_M B = push_bit 0 1 \<and> SctlrEl2_C B = push_bit 2 1 \<and> SctlrEl2_I B = push_bit 12 1"

lemma compiled_implD:
  assumes "compiled_impl B f"
  shows "19 \<le> r \<Longrightarrow> r \<le> 29 \<Longrightarrow> cpu_x (f s) r = cpu_x s r" and "cpu_sp (f s) = cpu_sp s"
    and "cpu_events (f s) = cpu_events s"
    and "cpu_x (f s) 0 = disable_mmu_and_caches_impl B (cpu_sctlr_el2 s)"
  using assms by (auto simp: compiled_impl_def)

lemma bit_disable_mmu_and_caches_impl:
  assumes "sctlr_el2_bits_ok B"
  shows "bit (disable_mmu_and_caches_impl B v) n \<longleftrightarrow> bit v n \<and> n \<notin> {0, 2, 12}"
  using assms bit_imp_le_length [of v n]
  by (auto simp only: disable_mmu_and_caches_impl_def sctlr_el2_bits_ok_def Let_def bit_and_iff bit_not_iff
      bit_push_bit_iff bit_1_iff possible_bit_word insert_iff empty_iff)

lemma run_disable_mmu_and_caches:
  assumes "compiled_impl B f"
  shows "\<exists>s'. run (\<lambda>_. f) disable_mmu_and_caches s = (JumpTo (cpu_x s 30), s') \<and>
     (\<forall>r. 19 \<le> r \<and> r \<le> 26 \<or> r = 29 \<longrightarrow> cpu_x s' r = cpu_x s r) \<and> cpu_sp s' = cpu_sp s \<and>
     cpu_sctlr_el2 s' = disable_mmu_and_caches_impl B (cpu_sctlr_el2 s) \<and>
     cpu_events s' = cpu_events s @ [Tlbi_alle2is, Dsb_sy, Msr_sctlr_el2 (cpu_sctlr_el2 s'), Isb, Ic_iallu, Isb]"
  by (simp add: disable_mmu_and_caches_def compiled_implD [OF assms])

lemma run_payload_el2_jump:
  assumes "compiled_impl B f" and "sctlr_el2_bits_ok B"
  shows "fst (run (\<lambda>_. f) disable_mmu_and_caches c) = JumpTo (cpu_x c 30) \<and>
    (\<exists>s'. run (\<lambda>_ s. snd (run (\<lambda>_. f) disable_mmu_and_caches s)) run_payload_el2 s = (JumpTo (cpu_x s 0), s') \<and>
      cpu_x s' 0 = cpu_x s 1 \<and> cpu_x s' 1 = cpu_x s 2 \<and> cpu_x s' 2 = cpu_x s 3 \<and> cpu_x s' 3 = cpu_x s 4 \<and>
      cpu_sp s' = cpu_sp s \<and>
      (\<forall>n. bit (cpu_sctlr_el2 s') n \<longleftrightarrow> bit (cpu_sctlr_el2 s) n \<and> n \<notin> {0, 2, 12}) \<and>
      cpu_events s' = cpu_events s @
        [Tlbi_alle2is, Dsb_sy, Msr_sctlr_el2 (cpu_sctlr_el2 s'), Isb, Ic_iallu, Isb])"
proof -
  define s1 where "s1 = s\<lparr>cpu_pc := cpu_pc s + 20, cpu_x := (cpu_x s)(19 := cpu_x s 0, 20 := cpu_x s 1,
    21 := cpu_x s 2, 22 := cpu_x s 3, 23 := cpu_x s 4, 30 := cpu_pc s + 24)\<rparr>"
  obtain s2 where s2: "run (\<lambda>_. f) disable_mmu_and_caches s1 = (JumpTo (cpu_x s1 30), s2)"
    and x: "\<And>r. 19 \<le> r \<and> r \<le> 26 \<or> r = 29 \<Longrightarrow> cpu_x s2 r = cpu_x s1 r"
    and rest: "cpu_sp s2 = cpu_sp s1" "cpu_sctlr_el2 s2 = disable_mmu_and_caches_impl B (cpu_sctlr_el2 s1)"
      "cpu_events s2 = cpu_events s1 @ [Tlbi_alle2is, Dsb_sy, Msr_sctlr_el2 (cpu_sctlr_el2 s2), Isb, Ic_iallu, Isb]"
    using run_disable_mmu_and_caches [OF assms(1), of s1] by blast
  have saved: "cpu_x s2 19 = cpu_x s 0" "cpu_x s2 20 = cpu_x s 1" "cpu_x s2 21 = cpu_x s 2"
      "cpu_x s2 22 = cpu_x s 3" "cpu_x s2 23 = cpu_x s 4"
    by (simp_all add: x) (simp_all add: s1_def)
  have "run (\<lambda>_ s. snd (run (\<lambda>_. f) disable_mmu_and_caches s)) run_payload_el2 s =
      run (\<lambda>_ s. snd (run (\<lambda>_. f) disable_mmu_and_caches s)) (drop 6 run_payload_el2) (s2\<lparr>cpu_pc := cpu_pc s + 24\<rparr>)"
    using s2 by (simp add: run_payload_el2_def s1_def algebra_simps)
  moreover have "fst (run (\<lambda>_. f) disable_mmu_and_caches c) = JumpTo (cpu_x c 30)"
    using run_disable_mmu_and_caches [OF assms(1), of c] by auto
  moreover have "cpu_sp s1 = cpu_sp s" "cpu_sctlr_el2 s1 = cpu_sctlr_el2 s" "cpu_events s1 = cpu_events s"
    by (simp_all add: s1_def)
  ultimately show ?thesis
    using saved rest by (simp add: run_payload_el2_def bit_disable_mmu_and_caches_impl [OF assms(2)])
qed

text \<open>
  C27: Booting the payload at EL2 jumps to the entry point with the four arguments in
  \<open>x0\<close>--\<open>x3\<close>, the stack pointer as it was, and \<open>SCTLR_EL2\<close> unchanged except that the MMU and
  both caches are off. The TLB invalidation completes before the MMU is switched off, and the
  instruction cache is invalidated after it. \<open>disable_mmu_and_caches\<close> returns to its caller.
\<close>

theorem run_payload_el2_hands_over:
  assumes "compiled_impl B f" and "sctlr_el2_bits_ok B"
  shows "fst (run (\<lambda>_. f) disable_mmu_and_caches c) = JumpTo (cpu_x c 30) \<and>
    (\<exists>s'. run (\<lambda>_ s. snd (run (\<lambda>_. f) disable_mmu_and_caches s)) run_payload_el2 s = (JumpTo (cpu_x s 0), s') \<and>
      cpu_x s' 0 = cpu_x s 1 \<and> cpu_x s' 1 = cpu_x s 2 \<and> cpu_x s' 2 = cpu_x s 3 \<and> cpu_x s' 3 = cpu_x s 4 \<and>
      cpu_sp s' = cpu_sp s \<and>
      (\<forall>n. bit (cpu_sctlr_el2 s') n \<longleftrightarrow> bit (cpu_sctlr_el2 s) n \<and> n \<notin> {0, 2, 12}) \<and>
      cpu_events s' = cpu_events s @
        [Tlbi_alle2is, Dsb_sy, Msr_sctlr_el2 (cpu_sctlr_el2 s'), Isb, Ic_iallu, Isb])"
  by (rule run_payload_el2_jump [OF assms])

theorem run_payload_el2_hands_over_witness:
  "\<exists>s'. run (\<lambda>_ s. snd (run (\<lambda>_ s. s\<lparr>cpu_x := (cpu_x s)(0 := cpu_sctlr_el2 s AND NOT 0x1005)\<rparr>)
       disable_mmu_and_caches s)) run_payload_el2
     \<lparr>cpu_x = (\<lambda>r. of_nat (16 * r) + 0x40200000), cpu_v = (\<lambda>_. 0), cpu_sp = 0, cpu_pc = 0, cpu_mem = (\<lambda>_. 0),
      cpu_sctlr_el2 = 0x30c5183f, cpu_events = []\<rparr> = (JumpTo 0x40200000, s') \<and>
     cpu_x s' 0 = 0x40200010"
proof -
  let ?B = "\<lparr>SctlrEl2_M = 1, SctlrEl2_C = 4, SctlrEl2_I = 0x1000\<rparr>"
  let ?f = "\<lambda>s :: cpu. s\<lparr>cpu_x := (cpu_x s)(0 := cpu_sctlr_el2 s AND NOT 0x1005)\<rparr>"
  have "disable_mmu_and_caches_impl ?B v = v AND NOT 0x1005" for v
  proof -
    have "v AND NOT 1 AND NOT 4 AND NOT 0x1000 = v AND (NOT 1 AND NOT 4 AND NOT 0x1000 :: u64)"
      by (simp only: and.assoc)
    then show ?thesis by (simp add: disable_mmu_and_caches_impl_def and.assoc)
  qed
  then have "compiled_impl ?B ?f" by (simp add: compiled_impl_def)
  moreover have "sctlr_el2_bits_ok ?B" by (simp add: sctlr_el2_bits_ok_def)
  ultimately show ?thesis
    using run_payload_el2_hands_over [of ?B ?f undefined "\<lparr>cpu_x = (\<lambda>r. of_nat (16 * r) + 0x40200000),
      cpu_v = (\<lambda>_. 0), cpu_sp = 0, cpu_pc = 0, cpu_mem = (\<lambda>_. 0), cpu_sctlr_el2 = 0x30c5183f, cpu_events = []\<rparr>"]
    by auto
qed

end
