(* ===== verification/Sysregs.thy ===== *)
theory Sysregs
  imports Assembly
begin

text \<open>
  The registers of one core that the hypervisor reads and writes, and the fields of the system
  registers. The latter belong to the crate \<open>arm_sysregs\<close> and are a parameter; the hypothesis
  \<open>arm_sysregs_ok\<close> says that they are where the architecture puts them.
\<close>

section \<open>The core and its system registers\<close>

text \<open>The general registers and the maintenance log are the \<open>cpu\<close> of the assembly.\<close>

record core =
  cr_cpu :: cpu
  cr_mpidr_el1 :: u64
  cr_esr_el2 :: u64
  cr_far_el2 :: u64
  cr_hpfar_el2 :: u64
  cr_hcr_el2 :: u64
  cr_cntvoff_el2 :: u64
  cr_cnthctl_el2 :: u64
  cr_icc_sre_el2 :: u64
  cr_spsr_el2 :: u64
  cr_elr_el2 :: u64
  cr_vtcr_el2 :: u64
  cr_vttbr_el2 :: u64
  cr_ttbr0_el1 :: u64
  cr_tcr_el1 :: u64
  cr_vbar_el1 :: u64
  cr_mair_el1 :: u64
  cr_sp_el1 :: u64
  cr_sctlr_el1 :: u64
  cr_elr_el1 :: u64
  cr_spsr_el1 :: u64
  cr_far_el1 :: u64
  cr_esr_el1 :: u64

text \<open>Bits and fields of the registers, as the crate \<open>arm_sysregs\<close> provides them.\<close>

record arm_sysregs =
  HcrEl2_RW :: u64
  HcrEl2_TSC :: u64
  HcrEl2_VM :: u64
  HcrEl2_IMO :: u64
  CnthctlEl2_EL0PCTEN :: u64
  CnthctlEl2_EL1PCEN :: u64
  IccSreEl2_SRE :: u64
  IccSreEl2_DFB :: u64
  IccSreEl2_DIB :: u64
  IccSreEl2_ENABLE :: u64
  SpsrEl2_D :: u64
  SpsrEl2_A :: u64
  SpsrEl2_I :: u64
  SpsrEl2_F :: u64
  SpsrEl2_set_m_3_0 :: "u64 \<Rightarrow> u8 \<Rightarrow> u64"
  ElrEl2_set_addr :: "u64 \<Rightarrow> u64 \<Rightarrow> u64"
  SctlrEl1_EOS :: u64
  SctlrEl1_TSCXT :: u64
  SctlrEl1_EIS :: u64
  SctlrEl1_SPAN :: u64
  SctlrEl1_NTLSMD :: u64
  SctlrEl1_LSMAOE :: u64
  VtcrEl2_set_ps :: "u64 \<Rightarrow> u8 \<Rightarrow> u64"
  VtcrEl2_set_tg0 :: "u64 \<Rightarrow> u8 \<Rightarrow> u64"
  VtcrEl2_set_sh0 :: "u64 \<Rightarrow> u8 \<Rightarrow> u64"
  VtcrEl2_set_orgn0 :: "u64 \<Rightarrow> u8 \<Rightarrow> u64"
  VtcrEl2_set_irgn0 :: "u64 \<Rightarrow> u8 \<Rightarrow> u64"
  VtcrEl2_set_sl0 :: "u64 \<Rightarrow> u8 \<Rightarrow> u64"
  VtcrEl2_set_t0sz :: "u64 \<Rightarrow> u8 \<Rightarrow> u64"
  EsrEl2_ec :: "u64 \<Rightarrow> u8"
  EsrEl2_iss :: "u64 \<Rightarrow> u32"
  HpfarEl2_fipa :: "u64 \<Rightarrow> u64"
  FarEl2_va :: "u64 \<Rightarrow> u64"
  EsrEl1_ec :: "u64 \<Rightarrow> u8"
  EsrEl1_set_ec :: "u64 \<Rightarrow> u8 \<Rightarrow> u64"
  SpsrEl1_D :: u64
  SpsrEl1_A :: u64
  SpsrEl1_I :: u64
  SpsrEl1_F :: u64
  SpsrEl1_set_m_3_0 :: "u64 \<Rightarrow> u8 \<Rightarrow> u64"

section \<open>The architecture\<close>

text \<open>Reading and writing \<open>n\<close> bits from bit \<open>p\<close> on.\<close>

definition get_field :: "nat \<Rightarrow> nat \<Rightarrow> u64 \<Rightarrow> u64" where
  "get_field p n v = take_bit n (drop_bit p v)"

definition set_field :: "nat \<Rightarrow> nat \<Rightarrow> u64 \<Rightarrow> u64 \<Rightarrow> u64" where
  "set_field p n v x = (v AND NOT (push_bit p (mask n))) OR push_bit p (take_bit n x)"

definition arm_sysregs_ok :: "arm_sysregs \<Rightarrow> bool" where
  "arm_sysregs_ok S \<longleftrightarrow>
     (HcrEl2_VM S = push_bit 0 1 \<and> HcrEl2_IMO S = push_bit 4 1 \<and> HcrEl2_TSC S = push_bit 19 1 \<and>
      HcrEl2_RW S = push_bit 31 1) \<and>
     (CnthctlEl2_EL0PCTEN S = push_bit 0 1 \<and> CnthctlEl2_EL1PCEN S = push_bit 1 1) \<and>
     (IccSreEl2_SRE S = push_bit 0 1 \<and> IccSreEl2_DFB S = push_bit 1 1 \<and> IccSreEl2_DIB S = push_bit 2 1 \<and>
      IccSreEl2_ENABLE S = push_bit 3 1) \<and>
     (SpsrEl2_F S = push_bit 6 1 \<and> SpsrEl2_I S = push_bit 7 1 \<and> SpsrEl2_A S = push_bit 8 1 \<and>
      SpsrEl2_D S = push_bit 9 1 \<and> SpsrEl2_set_m_3_0 S = (\<lambda>v x. set_field 0 4 v (ucast x))) \<and>
     ElrEl2_set_addr S = (\<lambda>v x. x) \<and>
     (SctlrEl1_EOS S = push_bit 11 1 \<and> SctlrEl1_TSCXT S = push_bit 20 1 \<and> SctlrEl1_EIS S = push_bit 22 1 \<and>
      SctlrEl1_SPAN S = push_bit 23 1 \<and> SctlrEl1_NTLSMD S = push_bit 28 1 \<and> SctlrEl1_LSMAOE S = push_bit 29 1) \<and>
     (VtcrEl2_set_t0sz S = (\<lambda>v x. set_field 0 6 v (ucast x)) \<and>
      VtcrEl2_set_sl0 S = (\<lambda>v x. set_field 6 2 v (ucast x)) \<and>
      VtcrEl2_set_irgn0 S = (\<lambda>v x. set_field 8 2 v (ucast x)) \<and>
      VtcrEl2_set_orgn0 S = (\<lambda>v x. set_field 10 2 v (ucast x)) \<and>
      VtcrEl2_set_sh0 S = (\<lambda>v x. set_field 12 2 v (ucast x)) \<and>
      VtcrEl2_set_tg0 S = (\<lambda>v x. set_field 14 2 v (ucast x)) \<and>
      VtcrEl2_set_ps S = (\<lambda>v x. set_field 16 3 v (ucast x))) \<and>
     (EsrEl2_ec S = (\<lambda>v. ucast (get_field 26 6 v)) \<and> EsrEl2_iss S = (\<lambda>v. ucast (get_field 0 25 v)) \<and>
      EsrEl1_ec S = (\<lambda>v. ucast (get_field 26 6 v)) \<and>
      EsrEl1_set_ec S = (\<lambda>v x. set_field 26 6 v (ucast x))) \<and>
     (HpfarEl2_fipa S = get_field 4 40 \<and> FarEl2_va S = (\<lambda>v. v)) \<and>
     (SpsrEl1_F S = push_bit 6 1 \<and> SpsrEl1_I S = push_bit 7 1 \<and> SpsrEl1_A S = push_bit 8 1 \<and>
      SpsrEl1_D S = push_bit 9 1 \<and> SpsrEl1_set_m_3_0 S = (\<lambda>v x. set_field 0 4 v (ucast x)))"

text \<open>The architecture's registers, for the examples.\<close>

definition armv8_sysregs :: arm_sysregs where
  "armv8_sysregs =
     \<lparr>HcrEl2_RW = 0x80000000, HcrEl2_TSC = 0x80000, HcrEl2_VM = 1, HcrEl2_IMO = 0x10,
      CnthctlEl2_EL0PCTEN = 1, CnthctlEl2_EL1PCEN = 2,
      IccSreEl2_SRE = 1, IccSreEl2_DFB = 2, IccSreEl2_DIB = 4, IccSreEl2_ENABLE = 8,
      SpsrEl2_D = 0x200, SpsrEl2_A = 0x100, SpsrEl2_I = 0x80, SpsrEl2_F = 0x40,
      SpsrEl2_set_m_3_0 = (\<lambda>v x. set_field 0 4 v (ucast x)), ElrEl2_set_addr = (\<lambda>v x. x),
      SctlrEl1_EOS = 0x800, SctlrEl1_TSCXT = 0x100000, SctlrEl1_EIS = 0x400000, SctlrEl1_SPAN = 0x800000,
      SctlrEl1_NTLSMD = 0x10000000, SctlrEl1_LSMAOE = 0x20000000,
      VtcrEl2_set_ps = (\<lambda>v x. set_field 16 3 v (ucast x)), VtcrEl2_set_tg0 = (\<lambda>v x. set_field 14 2 v (ucast x)),
      VtcrEl2_set_sh0 = (\<lambda>v x. set_field 12 2 v (ucast x)), VtcrEl2_set_orgn0 = (\<lambda>v x. set_field 10 2 v (ucast x)),
      VtcrEl2_set_irgn0 = (\<lambda>v x. set_field 8 2 v (ucast x)), VtcrEl2_set_sl0 = (\<lambda>v x. set_field 6 2 v (ucast x)),
      VtcrEl2_set_t0sz = (\<lambda>v x. set_field 0 6 v (ucast x)),
      EsrEl2_ec = (\<lambda>v. ucast (get_field 26 6 v)), EsrEl2_iss = (\<lambda>v. ucast (get_field 0 25 v)),
      HpfarEl2_fipa = get_field 4 40, FarEl2_va = (\<lambda>v. v),
      EsrEl1_ec = (\<lambda>v. ucast (get_field 26 6 v)), EsrEl1_set_ec = (\<lambda>v x. set_field 26 6 v (ucast x)),
      SpsrEl1_D = 0x200, SpsrEl1_A = 0x100, SpsrEl1_I = 0x80, SpsrEl1_F = 0x40,
      SpsrEl1_set_m_3_0 = (\<lambda>v x. set_field 0 4 v (ucast x))\<rparr>"

lemma armv8_sysregs_ok: "arm_sysregs_ok armv8_sysregs"
  by (simp add: arm_sysregs_ok_def armv8_sysregs_def)

end
