(* ===== verification/Hvc_Response.thy ===== *)
theory Hvc_Response
  imports Exceptions
begin

text \<open>
  Results of hypervisor calls and how they are written back to the guest's registers
  (\<open>src/src/hvc_response.rs\<close>). The error type of the \<open>smccc\<close> crate is a parameter: the
  record \<open>smccc_error\<close> holds the conversions the code calls.
\<close>

section \<open>Definitions\<close>

datatype HvcResponse = Success "u64 list" | SuccessLarge "u64 list"

datatype 'e HvcResult = Unhandled | Handled "'e + HvcResponse"

text \<open>The arrays \<open>[u64; 4]\<close> and \<open>[u64; 18]\<close>.\<close>

fun response_wf :: "HvcResponse \<Rightarrow> bool" where
  "response_wf (Success vs) = (length vs = 4)"
| "response_wf (SuccessLarge vs) = (length vs = 18)"

definition response_from_u64 :: "u64 \<Rightarrow> HvcResponse" where
  "response_from_u64 value = Success [value, 0, 0, 0]"

definition response_from_4 :: "u64 list \<Rightarrow> HvcResponse" where
  "response_from_4 value = Success value"

definition response_from_18 :: "u64 list \<Rightarrow> HvcResponse" where
  "response_from_18 value = SuccessLarge value"

record 'e smccc_error =
  NotSupported :: 'e
  error_to_i32 :: "'e \<Rightarrow> i32"
  error_from_i32 :: "i32 \<Rightarrow> 'e"

text \<open>
  The SMC calling convention fixes \<open>NOT_SUPPORTED\<close> to -1, and the crate's conversions keep
  every code.
\<close>

definition smccc_error_ok :: "'e smccc_error \<Rightarrow> bool" where
  "smccc_error_ok E \<longleftrightarrow> error_to_i32 E (NotSupported E) = -1 \<and> (\<forall>c. error_to_i32 E (error_from_i32 E c) = c)"

definition error_to_u64 :: "'e smccc_error \<Rightarrow> 'e \<Rightarrow> u64" where
  "error_to_u64 E error = scast (error_to_i32 E error)"

definition write_response_registers :: "GuestRegisterState \<Rightarrow> u64 list \<Rightarrow> GuestRegisterState" where
  "write_response_registers register_state results =
     fold (\<lambda>(index, value) register_state. snd (write_gpr register_state (of_nat index) value))
       (enumerate 0 results) register_state"

fun modify_register_state :: "'e smccc_error \<Rightarrow> 'e HvcResult \<Rightarrow> GuestRegisterState \<Rightarrow> GuestRegisterState" where
  "modify_register_state E (Handled (Inr (Success results))) register_state =
     write_response_registers register_state results"
| "modify_register_state E (Handled (Inr (SuccessLarge results))) register_state =
     write_response_registers register_state results"
| "modify_register_state E (Handled (Inl error)) register_state =
     snd (write_gpr register_state 0 (error_to_u64 E error))"
| "modify_register_state E Unhandled register_state =
     snd (write_gpr register_state 0 (error_to_u64 E (NotSupported E)))"

section \<open>Lemmas\<close>

fun hvc_result_wf :: "'e HvcResult \<Rightarrow> bool" where
  "hvc_result_wf (Handled (Inr r)) = response_wf r"
| "hvc_result_wf _ = True"

text \<open>The values a result puts in \<open>x0\<close>, \<open>x1\<close>, ..., the other registers being preserved.\<close>

fun returned_values :: "'e smccc_error \<Rightarrow> 'e HvcResult \<Rightarrow> u64 list" where
  "returned_values E (Handled (Inr (Success vs))) = vs"
| "returned_values E (Handled (Inr (SuccessLarge vs))) = vs"
| "returned_values E (Handled (Inl e)) = [error_to_u64 E e]"
| "returned_values E Unhandled = [error_to_u64 E (NotSupported E)]"

lemma returned_values_length: "hvc_result_wf r \<Longrightarrow> length (returned_values E r) \<le> 18"
  by (cases "(E, r)" rule: returned_values.cases) auto

lemma modify_register_state_eq:
  "modify_register_state E r rs = write_response_registers rs (returned_values E r)"
  by (cases "(E, r)" rule: returned_values.cases) (simp_all add: write_response_registers_def)

lemma write_response_registers_keeps:
  "guest_regs_wf rs \<Longrightarrow> guest_regs_wf (write_response_registers rs vs)"
  "exception_return (write_response_registers rs vs) = exception_return rs"
  unfolding write_response_registers_def by (rule guest.wr_block_valid, assumption) (rule guest.wr_block_rest)

lemma read_write_response_registers:
  "guest_regs_wf rs \<Longrightarrow> length vs \<le> 18 \<Longrightarrow>
   read_gpr (write_response_registers rs vs) j = (if unat j < length vs then Some (vs ! unat j) else read_gpr rs j)"
  unfolding write_response_registers_def by (subst guest.rd_wr_block) auto

lemma read_modify_register_state:
  assumes "guest_regs_wf rs" and "hvc_result_wf r"
  shows "read_gpr (modify_register_state E r rs) j =
     (if unat j < length (returned_values E r) then Some (returned_values E r ! unat j) else read_gpr rs j)"
  using assms by (simp add: modify_register_state_eq read_write_response_registers returned_values_length)

lemma modify_register_state_keeps:
  "guest_regs_wf rs \<Longrightarrow> guest_regs_wf (modify_register_state E r rs)"
  "exception_return (modify_register_state E r rs) = exception_return rs"
  by (simp_all add: modify_register_state_eq write_response_registers_keeps)

section \<open>Properties\<close>

text \<open>An error type for the examples: the code itself.\<close>

definition code_error :: "i32 smccc_error" where
  "code_error = \<lparr>NotSupported = -1, error_to_i32 = id, error_from_i32 = id\<rparr>"

lemma code_error_ok: "smccc_error_ok code_error"
  by (simp add: smccc_error_ok_def code_error_def)

text \<open>
  C28: Writing back a call's result sets exactly the documented registers. A short response
  sets \<open>x0\<close>--\<open>x3\<close> and preserves \<open>x4\<close>--\<open>x17\<close>, a long one sets \<open>x0\<close>--\<open>x17\<close>, an error sets only
  \<open>x0\<close>, to its code sign-extended to 64 bits; an unhandled call sets \<open>x0\<close> to -1. \<open>x18\<close>--\<open>x30\<close>
  and the return state are kept in every case.
\<close>

theorem hvc_result_write_back:
  assumes "smccc_error_ok E" and "guest_regs_wf rs" and "hvc_result_wf r"
  shows "exception_return (modify_register_state E r rs) = exception_return rs \<and>
     read_gpr (modify_register_state E r rs) j =
     (case r of
        Handled (Inr (Success vs)) \<Rightarrow> if unat j < 4 then Some (vs ! unat j) else read_gpr rs j
      | Handled (Inr (SuccessLarge vs)) \<Rightarrow> if unat j < 18 then Some (vs ! unat j) else read_gpr rs j
      | Handled (Inl e) \<Rightarrow> if j = 0 then Some (word_of_int (sint (error_to_i32 E e))) else read_gpr rs j
      | Unhandled \<Rightarrow> if j = 0 then Some (-1) else read_gpr rs j)"
proof -
  have "unat j < Suc 0 \<longleftrightarrow> j = 0" by (simp add: word_unat_eq_iff)
  then show ?thesis
    using assms
    by (auto simp: read_modify_register_state error_to_u64_def smccc_error_ok_def modify_register_state_keeps
        split: HvcResult.split sum.split HvcResponse.split)
qed

theorem hvc_result_write_back_witness:
  "read_gpr (modify_register_state code_error (Handled (Inl (-3))) numbered_regs) 0 = Some 0xfffffffffffffffd \<and>
   read_gpr (modify_register_state code_error Unhandled numbered_regs) 1 = Some 101"
  using hvc_result_write_back [OF code_error_ok numbered_regs_wf, of "Handled (Inl (-3))" 0]
    hvc_result_write_back [OF code_error_ok numbered_regs_wf, of Unhandled 1]
  by (simp add: code_error_def read_gpr_def numbered_regs_def)

end
