(* ===== verification/Slices.thy ===== *)
theory Slices
  imports Prelude
begin

text \<open>
  The two searches of \<open>core::slice\<close> that the stage-2 registry calls:
  \<open>binary_search_by\<close>, with the standard library's branch-free loop, and \<open>partition_point\<close>,
  which is defined by it. The lemmas give the library's contract: on a slice on which the
  comparator is monotone, the search returns an index the comparator calls \<open>Equal\<close> exactly
  when there is one, and the insertion point otherwise.
\<close>

section \<open>Orderings\<close>

datatype ordering = Less | Equal | Greater

instantiation ordering :: linorder
begin

fun ordering_rank :: "ordering \<Rightarrow> nat" where
  "ordering_rank Less = 0"
| "ordering_rank Equal = 1"
| "ordering_rank Greater = 2"

definition less_eq_ordering :: "ordering \<Rightarrow> ordering \<Rightarrow> bool" where
  "less_eq_ordering a b = (ordering_rank a \<le> ordering_rank b)"

definition less_ordering :: "ordering \<Rightarrow> ordering \<Rightarrow> bool" where
  "less_ordering a b = (ordering_rank a < ordering_rank b)"

instance
proof
  fix a b c :: ordering
  show "(a < b) = (a \<le> b \<and> \<not> b \<le> a)" by (auto simp: less_eq_ordering_def less_ordering_def)
  show "a \<le> a" by (simp add: less_eq_ordering_def)
  show "a \<le> b \<Longrightarrow> b \<le> c \<Longrightarrow> a \<le> c" by (simp add: less_eq_ordering_def)
  show "a \<le> b \<Longrightarrow> b \<le> a \<Longrightarrow> a = b"
    by (cases a; cases b) (simp_all add: less_eq_ordering_def)
  show "a \<le> b \<or> b \<le> a" by (auto simp: less_eq_ordering_def)
qed

end

lemma le_Less_iff [simp]: "a \<le> Less \<longleftrightarrow> a = Less"
  by (cases a) (simp_all add: less_eq_ordering_def)

lemma Greater_le_iff [simp]: "Greater \<le> a \<longleftrightarrow> a = Greater"
  by (cases a) (simp_all add: less_eq_ordering_def)

lemma Less_le [simp]: "Less \<le> a"
  by (simp add: less_eq_ordering_def)

lemma le_Greater [simp]: "a \<le> Greater"
  by (cases a) (simp_all add: less_eq_ordering_def)

section \<open>\<open>binary_search_by\<close>\<close>

function bs_loop :: "('a \<Rightarrow> ordering) \<Rightarrow> 'a list \<Rightarrow> nat \<Rightarrow> nat \<Rightarrow> nat" where
  "bs_loop f xs base sz =
     (if 1 < sz
      then let half = sz div 2; mid = base + half
           in bs_loop f xs (if f (xs ! mid) = Greater then base else mid) (sz - half)
      else base)"
  by pat_completeness auto
termination
  by (relation "measure (\<lambda>(f, xs, base, sz). sz)") auto

declare bs_loop.simps [simp del]

definition binary_search_by :: "('a \<Rightarrow> ordering) \<Rightarrow> 'a list \<Rightarrow> nat + nat" where
  "binary_search_by f xs =
     (if length xs = 0 then Inl 0
      else let base = bs_loop f xs 0 (length xs)
           in case f (xs ! base) of
                Equal \<Rightarrow> Inr base
              | Less \<Rightarrow> Inl (base + 1)
              | Greater \<Rightarrow> Inl base)"

definition partition_point :: "('a \<Rightarrow> bool) \<Rightarrow> 'a list \<Rightarrow> nat" where
  "partition_point p xs =
     (case binary_search_by (\<lambda>x. if p x then Less else Greater) xs of Inr i \<Rightarrow> i | Inl i \<Rightarrow> i)"

lemma bs_loop_step:
  "1 < sz \<Longrightarrow> bs_loop f xs base sz =
     bs_loop f xs (if f (xs ! (base + sz div 2)) = Greater then base else base + sz div 2)
       (sz - sz div 2)"
  by (subst bs_loop.simps) (simp add: Let_def)

lemma bs_loop_stop: "\<not> 1 < sz \<Longrightarrow> bs_loop f xs base sz = base"
  by (subst bs_loop.simps) simp

text \<open>The loop never leaves the window it was given.\<close>

lemma bs_loop_range:
  "0 < sz \<Longrightarrow> base \<le> bs_loop f xs base sz \<and> bs_loop f xs base sz < base + sz"
proof (induction f xs base sz rule: bs_loop.induct)
  case (1 f xs base sz)
  show ?case
  proof (cases "1 < sz")
    case True
    define base' where "base' = (if f (xs ! (base + sz div 2)) = Greater then base
                                 else base + sz div 2)"
    have "base' \<le> bs_loop f xs base' (sz - sz div 2) \<and>
          bs_loop f xs base' (sz - sz div 2) < base' + (sz - sz div 2)"
      unfolding base'_def using "1.IH" [OF True refl refl] True by simp
    moreover have "base \<le> base'" and "base' + (sz - sz div 2) \<le> base + sz"
      using True by (auto simp: base'_def)
    ultimately show ?thesis
      unfolding bs_loop_step [OF True] base'_def [symmetric] by linarith
  qed (use "1.prems" in \<open>simp add: bs_loop_stop\<close>)
qed

text \<open>
  On a monotone comparator the loop keeps: everything from \<open>base + sz\<close> on is \<open>Greater\<close>, and
  \<open>base\<close> itself is not, unless it is still 0.
\<close>

lemma bs_loop_last:
  assumes "sorted (map f xs)" and "0 < sz" and "base + sz \<le> length xs"
    and "base = 0 \<or> f (xs ! base) \<noteq> Greater"
    and "\<And>i. base + sz \<le> i \<Longrightarrow> i < length xs \<Longrightarrow> f (xs ! i) = Greater"
  defines "b \<equiv> bs_loop f xs base sz"
  shows "(b = 0 \<or> f (xs ! b) \<noteq> Greater) \<and> (\<forall>i. b < i \<longrightarrow> i < length xs \<longrightarrow> f (xs ! i) = Greater)"
  using assms(1-5) unfolding b_def
proof (induction f xs base sz rule: bs_loop.induct)
  case (1 f xs base sz)
  show ?case
  proof (cases "1 < sz")
    case True
    define mid where "mid = base + sz div 2"
    have mid: "mid < length xs" "base + (sz - sz div 2) \<le> length xs"
         "mid + (sz - sz div 2) = base + sz"
      using True "1.prems"(3) by (auto simp: mid_def)
    have up: "f (xs ! i) = Greater" if "f (xs ! mid) = Greater" "mid \<le> i" "i < length xs" for i
      using sorted_nth_mono [OF "1.prems"(1), of mid i] that by simp
    show ?thesis
    proof (cases "f (xs ! mid) = Greater")
      case g: True
      have le: "mid \<le> base + (sz - sz div 2)" by (simp add: mid_def)
      have top: "f (xs ! i) = Greater" if "base + (sz - sz div 2) \<le> i" "i < length xs" for i
        using up [OF g _ that(2)] that(1) le by simp
      show ?thesis
        using "1.IH" [OF True refl refl] g "1.prems"(1,4) mid(2) top True
        unfolding bs_loop_step [OF True] mid_def [symmetric] by simp
    next
      case g: False
      have top: "f (xs ! i) = Greater" if "mid + (sz - sz div 2) \<le> i" "i < length xs" for i
        using "1.prems"(5) that mid(3) by simp
      show ?thesis
        using "1.IH" [OF True refl refl] g "1.prems"(1,3) mid(3) top True
        unfolding bs_loop_step [OF True] mid_def [symmetric] by simp
    qed
  next
    case False
    then have "sz = 1" using "1.prems"(2) by simp
    then show ?thesis using "1.prems" by (simp add: bs_loop_stop)
  qed
qed

lemma binary_search_by_Inr:
  "binary_search_by f xs = Inr i \<Longrightarrow> i < length xs \<and> f (xs ! i) = Equal"
  using bs_loop_range [of "length xs" 0 f xs]
  by (auto simp: binary_search_by_def Let_def split: if_splits ordering.splits)

lemma binary_search_by_Inl:
  assumes "sorted (map f xs)" and "binary_search_by f xs = Inl i"
  shows "i \<le> length xs" and "\<And>j. j < i \<Longrightarrow> f (xs ! j) = Less"
    and "\<And>j. i \<le> j \<Longrightarrow> j < length xs \<Longrightarrow> f (xs ! j) = Greater"
proof -
  have all: "i \<le> length xs \<and> (\<forall>j<i. f (xs ! j) = Less) \<and>
             (\<forall>j. i \<le> j \<longrightarrow> j < length xs \<longrightarrow> f (xs ! j) = Greater)"
  proof (cases "xs = []")
    case False
    define b where "b = bs_loop f xs 0 (length xs)"
    have b: "b < length xs" using bs_loop_range [of "length xs" 0 f xs] False by (simp add: b_def)
    have last: "b = 0 \<or> f (xs ! b) \<noteq> Greater"
         "\<And>i. b < i \<Longrightarrow> i < length xs \<Longrightarrow> f (xs ! i) = Greater"
      using bs_loop_last [OF assms(1), of "length xs" 0] False by (auto simp: b_def)
    have from_b: "f (xs ! j) = Greater" if "f (xs ! b) = Greater" "b \<le> j" "j < length xs" for j
      using last(2) [of j] that by (cases "j = b") auto
    have down: "f (xs ! j) = Less" if "f (xs ! b) = Less" "j \<le> b" for j
      using sorted_nth_mono [OF assms(1), of j b] that b by simp
    show ?thesis
    proof (cases "f (xs ! b)")
      case Less
      then have "i = Suc b" using assms(2) False by (simp add: binary_search_by_def b_def Let_def)
      then show ?thesis using b last(2) down [OF Less] by (simp add: less_Suc_eq_le Suc_le_eq)
    next
      case Equal
      then show ?thesis using assms(2) False by (simp add: binary_search_by_def b_def Let_def)
    next
      case Greater
      then have "i = b" using assms(2) False by (simp add: binary_search_by_def b_def Let_def)
      moreover have "b = 0" using Greater last(1) by simp
      ultimately show ?thesis using from_b [OF Greater] by simp
    qed
  qed (use assms(2) in \<open>auto simp: binary_search_by_def\<close>)
  then show "i \<le> length xs" and "\<And>j. j < i \<Longrightarrow> f (xs ! j) = Less"
    and "\<And>j. i \<le> j \<Longrightarrow> j < length xs \<Longrightarrow> f (xs ! j) = Greater"
    by auto
qed

lemma binary_search_by_complete:
  assumes "sorted (map f xs)" and "x \<in> set xs" and "f x = Equal"
  shows "\<exists>i. binary_search_by f xs = Inr i"
proof (rule ccontr)
  assume "\<not> ?thesis"
  then obtain i where i: "binary_search_by f xs = Inl i"
    by (cases "binary_search_by f xs") auto
  obtain j where "j < length xs" "x = xs ! j" using assms(2) by (auto simp: in_set_conv_nth)
  then show False
    using binary_search_by_Inl(2,3) [OF assms(1) i, of j] assms(3) by (cases "j < i") auto
qed

section \<open>\<open>partition_point\<close>\<close>

lemma partition_point_split:
  assumes "sorted_wrt (\<lambda>a b. p b \<longrightarrow> p a) xs"
  shows "partition_point p xs \<le> length xs"
    and "\<And>j. j < partition_point p xs \<Longrightarrow> p (xs ! j)"
    and "\<And>j. partition_point p xs \<le> j \<Longrightarrow> j < length xs \<Longrightarrow> \<not> p (xs ! j)"
proof -
  let ?f = "\<lambda>x. if p x then Less else Greater"
  have s: "sorted (map ?f xs)"
    unfolding sorted_map by (rule sorted_wrt_mono_rel [OF _ assms]) simp
  have "\<nexists>i. binary_search_by ?f xs = Inr i"
    using binary_search_by_Inr [of ?f xs] by (auto split: if_splits)
  then obtain i where i: "binary_search_by ?f xs = Inl i"
    by (cases "binary_search_by ?f xs") auto
  then have "partition_point p xs = i" by (simp add: partition_point_def)
  then show "partition_point p xs \<le> length xs"
    using binary_search_by_Inl(1) [OF s i] by simp
  show "p (xs ! j)" if "j < partition_point p xs" for j
    using binary_search_by_Inl(2) [OF s i, of j] that \<open>partition_point p xs = i\<close>
    by (simp split: if_splits)
  show "\<not> p (xs ! j)" if "partition_point p xs \<le> j" "j < length xs" for j
    using binary_search_by_Inl(3) [OF s i, of j] that \<open>partition_point p xs = i\<close>
    by (simp split: if_splits)
qed

end
