(* ===== verification/Memory_Access.thy ===== *)
theory Memory_Access
  imports Prelude
begin

text \<open>
  The crate \<open>memory_access\<close> (\<open>src/memory_access/src/lib.rs\<close>): decoding the syndrome of a
  trapped guest load or store into a description of the access, and widening the value an
  emulated load returns to the guest's register. The last section states what the two
  functions promise: the decoder is the inverse of the architectural encoding, its
  \<open>unreachable!()\<close> arm is never taken, and the widening is the sign or zero extension of
  the accessed unit, truncated to the target register.
\<close>

section \<open>Data\<close>

datatype MemoryAccessWidth = U8 | U16 | U32 | U64

datatype DecodedMemoryAccessKind = Read | Write u64

record DecodedMemoryAccess =
  dma_ipa :: u64
  dma_width :: MemoryAccessWidth
  dma_kind :: DecodedMemoryAccessKind
  dma_register_index :: usize
  dma_sign_extend :: bool
  dma_register_width_64 :: bool

fun width_bits :: "MemoryAccessWidth \<Rightarrow> u32" where
  "width_bits U8 = 8"
| "width_bits U16 = 16"
| "width_bits U32 = 32"
| "width_bits U64 = 64"

text \<open>\<open>u8::MAX as u64\<close> and so on.\<close>

fun width_mask :: "MemoryAccessWidth \<Rightarrow> u64" where
  "width_mask U8 = ucast (- 1 :: u8)"
| "width_mask U16 = ucast (- 1 :: u16)"
| "width_mask U32 = ucast (- 1 :: u32)"
| "width_mask U64 = - 1"

section \<open>Syndrome fields\<close>

definition DATA_ABORT_ISS_ISV :: u32 where "DATA_ABORT_ISS_ISV = push_bit 24 1"
definition DATA_ABORT_ISS_SAS_SHIFT :: nat where "DATA_ABORT_ISS_SAS_SHIFT = 22"
definition DATA_ABORT_ISS_SAS_MASK :: u32 where "DATA_ABORT_ISS_SAS_MASK = 0b11"
definition DATA_ABORT_ISS_SSE :: u32 where "DATA_ABORT_ISS_SSE = push_bit 21 1"
definition DATA_ABORT_ISS_SRT_SHIFT :: nat where "DATA_ABORT_ISS_SRT_SHIFT = 16"
definition DATA_ABORT_ISS_SRT_MASK :: u32 where "DATA_ABORT_ISS_SRT_MASK = 0b11111"
definition DATA_ABORT_ISS_SF :: u32 where "DATA_ABORT_ISS_SF = push_bit 15 1"
definition DATA_ABORT_ISS_WNR :: u32 where "DATA_ABORT_ISS_WNR = push_bit 6 1"
definition FAULT_IPA_PAGE_SHIFT :: nat where "FAULT_IPA_PAGE_SHIFT = 12"

definition FAULT_IPA_PAGE_OFFSET_MASK :: u64 where
  "FAULT_IPA_PAGE_OFFSET_MASK = push_bit FAULT_IPA_PAGE_SHIFT 1 - 1"

lemmas iss_field_defs =
  DATA_ABORT_ISS_ISV_def DATA_ABORT_ISS_SAS_SHIFT_def DATA_ABORT_ISS_SAS_MASK_def
  DATA_ABORT_ISS_SSE_def DATA_ABORT_ISS_SRT_SHIFT_def DATA_ABORT_ISS_SRT_MASK_def
  DATA_ABORT_ISS_SF_def DATA_ABORT_ISS_WNR_def FAULT_IPA_PAGE_SHIFT_def
  FAULT_IPA_PAGE_OFFSET_MASK_def

definition decode_valid_instruction_syndrome :: "u32 \<Rightarrow> bool" where
  "decode_valid_instruction_syndrome iss = ((iss AND DATA_ABORT_ISS_ISV) \<noteq> 0)"

definition decode_memory_access_width :: "u32 \<Rightarrow> MemoryAccessWidth outcome" where
  "decode_memory_access_width iss =
     (let sas = drop_bit DATA_ABORT_ISS_SAS_SHIFT iss AND DATA_ABORT_ISS_SAS_MASK
      in if sas = 0 then Done U8
         else if sas = 1 then Done U16
         else if sas = 2 then Done U32
         else if sas = 3 then Done U64
         else Panicked ''internal error: entered unreachable code'')"

definition decode_memory_access_register_index :: "u32 \<Rightarrow> usize" where
  "decode_memory_access_register_index iss =
     ucast (drop_bit DATA_ABORT_ISS_SRT_SHIFT iss AND DATA_ABORT_ISS_SRT_MASK)"

definition decode_memory_access_is_write :: "u32 \<Rightarrow> bool" where
  "decode_memory_access_is_write iss = ((iss AND DATA_ABORT_ISS_WNR) \<noteq> 0)"

definition decode_memory_access_sign_extend :: "u32 \<Rightarrow> bool" where
  "decode_memory_access_sign_extend iss = ((iss AND DATA_ABORT_ISS_SSE) \<noteq> 0)"

definition decode_memory_access_register_width_64 :: "u32 \<Rightarrow> bool" where
  "decode_memory_access_register_width_64 iss = ((iss AND DATA_ABORT_ISS_SF) \<noteq> 0)"

definition decode_fault_ipa :: "u64 \<Rightarrow> u64 \<Rightarrow> u64" where
  "decode_fault_ipa hpfar_fipa far_va =
     (push_bit FAULT_IPA_PAGE_SHIFT hpfar_fipa) OR (far_va AND FAULT_IPA_PAGE_OFFSET_MASK)"

definition decode_memory_access_kind ::
  "u32 \<Rightarrow> usize \<Rightarrow> MemoryAccessWidth \<Rightarrow> (usize \<Rightarrow> u64 option) \<Rightarrow> DecodedMemoryAccessKind option"
where
  "decode_memory_access_kind iss register_index width read_register =
     (if decode_memory_access_is_write iss
      then case read_register register_index of
             None \<Rightarrow> None
           | Some v \<Rightarrow> Some (Write (v AND width_mask width))
      else Some Read)"

section \<open>Decoding and widening\<close>

definition decode_memory_access ::
  "u32 \<Rightarrow> u64 \<Rightarrow> u64 \<Rightarrow> (usize \<Rightarrow> u64 option) \<Rightarrow> DecodedMemoryAccess option outcome" where
  "decode_memory_access iss hpfar_fipa far_va read_register =
     (if \<not> decode_valid_instruction_syndrome iss then Done None
      else and_then (decode_memory_access_width iss) (\<lambda>w.
        let register_index = decode_memory_access_register_index iss
        in case decode_memory_access_kind iss register_index w read_register of
             None \<Rightarrow> Done None
           | Some k \<Rightarrow> Done (Some
               \<lparr>dma_ipa = decode_fault_ipa hpfar_fipa far_va,
                dma_width = w,
                dma_kind = k,
                dma_register_index = register_index,
                dma_sign_extend = decode_memory_access_sign_extend iss,
                dma_register_width_64 = decode_memory_access_register_width_64 iss\<rparr>)))"

definition extend_read_result :: "u64 \<Rightarrow> MemoryAccessWidth \<Rightarrow> bool \<Rightarrow> bool \<Rightarrow> u64" where
  "extend_read_result value width sign_extend register_width_64 =
     (if sign_extend \<and> width \<noteq> U64
      then let shift = unat (64 - width_bits width);
               extended = signed_drop_bit shift (push_bit shift (value AND width_mask width))
           in if register_width_64 then extended else extended AND ucast (- 1 :: u32)
      else if register_width_64 then value AND width_mask width
      else (value AND width_mask width) AND ucast (- 1 :: u32))"

text \<open>
  The unit tests' encoder of a syndrome, for the round trip below.
\<close>

definition test_iss :: "MemoryAccessWidth \<Rightarrow> u32 \<Rightarrow> u32 \<Rightarrow> u32" where
  "test_iss width register_index flags =
     (let sas = (case width of U8 \<Rightarrow> 0 | U16 \<Rightarrow> 1 | U32 \<Rightarrow> 2 | U64 \<Rightarrow> 3)
      in DATA_ABORT_ISS_ISV
         OR push_bit DATA_ABORT_ISS_SAS_SHIFT sas
         OR push_bit DATA_ABORT_ISS_SRT_SHIFT (register_index AND DATA_ABORT_ISS_SRT_MASK)
         OR flags)"

section \<open>Lemmas\<close>

lemma width_mask_eq: "width_mask w = mask (unat (width_bits w))"
  by (cases w) (simp_all add: unsigned_minus_1_eq_mask mask_eq_exp_minus_1)

lemma and_width_mask: "v AND width_mask w = take_bit (unat (width_bits w)) v"
  by (simp add: width_mask_eq take_bit_eq_mask)

lemma unat_and_width_mask: "unat (v AND width_mask w) = unat v mod 2 ^ unat (width_bits w)"
  by (simp add: and_width_mask unat_take_bit)

lemma and_u32_max: "v AND ucast (- 1 :: u32) = take_bit 32 v" for v :: u64
  by (simp add: unsigned_minus_1_eq_mask take_bit_eq_mask)

lemma and_single_bit: "(x AND push_bit n 1 \<noteq> 0) = bit x n" for x :: "'a::len word"
  by (auto simp: bit_eq_iff [of "_ AND _"] bit_simps dest: bit_imp_le_length)

lemma iss_flag_bits:
  "decode_valid_instruction_syndrome iss = bit iss 24"
  "decode_memory_access_sign_extend iss = bit iss 21"
  "decode_memory_access_register_width_64 iss = bit iss 15"
  "decode_memory_access_is_write iss = bit iss 6"
  by (simp_all only: and_single_bit decode_valid_instruction_syndrome_def
    decode_memory_access_sign_extend_def decode_memory_access_register_width_64_def
    decode_memory_access_is_write_def DATA_ABORT_ISS_ISV_def DATA_ABORT_ISS_SSE_def
    DATA_ABORT_ISS_SF_def DATA_ABORT_ISS_WNR_def)


lemma and_3_cases:
  "x AND 3 = (if bit x 1 then if bit x 0 then 3 else 2 else if bit x 0 then 1 else 0)"
  for x :: u32
proof -
  have two: "n < 2 \<longleftrightarrow> n = 0 \<or> n = 1" for n :: nat by auto
  have "x AND mask 2 = (if bit x 1 then if bit x 0 then mask 2 else push_bit 1 1
                        else if bit x 0 then 1 else 0)"
    by (rule bit_word_eqI) (auto simp: bit_simps two intro: gr0I)
  then show ?thesis by (simp add: mask_eq_exp_minus_1)
qed

lemma decode_memory_access_width_bits:
  "decode_memory_access_width iss =
     Done (if bit iss 23 then if bit iss 22 then U64 else U32 else if bit iss 22 then U16 else U8)"
  by (simp add: decode_memory_access_width_def iss_field_defs and_3_cases bit_simps)

lemma register_index_take_bit:
  "decode_memory_access_register_index iss = ucast (take_bit 5 (drop_bit 16 iss))"
  by (simp add: decode_memory_access_register_index_def iss_field_defs take_bit_eq_mask
      mask_eq_exp_minus_1)

lemma register_index_less: "unat (decode_memory_access_register_index iss) < 32"
  using take_bit_nat_less_exp [of 5 "unat (drop_bit 16 iss)"]
  by (simp add: register_index_take_bit unsigned_take_bit_eq unsigned_ucast_eq)

subsection \<open>Widening\<close>

text \<open>
  The reference for an emulated load: the unit read, as an integer of its own width, is
  sign or zero extended to 64 bits, and a 32-bit target register keeps the low half.
\<close>

fun loaded_unit :: "MemoryAccessWidth \<Rightarrow> bool \<Rightarrow> u64 \<Rightarrow> u64" where
  "loaded_unit U8 sext v = (if sext then scast (ucast v :: u8) else ucast (ucast v :: u8))"
| "loaded_unit U16 sext v = (if sext then scast (ucast v :: u16) else ucast (ucast v :: u16))"
| "loaded_unit U32 sext v = (if sext then scast (ucast v :: u32) else ucast (ucast v :: u32))"
| "loaded_unit U64 sext v = v"

definition register_load :: "MemoryAccessWidth \<Rightarrow> bool \<Rightarrow> bool \<Rightarrow> u64 \<Rightarrow> u64" where
  "register_load w sext reg64 v =
     (if reg64 then loaded_unit w sext v else ucast (ucast (loaded_unit w sext v) :: u32))"

lemma between_pred: "n - Suc 0 \<le> m \<Longrightarrow> \<not> n \<le> m \<Longrightarrow> m = n - Suc 0"
  by simp

lemma signed_take_bit_63 [simp]: "signed_take_bit 63 v = v" for v :: u64
proof (rule bit_word_eqI)
  fix n
  assume "n < LENGTH(64)"
  then show "bit (signed_take_bit 63 v) n = bit v n"
    by (cases "n = 63") (auto simp: bit_simps min_def)
qed

lemma take_bit_64 [simp]: "take_bit 64 v = v" for v :: u64
  by (simp add: take_bit_word_eq_self)

lemma signed_drop_push:
  fixes v :: u64
  assumes "0 < n" "n \<le> 64"
  shows "signed_drop_bit (64 - n) (push_bit (64 - n) (take_bit n v)) = signed_take_bit (n - 1) v"
  using assms
  by (intro bit_word_eqI) (auto simp: bit_simps min_def dest: between_pred)

lemma loaded_unit_eq:
  "loaded_unit w sext v =
     (if sext then signed_take_bit (unat (width_bits w) - 1) v else take_bit (unat (width_bits w)) v)"
proof (cases w)
  case U64
  then show ?thesis by simp
qed (intro bit_word_eqI; auto simp: bit_simps min_def)+

lemma extend_read_result_take_bit:
  "extend_read_result v w sext reg64 =
     (let x = (if sext then signed_take_bit (unat (width_bits w) - 1) v
               else take_bit (unat (width_bits w)) v)
      in if reg64 then x else take_bit 32 x)"
proof (cases "sext \<and> w \<noteq> U64")
  case True
  then have "unat (64 - width_bits w) = 64 - unat (width_bits w)"
    and "0 < unat (width_bits w)" "unat (width_bits w) \<le> 64"
    by (cases w; simp)+
  with True show ?thesis
    by (simp add: extend_read_result_def and_width_mask and_u32_max signed_drop_push Let_def)
next
  case False
  then show ?thesis
    by (auto simp: extend_read_result_def and_width_mask and_u32_max Let_def)
qed

subsection \<open>Encoding\<close>

lemma test_iss_bits:
  assumes "flags AND NOT (DATA_ABORT_ISS_SSE OR DATA_ABORT_ISS_SF OR DATA_ABORT_ISS_WNR) = 0"
  shows "bit (test_iss w r flags) 24"
    and "bit (test_iss w r flags) 23 = (w = U32 \<or> w = U64)"
    and "bit (test_iss w r flags) 22 = (w = U16 \<or> w = U64)"
    and "bit (test_iss w r flags) 21 = bit flags 21"
    and "bit (test_iss w r flags) 15 = bit flags 15"
    and "bit (test_iss w r flags) 6 = bit flags 6"
    and "take_bit 5 (drop_bit 16 (test_iss w r flags)) = take_bit 5 r"
proof -
  have fl: "\<not> bit flags n" if "n \<noteq> 21" "n \<noteq> 15" "n \<noteq> 6" for n
  proof -
    have "\<not> bit (flags AND NOT (DATA_ABORT_ISS_SSE OR DATA_ABORT_ISS_SF OR DATA_ABORT_ISS_WNR)) n"
      unfolding assms by simp
    then show ?thesis
      using that bit_imp_le_length [of flags n]
      by (auto simp only: iss_field_defs bit_and_iff bit_or_iff bit_not_iff bit_push_bit_iff
            bit_1_iff possible_bit_word)
  qed
  have m: "(31 :: u32) = mask 5" by (simp add: mask_eq_exp_minus_1)
  have sas: "bit (1 :: u32) n = (n = 0)" "bit (2 :: u32) n = (n = 1)" "bit (3 :: u32) n = (n < 2)" for n
    using bit_push_bit_iff [of 1 "1 :: u32" n] bit_mask_iff [of 2 n, where 'a = u32]
    by (auto simp: bit_simps mask_eq_exp_minus_1)
  note s = test_iss_def iss_field_defs m bit_simps fl sas
  show "bit (test_iss w r flags) 24"
    and "bit (test_iss w r flags) 23 = (w = U32 \<or> w = U64)"
    and "bit (test_iss w r flags) 22 = (w = U16 \<or> w = U64)"
    and "bit (test_iss w r flags) 21 = bit flags 21"
    and "bit (test_iss w r flags) 15 = bit flags 15"
    and "bit (test_iss w r flags) 6 = bit flags 6"
    by (cases w; simp add: s)+
  show "take_bit 5 (drop_bit 16 (test_iss w r flags)) = take_bit 5 r"
    by (cases w; intro bit_word_eqI) (auto simp: s)
qed

lemma decode_memory_access_eq:
  "decode_memory_access iss fipa va rd =
     Done (if \<not> bit iss 24 then None
           else map_option
             (\<lambda>k. \<lparr>dma_ipa = decode_fault_ipa fipa va,
                   dma_width = (if bit iss 23 then if bit iss 22 then U64 else U32
                                else if bit iss 22 then U16 else U8),
                   dma_kind = k,
                   dma_register_index = ucast (take_bit 5 (drop_bit 16 iss)),
                   dma_sign_extend = bit iss 21,
                   dma_register_width_64 = bit iss 15\<rparr>)
             (decode_memory_access_kind iss (ucast (take_bit 5 (drop_bit 16 iss)))
                (if bit iss 23 then if bit iss 22 then U64 else U32
                 else if bit iss 22 then U16 else U8) rd))"
  by (simp add: decode_memory_access_def iss_flag_bits decode_memory_access_width_bits
      register_index_take_bit Let_def split: option.split)

lemma extend_read_result_eq:
  "extend_read_result v w sext reg64 = register_load w sext reg64 v"
proof -
  have "ucast (ucast x :: u32) = take_bit 32 x" for x :: u64
    by (intro bit_word_eqI) (auto simp: bit_simps)
  then show ?thesis
    by (simp add: extend_read_result_take_bit register_load_def loaded_unit_eq Let_def)
qed

lemma decode_test_iss:
  assumes "r < 32"
    and "flags AND NOT (DATA_ABORT_ISS_SSE OR DATA_ABORT_ISS_SF OR DATA_ABORT_ISS_WNR) = 0"
  shows "decode_memory_access (test_iss w r flags) fipa va rd =
    Done (map_option
      (\<lambda>k. \<lparr>dma_ipa = decode_fault_ipa fipa va, dma_width = w, dma_kind = k,
            dma_register_index = ucast r, dma_sign_extend = bit flags 21,
            dma_register_width_64 = bit flags 15\<rparr>)
      (if bit flags 6 then map_option (\<lambda>v. Write (v AND width_mask w)) (rd (ucast r))
       else Some Read))"
proof -
  have "take_bit 5 r = r" using assms(1)
    by (simp add: word_unat_eq_iff unsigned_take_bit_eq word_less_nat_alt take_bit_nat_eq_self)
  moreover have "(if bit (test_iss w r flags) 23 then if bit (test_iss w r flags) 22 then U64 else U32
      else if bit (test_iss w r flags) 22 then U16 else U8) = w"
    by (cases w) (simp_all add: test_iss_bits [OF assms(2)])
  ultimately show ?thesis
    by (simp add: decode_memory_access_eq test_iss_bits [OF assms(2)] decode_memory_access_kind_def
        iss_flag_bits split: option.split)
qed

section \<open>Properties\<close>

text \<open>
  Decoding never reaches its \<open>unreachable!()\<close> arm. It declines an access exactly when the
  syndrome is not valid (ISV clear) or a store's source register cannot be read, and an
  access it accepts names a register \<open>x0\<close>--\<open>x31\<close> and, for a store, carries the register's value
  truncated to the access width.
\<close>

theorem decode_memory_access_total:
  "\<exists>d. decode_memory_access iss fipa va rd = Done d \<and>
       (d = None \<longleftrightarrow>
          (if bit iss 24 then bit iss 6 \<and> rd (decode_memory_access_register_index iss) = None else True)) \<and>
       (case d of None \<Rightarrow> True
        | Some a \<Rightarrow> unat (dma_register_index a) < 32 \<and>
            (case dma_kind a of
               Read \<Rightarrow> \<not> bit iss 6
             | Write v \<Rightarrow> bit iss 6 \<and>
                 (\<exists>r. rd (dma_register_index a) = Some r \<and>
                      unat v = unat r mod 2 ^ unat (width_bits (dma_width a)))))"
  using register_index_less [of iss]
  by (auto simp: decode_memory_access_eq decode_memory_access_kind_def iss_flag_bits
      register_index_take_bit unat_and_width_mask
      simp del: width_bits.simps width_mask.simps split: option.split)

text \<open>
  C14: decoding inverts the architectural encoding of a data-abort syndrome: for every width,
  register and combination of the sign-extend, 64-bit-register and write flags, the decoded
  access has exactly those fields.
\<close>

theorem decode_inverts_encoding:
  assumes "r < 32"
    and "flags AND NOT (DATA_ABORT_ISS_SSE OR DATA_ABORT_ISS_SF OR DATA_ABORT_ISS_WNR) = 0"
  shows "decode_memory_access (test_iss w r flags) fipa va rd =
    Done (map_option
      (\<lambda>k. \<lparr>dma_ipa = decode_fault_ipa fipa va, dma_width = w, dma_kind = k,
            dma_register_index = ucast r, dma_sign_extend = bit flags 21,
            dma_register_width_64 = bit flags 15\<rparr>)
      (if bit flags 6 then map_option (\<lambda>v. Write (v AND width_mask w)) (rd (ucast r))
       else Some Read))"
  by (rule decode_test_iss [OF assms])

theorem decode_inverts_encoding_witness:
  "decode_memory_access (test_iss U16 7 DATA_ABORT_ISS_WNR) 0x12345 0xffff000000000abc
     (\<lambda>i. if i = 7 then Some 0xffffffffffff1234 else None) =
   Done (Some \<lparr>dma_ipa = 0x12345abc, dma_width = U16, dma_kind = Write 0x1234,
     dma_register_index = 7, dma_sign_extend = False, dma_register_width_64 = False\<rparr>)"
  using decode_inverts_encoding [of 7 DATA_ABORT_ISS_WNR U16 "0x12345" "0xffff000000000abc"
      "\<lambda>i. if i = 7 then Some 0xffffffffffff1234 else None"]
  by (simp add: iss_field_defs decode_fault_ipa_def bit_simps unsigned_minus_1_eq_mask
      mask_eq_exp_minus_1)

text \<open>
  C32: the faulting address is the page of \<open>HPFAR_EL2.FIPA\<close> with the page offset of
  \<open>FAR_EL2\<close>: as long as the page number fits in 52 bits no bit of either is lost.
\<close>

theorem decode_fault_ipa_value:
  assumes "unat fipa < 2 ^ 52"
  shows "unat (decode_fault_ipa fipa va) = unat fipa * 4096 + unat va mod 4096"
proof -
  have m: "FAULT_IPA_PAGE_OFFSET_MASK = mask 12"
    by (simp add: iss_field_defs mask_eq_exp_minus_1)
  have "decode_fault_ipa fipa va = push_bit 12 fipa + take_bit 12 va"
    unfolding decode_fault_ipa_def m take_bit_eq_mask [symmetric] FAULT_IPA_PAGE_SHIFT_def
    by (rule disjunctive_add [symmetric]) (auto simp: bit_simps)
  moreover have "unat (push_bit 12 fipa) = unat fipa * 4096"
    using assms by (simp add: push_bit_eq_mult unat_word_ariths)
  moreover have "unat (take_bit 12 va) = unat va mod 4096"
    by (simp add: unat_take_bit)
  ultimately show ?thesis
    using assms by (simp add: unat_word_ariths)
qed

theorem decode_fault_ipa_value_witness:
  "unat (0x12345 :: u64) < 2 ^ 52 \<and>
   unat (decode_fault_ipa 0x12345 0xffff000000000abc) = 0x12345 * 4096 + 0xabc"
  using decode_fault_ipa_value [of "0x12345" "0xffff000000000abc"] by simp

text \<open>
  C15: the value written back for an emulated load is the accessed unit, sign or zero extended
  to 64 bits and truncated to the target register's width, for every width and both flags.
\<close>

theorem extend_read_result_is_register_load:
  "extend_read_result v w sext reg64 = register_load w sext reg64 v"
  by (rule extend_read_result_eq)

end
