(* ===== verification/Stage2.thy ===== *)
theory Stage2
  imports Slices Memory_Access
begin

text \<open>
  The stage-2 access policy (\<open>src/src/stage2.rs\<close>): page ranges the guest may touch directly,
  the registry of ranges emulated by callbacks, and the builder that collects both.

  Three third-party operations are parameters, collected in the record \<open>stage2_deps\<close>: the page
  table (\<open>aarch64_paging::idmap::IdMap\<close>) and the two mutations of fixed-capacity vectors
  (\<open>arrayvec::ArrayVec\<close>, whose contents are lists here). \<open>stage2_deps_ok\<close> states what their
  documentation promises, \<open>map_range_confined\<close> that also a failed mapping touches only its own range.
  \<open>builder_run\<close> is every sequence of calls on a builder, going on after errors. A callback may use the platform's statics, so it is a function on
  a platform state \<open>'s\<close>.
\<close>

section \<open>Constants and errors\<close>

text \<open>The page size of \<open>aarch64_paging\<close>, 4 KiB.\<close>

definition PAGE_SIZE :: usize where "PAGE_SIZE = 4096"
definition STAGE2_PAGE_SIZE :: u64 where "STAGE2_PAGE_SIZE = ucast PAGE_SIZE"
definition MAX_MEMORY_ACCESS_HANDLERS :: nat where "MAX_MEMORY_ACCESS_HANDLERS = 16"
definition MAX_ALLOWED_RANGES :: nat where "MAX_ALLOWED_RANGES = 32"

datatype 'me Stage2ConfigError =
    RangeBaseNotPageAligned
  | EmptyRange
  | RangeSizeNotPageMultiple
  | RangeEndOverflow
  | RangeAddressNotRepresentable
  | TooManyAllowedRanges
  | TooManyMemoryAccessHandlerRegions
  | AllowedRangeOverlap
  | MemoryAccessHandlerRangeOverlap
  | AllowedRangeOverlapsMemoryAccessHandler
  | MapRange 'me

section \<open>Accesses, handlers and regions\<close>

record MemoryReadAccess =
  mra_ipa :: u64
  mra_offset :: u64
  mra_width :: MemoryAccessWidth

record MemoryWriteAccess =
  mwa_ipa :: u64
  mwa_offset :: u64
  mwa_width :: MemoryAccessWidth
  mwa_value :: u64

datatype MemoryReadResult = Value u64 | ReadFault
datatype MemoryWriteResult = WriteHandled | WriteFault

type_synonym 's MemoryReadHandler = "MemoryReadAccess \<Rightarrow> 's \<Rightarrow> MemoryReadResult \<times> 's"
type_synonym 's MemoryWriteHandler = "MemoryWriteAccess \<Rightarrow> 's \<Rightarrow> MemoryWriteResult \<times> 's"

record 's MemoryAccessHandler =
  mah_read :: "'s MemoryReadHandler option"
  mah_write :: "'s MemoryWriteHandler option"

definition handler_read_write ::
  "'s MemoryReadHandler \<Rightarrow> 's MemoryWriteHandler \<Rightarrow> 's MemoryAccessHandler" where
  "handler_read_write r w = \<lparr>mah_read = Some r, mah_write = Some w\<rparr>"

record Stage2Range =
  s2r_base_ipa :: u64
  s2r_size :: usize
  s2r_end_ipa :: u64

record 's MemoryAccessRegion =
  mar_base_ipa :: u64
  mar_size :: usize
  mar_handler :: "'s MemoryAccessHandler"
  mar_end_ipa :: u64

record 's MemoryAccessHandlerMatch =
  mhm_region :: "'s MemoryAccessRegion"
  mhm_offset :: u64

record 's MemoryAccessHandlerRegistry =
  reg_regions :: "'s MemoryAccessRegion list"

section \<open>Ranges\<close>

definition page_ranges_overlap :: "u64 \<Rightarrow> u64 \<Rightarrow> u64 \<Rightarrow> u64 \<Rightarrow> bool" where
  "page_ranges_overlap first_base_ipa first_end_ipa second_base_ipa second_end_ipa =
     (let (earlier_end, later_base) =
            (if first_base_ipa \<le> second_base_ipa then (first_end_ipa, second_base_ipa)
             else (second_end_ipa, first_base_ipa))
      in later_base < earlier_end)"

definition checked_range_end :: "u64 \<Rightarrow> usize \<Rightarrow> 'me Stage2ConfigError + u64" where
  "checked_range_end base_ipa sz =
     question (ok_or RangeEndOverflow (try_from_uint sz)) (\<lambda>sz.
     ok_or RangeEndOverflow (checked_add base_ipa sz))"

definition validate_range :: "u64 \<Rightarrow> usize \<Rightarrow> 'me Stage2ConfigError + unit" where
  "validate_range base_ipa sz =
     (if \<not> is_multiple_of base_ipa STAGE2_PAGE_SIZE then Inl RangeBaseNotPageAligned
      else if sz = 0 then Inl EmptyRange
      else if \<not> is_multiple_of sz PAGE_SIZE then Inl RangeSizeNotPageMultiple
      else question (checked_range_end base_ipa sz) (\<lambda>_. Inr ()))"

definition stage2_range_new :: "u64 \<Rightarrow> usize \<Rightarrow> 'me Stage2ConfigError + Stage2Range" where
  "stage2_range_new base_ipa sz =
     question (validate_range base_ipa sz) (\<lambda>_.
     question (checked_range_end base_ipa sz) (\<lambda>end_ipa.
     Inr \<lparr>s2r_base_ipa = base_ipa, s2r_size = sz, s2r_end_ipa = end_ipa\<rparr>))"

definition range_overlaps :: "Stage2Range \<Rightarrow> Stage2Range \<Rightarrow> bool" where
  "range_overlaps self other =
     page_ranges_overlap (s2r_base_ipa self) (s2r_end_ipa self) (s2r_base_ipa other) (s2r_end_ipa other)"

definition region_new :: "Stage2Range \<Rightarrow> 's MemoryAccessHandler \<Rightarrow> 's MemoryAccessRegion" where
  "region_new rng handler =
     \<lparr>mar_base_ipa = s2r_base_ipa rng, mar_size = s2r_size rng, mar_handler = handler,
      mar_end_ipa = s2r_end_ipa rng\<rparr>"

definition region_end_ipa :: "'s MemoryAccessRegion \<Rightarrow> u64" where
  "region_end_ipa self =
     (case (checked_range_end (mar_base_ipa self) (mar_size self) :: unit Stage2ConfigError + u64) of
        Inr e \<Rightarrow> e | Inl _ \<Rightarrow> mar_end_ipa self)"

definition region_offset_of :: "profile \<Rightarrow> 's MemoryAccessRegion \<Rightarrow> u64 \<Rightarrow> u64 outcome" where
  "region_offset_of pr self ipa = sub_int pr ipa (mar_base_ipa self)"

definition region_overlaps_range :: "'s MemoryAccessRegion \<Rightarrow> Stage2Range \<Rightarrow> bool" where
  "region_overlaps_range self rng =
     page_ranges_overlap (mar_base_ipa self) (mar_end_ipa self) (s2r_base_ipa rng) (s2r_end_ipa rng)"

definition align_down_to_page :: "usize \<Rightarrow> usize" where
  "align_down_to_page address = address div PAGE_SIZE * PAGE_SIZE"

definition align_up_to_page :: "profile \<Rightarrow> usize \<Rightarrow> usize outcome" where
  "align_up_to_page pr address = next_multiple_of pr address PAGE_SIZE"

definition to_ipa :: "usize \<Rightarrow> u64 outcome" where
  "to_ipa address = expect_some ''IPA should fit in u64'' (try_from_uint address)"

section \<open>Third-party operations\<close>

record ('s, 'idmap, 'me, 'attr) stage2_deps =
  idmap_new :: 'idmap
  idmap_map_range :: "'idmap \<Rightarrow> usize \<Rightarrow> usize \<Rightarrow> 'attr \<Rightarrow> ('me + unit) \<times> 'idmap"
  ranges_push :: "Stage2Range list \<Rightarrow> Stage2Range \<Rightarrow> Stage2Range list outcome"
  regions_insert ::
    "'s MemoryAccessRegion list \<Rightarrow> nat \<Rightarrow> 's MemoryAccessRegion \<Rightarrow> 's MemoryAccessRegion list outcome"

text \<open>
  \<open>maps idmap\<close> is the translation a page table describes: the attributes of each mapped
  address. Documented behaviour: a new table maps nothing; a successful \<open>map_range\<close> on a
  page-aligned range identity-maps exactly that range; \<open>ArrayVec::push\<close> and \<open>insert\<close> below
  capacity append and insert.
\<close>

definition page_aligned :: "u64 \<Rightarrow> bool" where
  "page_aligned a \<longleftrightarrow> a mod 4096 = 0"

definition stage2_deps_ok ::
  "('s, 'idmap, 'me, 'attr) stage2_deps \<Rightarrow> ('idmap \<Rightarrow> u64 \<Rightarrow> 'attr option) \<Rightarrow> bool" where
  "stage2_deps_ok D maps \<longleftrightarrow>
     maps (idmap_new D) = Map.empty \<and>
     (\<forall>m s e a m'. page_aligned s \<longrightarrow> page_aligned e \<longrightarrow> idmap_map_range D m s e a = (Inr (), m') \<longrightarrow>
        maps m' = (\<lambda>x. if x \<in> {s..<e} then Some a else maps m x)) \<and>
     (\<forall>xs x. length xs < MAX_ALLOWED_RANGES \<longrightarrow> ranges_push D xs x = Done (xs @ [x])) \<and>
     (\<forall>xs i x. length xs < MAX_MEMORY_ACCESS_HANDLERS \<longrightarrow> i \<le> length xs \<longrightarrow>
        regions_insert D xs i x = Done (take i xs @ x # drop i xs))"

section \<open>The registry\<close>

definition registry_new :: "'s MemoryAccessHandlerRegistry" where
  "registry_new = \<lparr>reg_regions = []\<rparr>"

definition registry_register ::
  "('s, 'idmap, 'me, 'attr) stage2_deps \<Rightarrow> 's MemoryAccessHandlerRegistry \<Rightarrow> 's MemoryAccessRegion \<Rightarrow>
   (('me Stage2ConfigError + unit) \<times> 's MemoryAccessHandlerRegistry) outcome" where
  "registry_register D self region =
     (if MAX_MEMORY_ACCESS_HANDLERS \<le> length (reg_regions self)
      then Done (Inl TooManyMemoryAccessHandlerRegions, self)
      else if \<exists>existing\<in>set (reg_regions self).
           page_ranges_overlap (mar_base_ipa region) (mar_end_ipa region)
             (mar_base_ipa existing) (mar_end_ipa existing)
      then Done (Inl MemoryAccessHandlerRangeOverlap, self)
      else let insert_at = partition_point (\<lambda>existing. mar_base_ipa existing < mar_base_ipa region)
                             (reg_regions self)
           in and_then (regions_insert D (reg_regions self) insert_at region) (\<lambda>regions.
                Done (Inr (), self\<lparr>reg_regions := regions\<rparr>)))"

definition registry_find ::
  "profile \<Rightarrow> 's MemoryAccessHandlerRegistry \<Rightarrow> u64 \<Rightarrow> 's MemoryAccessHandlerMatch option outcome" where
  "registry_find pr self ipa =
     (case binary_search_by
             (\<lambda>region. if ipa < mar_base_ipa region then Greater
                       else if region_end_ipa region \<le> ipa then Less
                       else Equal) (reg_regions self) of
        Inl _ \<Rightarrow> Done None
      | Inr index \<Rightarrow>
          and_then (index_slice (reg_regions self) index) (\<lambda>region.
          and_then (region_offset_of pr region ipa) (\<lambda>offset.
          Done (Some \<lparr>mhm_region = region, mhm_offset = offset\<rparr>))))"

section \<open>The builder\<close>

record ('s, 'idmap) Stage2Builder =
  sb_idmap :: 'idmap
  sb_memory_access_handlers :: "'s MemoryAccessHandlerRegistry"
  sb_allowed_ranges :: "Stage2Range list"

record ('s, 'idmap) Stage2Config =
  sc_idmap :: 'idmap
  sc_memory_access_handlers :: "'s MemoryAccessHandlerRegistry"

definition builder_new :: "('s, 'idmap, 'me, 'attr) stage2_deps \<Rightarrow> ('s, 'idmap) Stage2Builder" where
  "builder_new D =
     \<lparr>sb_idmap = idmap_new D, sb_memory_access_handlers = registry_new, sb_allowed_ranges = []\<rparr>"

definition check_allowed_range_capacity ::
  "('s, 'idmap) Stage2Builder \<Rightarrow> 'me Stage2ConfigError + unit" where
  "check_allowed_range_capacity self =
     (if MAX_ALLOWED_RANGES \<le> length (sb_allowed_ranges self) then Inl TooManyAllowedRanges
      else Inr ())"

definition track_allowed_range ::
  "('s, 'idmap, 'me, 'attr) stage2_deps \<Rightarrow> ('s, 'idmap) Stage2Builder \<Rightarrow> Stage2Range \<Rightarrow>
   ('s, 'idmap) Stage2Builder outcome" where
  "track_allowed_range D self rng =
     and_then (ranges_push D (sb_allowed_ranges self) rng) (\<lambda>ranges.
       Done (self\<lparr>sb_allowed_ranges := ranges\<rparr>))"

definition check_no_registered_overlap ::
  "('s, 'idmap) Stage2Builder \<Rightarrow> Stage2Range \<Rightarrow> 'me Stage2ConfigError + unit" where
  "check_no_registered_overlap self rng =
     (if \<exists>region\<in>set (reg_regions (sb_memory_access_handlers self)). region_overlaps_range region rng
      then Inl AllowedRangeOverlapsMemoryAccessHandler else Inr ())"

definition check_no_allowed_overlap ::
  "('s, 'idmap) Stage2Builder \<Rightarrow> Stage2Range \<Rightarrow> 'me Stage2ConfigError + unit" where
  "check_no_allowed_overlap self rng =
     (if \<exists>existing\<in>set (sb_allowed_ranges self). range_overlaps rng existing
      then Inl AllowedRangeOverlap else Inr ())"

text \<open>The checks of \<open>allow_range\<close> before the page table is touched, in their order.\<close>

definition allow_range_checks ::
  "('s, 'idmap) Stage2Builder \<Rightarrow> u64 \<Rightarrow> usize \<Rightarrow> 'me Stage2ConfigError + Stage2Range \<times> usize \<times> usize" where
  "allow_range_checks self base_ipa sz =
     question (stage2_range_new base_ipa sz) (\<lambda>rng.
     question (check_allowed_range_capacity self) (\<lambda>_.
     question (check_no_allowed_overlap self rng) (\<lambda>_.
     question (check_no_registered_overlap self rng) (\<lambda>_.
     question (ok_or RangeAddressNotRepresentable (try_from_uint base_ipa)) (\<lambda>start.
     question (ok_or RangeAddressNotRepresentable (try_from_uint (s2r_end_ipa rng))) (\<lambda>end.
     Inr (rng, start, end)))))))"

definition allow_range ::
  "('s, 'idmap, 'me, 'attr) stage2_deps \<Rightarrow> ('s, 'idmap) Stage2Builder \<Rightarrow> u64 \<Rightarrow> usize \<Rightarrow> 'attr \<Rightarrow>
   (('me Stage2ConfigError + unit) \<times> ('s, 'idmap) Stage2Builder) outcome" where
  "allow_range D self base_ipa sz attributes =
     (case allow_range_checks self base_ipa sz of
        Inl e \<Rightarrow> Done (Inl e, self)
      | Inr (rng, start, end) \<Rightarrow>
          (let (mapped, idmap) = idmap_map_range D (sb_idmap self) start end attributes;
               self = self\<lparr>sb_idmap := idmap\<rparr>
           in case mapped of
                Inl e \<Rightarrow> Done (Inl (MapRange e), self)
              | Inr _ \<Rightarrow> and_then (track_allowed_range D self rng) (\<lambda>self. Done (Inr (), self))))"

definition handle_range ::
  "('s, 'idmap, 'me, 'attr) stage2_deps \<Rightarrow> ('s, 'idmap) Stage2Builder \<Rightarrow> u64 \<Rightarrow> usize \<Rightarrow>
   's MemoryAccessHandler \<Rightarrow> (('me Stage2ConfigError + unit) \<times> ('s, 'idmap) Stage2Builder) outcome" where
  "handle_range D self base_ipa sz handler =
     (case question (stage2_range_new base_ipa sz) (\<lambda>rng.
           question (check_no_allowed_overlap self rng) (\<lambda>_. Inr rng)) of
        Inl e \<Rightarrow> Done (Inl e, self)
      | Inr rng \<Rightarrow>
          and_then (registry_register D (sb_memory_access_handlers self) (region_new rng handler))
            (\<lambda>(r, handlers). Done (r, self\<lparr>sb_memory_access_handlers := handlers\<rparr>)))"

definition builder_build :: "('s, 'idmap) Stage2Builder \<Rightarrow> ('s, 'idmap) Stage2Config" where
  "builder_build self =
     \<lparr>sc_idmap = sb_idmap self, sc_memory_access_handlers = sb_memory_access_handlers self\<rparr>"

section \<open>Well-formed ranges\<close>

definition range_wf :: "Stage2Range \<Rightarrow> bool" where
  "range_wf r \<longleftrightarrow> page_aligned (s2r_base_ipa r) \<and> page_aligned (s2r_end_ipa r) \<and> s2r_size r \<noteq> 0 \<and>
     unat (s2r_end_ipa r) = unat (s2r_base_ipa r) + unat (s2r_size r)"

definition covers :: "Stage2Range \<Rightarrow> u64 set" where
  "covers r = {s2r_base_ipa r ..< s2r_end_ipa r}"

definition region_range :: "'s MemoryAccessRegion \<Rightarrow> Stage2Range" where
  "region_range region =
     \<lparr>s2r_base_ipa = mar_base_ipa region, s2r_size = mar_size region, s2r_end_ipa = mar_end_ipa region\<rparr>"

lemma region_range_sel [simp]:
  "s2r_base_ipa (region_range R) = mar_base_ipa R" "s2r_size (region_range R) = mar_size R"
  "s2r_end_ipa (region_range R) = mar_end_ipa R"
  by (simp_all add: region_range_def)

lemma region_range_new [simp]: "region_range (region_new r h) = r"
  by (simp add: region_range_def region_new_def)

lemma page_aligned_unat: "page_aligned a \<longleftrightarrow> unat a mod 4096 = 0"
  by (simp add: page_aligned_def word_unat_eq_iff unat_mod)

lemma is_multiple_of_page:
  "is_multiple_of a STAGE2_PAGE_SIZE = page_aligned a" "is_multiple_of a PAGE_SIZE = page_aligned a"
  by (simp_all add: is_multiple_of_def STAGE2_PAGE_SIZE_def PAGE_SIZE_def page_aligned_def)

lemma page_aligned_plus:
  "page_aligned a \<Longrightarrow> page_aligned b \<Longrightarrow> unat a + unat b < 2 ^ 64 \<Longrightarrow> page_aligned (a + b)"
  by (simp add: page_aligned_unat unat_plus_no_overflow mod_add_eq [symmetric])

lemma checked_range_end_eq:
  "checked_range_end base_ipa sz =
     (if unat base_ipa + unat sz < 2 ^ 64 then Inr (base_ipa + sz) else Inl RangeEndOverflow)"
  by (simp add: checked_range_end_def checked_add_def)

lemma stage2_range_new_eq:
  "stage2_range_new base_ipa sz =
     (if \<not> page_aligned base_ipa then Inl RangeBaseNotPageAligned
      else if sz = 0 then Inl EmptyRange
      else if \<not> page_aligned sz then Inl RangeSizeNotPageMultiple
      else if 2 ^ 64 \<le> unat base_ipa + unat sz then Inl RangeEndOverflow
      else Inr \<lparr>s2r_base_ipa = base_ipa, s2r_size = sz, s2r_end_ipa = base_ipa + sz\<rparr>)"
  by (simp add: stage2_range_new_def validate_range_def is_multiple_of_page checked_range_end_eq)

lemma stage2_range_new_Inr:
  assumes "stage2_range_new base_ipa sz = Inr r"
  shows "range_wf r" and "s2r_base_ipa r = base_ipa" and "s2r_size r = sz"
    and "s2r_end_ipa r = base_ipa + sz"
  using assms
  by (auto simp: stage2_range_new_eq range_wf_def unat_plus_no_overflow page_aligned_plus split: if_splits)

lemma range_wf_less: "range_wf r \<Longrightarrow> s2r_base_ipa r < s2r_end_ipa r"
  by (auto simp: range_wf_def word_less_nat_alt unat_gt_0)

lemma covers_nonempty: "range_wf r \<Longrightarrow> covers r \<noteq> {}"
  using range_wf_less [of r] by (force simp: covers_def)

lemma range_overlaps_iff:
  "range_wf a \<Longrightarrow> range_wf b \<Longrightarrow> range_overlaps a b \<longleftrightarrow> covers a \<inter> covers b \<noteq> {}"
  using range_wf_less [of a] range_wf_less [of b]
  by (auto simp: range_overlaps_def page_ranges_overlap_def covers_def disjoint_iff not_less not_le
      intro: le_less_trans less_le_trans)

lemma range_overlaps_order:
  "range_wf a \<Longrightarrow> range_wf b \<Longrightarrow>
   \<not> range_overlaps a b \<longleftrightarrow> s2r_end_ipa a \<le> s2r_base_ipa b \<or> s2r_end_ipa b \<le> s2r_base_ipa a"
  using range_wf_less [of a] range_wf_less [of b]
  by (auto simp: range_overlaps_def page_ranges_overlap_def)

lemma region_end_ipa_wf:
  "range_wf (region_range R) \<Longrightarrow> region_end_ipa R = mar_end_ipa R"
  using unat_u64_less [of "mar_end_ipa R"]
  by (auto simp: region_end_ipa_def checked_range_end_eq range_wf_def word_unat_eq_iff
      unat_plus_no_overflow)

section \<open>The registry is a sorted list of disjoint regions\<close>

definition registry_inv :: "'s MemoryAccessHandlerRegistry \<Rightarrow> bool" where
  "registry_inv reg \<longleftrightarrow>
     length (reg_regions reg) \<le> MAX_MEMORY_ACCESS_HANDLERS \<and>
     (\<forall>R\<in>set (reg_regions reg). range_wf (region_range R)) \<and>
     sorted_wrt (\<lambda>A B. mar_end_ipa A \<le> mar_base_ipa B) (reg_regions reg)"

definition handled_by :: "'s MemoryAccessHandlerRegistry \<Rightarrow> u64 set" where
  "handled_by reg = (\<Union>R\<in>set (reg_regions reg). covers (region_range R))"

text \<open>The linear search the binary search stands for.\<close>

definition region_covering :: "'s MemoryAccessHandlerRegistry \<Rightarrow> u64 \<Rightarrow> 's MemoryAccessRegion option" where
  "region_covering reg ipa = List.find (\<lambda>R. mar_base_ipa R \<le> ipa \<and> ipa < mar_end_ipa R) (reg_regions reg)"

lemma registry_new_inv: "registry_inv registry_new"
  by (simp add: registry_inv_def registry_new_def)

lemma handled_by_new [simp]: "handled_by registry_new = {}"
  by (simp add: handled_by_def registry_new_def)

lemma registry_regions_ordered:
  assumes "registry_inv reg" and "i < j" and "j < length (reg_regions reg)"
  shows "mar_end_ipa (reg_regions reg ! i) \<le> mar_base_ipa (reg_regions reg ! j)"
  using assms sorted_wrt_nth_less [of "\<lambda>A B. mar_end_ipa A \<le> mar_base_ipa B" "reg_regions reg" i j]
  by (simp add: registry_inv_def)

lemma registry_region_less:
  assumes "registry_inv reg" and "R \<in> set (reg_regions reg)"
  shows "mar_base_ipa R < mar_end_ipa R"
  using assms range_wf_less [of "region_range R"] by (simp add: registry_inv_def)

lemma region_covering_unique:
  assumes inv: "registry_inv reg" and i: "i < length (reg_regions reg)"
    and R: "R = reg_regions reg ! i" and ipa: "mar_base_ipa R \<le> ipa" "ipa < mar_end_ipa R"
  shows "region_covering reg ipa = Some R"
proof -
  have "\<not> (mar_base_ipa (reg_regions reg ! j) \<le> ipa \<and> ipa < mar_end_ipa (reg_regions reg ! j))" if "j < i" for j
    using registry_regions_ordered [OF inv that i] ipa R by auto
  then show ?thesis
    using i R ipa unfolding region_covering_def find_Some_iff by blast
qed

definition find_ordering :: "u64 \<Rightarrow> 's MemoryAccessRegion \<Rightarrow> ordering" where
  "find_ordering ipa R =
     (if ipa < mar_base_ipa R then Greater else if region_end_ipa R \<le> ipa then Less else Equal)"

lemma find_ordering_Equal:
  "registry_inv reg \<Longrightarrow> R \<in> set (reg_regions reg) \<Longrightarrow>
   find_ordering ipa R = Equal \<longleftrightarrow> mar_base_ipa R \<le> ipa \<and> ipa < mar_end_ipa R"
  by (auto simp: find_ordering_def registry_inv_def region_end_ipa_wf)

lemma find_ordering_sorted:
  assumes inv: "registry_inv reg"
  shows "sorted (map (find_ordering ipa) (reg_regions reg))"
proof (unfold sorted_wrt_map, rule sorted_wrt_mono_rel)
  show "sorted_wrt (\<lambda>A B. mar_end_ipa A \<le> mar_base_ipa B) (reg_regions reg)"
    using inv by (simp add: registry_inv_def)
next
  fix A B assume A: "A \<in> set (reg_regions reg)" and B: "B \<in> set (reg_regions reg)"
    and le: "mar_end_ipa A \<le> mar_base_ipa B"
  have "region_end_ipa A = mar_end_ipa A" "region_end_ipa B = mar_end_ipa B"
    using inv A B by (simp_all add: registry_inv_def region_end_ipa_wf)
  then show "find_ordering ipa A \<le> find_ordering ipa B"
    using le registry_region_less [OF inv A] registry_region_less [OF inv B]
    by (auto simp: find_ordering_def)
qed

lemma registry_find_eq:
  assumes inv: "registry_inv reg"
  shows "registry_find pr reg ipa =
     Done (map_option (\<lambda>R. \<lparr>mhm_region = R, mhm_offset = ipa - mar_base_ipa R\<rparr>) (region_covering reg ipa))"
proof (cases "binary_search_by (find_ordering ipa) (reg_regions reg)")
  case (Inl i)
  have "\<not> (mar_base_ipa R \<le> ipa \<and> ipa < mar_end_ipa R)" if "R \<in> set (reg_regions reg)" for R
    using binary_search_by_complete [OF find_ordering_sorted [OF inv] that, of ipa] Inl
      find_ordering_Equal [OF inv that] by auto
  then have "region_covering reg ipa = None"
    by (simp add: region_covering_def find_None_iff)
  then show ?thesis
    using Inl by (simp add: registry_find_def find_ordering_def [abs_def])
next
  case (Inr i)
  let ?R = "reg_regions reg ! i"
  have i: "i < length (reg_regions reg)" and "find_ordering ipa ?R = Equal"
    using binary_search_by_Inr [OF Inr] by auto
  then have within: "mar_base_ipa ?R \<le> ipa" "ipa < mar_end_ipa ?R"
    using find_ordering_Equal [OF inv, of ?R ipa] by auto
  show ?thesis
    using Inr i within region_covering_unique [OF inv i refl within]
    by (simp add: registry_find_def find_ordering_def [abs_def] region_offset_of_def)
qed

lemma region_covering_None: "registry_inv reg \<Longrightarrow> region_covering reg ipa = None \<longleftrightarrow> ipa \<notin> handled_by reg"
  by (auto simp: region_covering_def find_None_iff handled_by_def covers_def)

section \<open>Registration\<close>

lemma stage2_deps_okD:
  assumes "stage2_deps_ok D maps"
  shows "maps (idmap_new D) = Map.empty"
    and "page_aligned s \<Longrightarrow> page_aligned e \<Longrightarrow> idmap_map_range D m s e a = (Inr (), m') \<Longrightarrow>
         maps m' = (\<lambda>x. if x \<in> {s..<e} then Some a else maps m x)"
    and "length xs < MAX_ALLOWED_RANGES \<Longrightarrow> ranges_push D xs x = Done (xs @ [x])"
    and "length ys < MAX_MEMORY_ACCESS_HANDLERS \<Longrightarrow> i \<le> length ys \<Longrightarrow>
         regions_insert D ys i y = Done (take i ys @ y # drop i ys)"
  using assms unfolding stage2_deps_ok_def by blast+

lemma insert_at_sorted:
  assumes inv: "registry_inv reg" and wf: "range_wf (region_range R)"
    and free: "\<And>E. E \<in> set (reg_regions reg) \<Longrightarrow> \<not> range_overlaps (region_range R) (region_range E)"
  defines "n \<equiv> partition_point (\<lambda>E. mar_base_ipa E < mar_base_ipa R) (reg_regions reg)"
  shows "n \<le> length (reg_regions reg)"
    and "sorted_wrt (\<lambda>A B. mar_end_ipa A \<le> mar_base_ipa B)
           (take n (reg_regions reg) @ R # drop n (reg_regions reg))"
proof -
  let ?xs = "reg_regions reg"
  have sorted: "sorted_wrt (\<lambda>A B. mar_end_ipa A \<le> mar_base_ipa B) ?xs"
    using inv by (simp add: registry_inv_def)
  have "sorted_wrt (\<lambda>a b. mar_base_ipa b < mar_base_ipa R \<longrightarrow> mar_base_ipa a < mar_base_ipa R) ?xs"
    using sorted by (rule sorted_wrt_mono_rel [rotated]) (use registry_region_less [OF inv] in fastforce)
  note split = partition_point_split [OF this, folded n_def]
  show "n \<le> length ?xs" by (rule split(1))
  have apart: "mar_end_ipa R \<le> mar_base_ipa E \<or> mar_end_ipa E \<le> mar_base_ipa R"
    if "E \<in> set ?xs" for E
    using free [OF that] range_overlaps_order [OF wf, of "region_range E"] inv that
    by (simp add: registry_inv_def)
  have less: "mar_base_ipa R < mar_end_ipa R" using range_wf_less [OF wf] by simp
  show "sorted_wrt (\<lambda>A B. mar_end_ipa A \<le> mar_base_ipa B) (take n ?xs @ R # drop n ?xs)"
  proof (rule sorted_wrt_insert_at [OF sorted])
    fix i assume i: "i < n" "i < length ?xs"
    show "mar_end_ipa (?xs ! i) \<le> mar_base_ipa R"
      using split(2) [OF i(1)] apart [OF nth_mem [OF i(2)]] less by auto
  next
    fix i assume i: "n \<le> i" "i < length ?xs"
    show "mar_end_ipa R \<le> mar_base_ipa (?xs ! i)"
      using split(3) [OF i] apart [OF nth_mem [OF i(2)]]
        registry_region_less [OF inv nth_mem [OF i(2)]] by auto
  qed
qed

lemma registry_register_cases:
  assumes ok: "stage2_deps_ok D maps" and inv: "registry_inv reg" and wf: "range_wf (region_range R)"
  obtains
    (full) "length (reg_regions reg) = MAX_MEMORY_ACCESS_HANDLERS"
      "registry_register D reg R = Done (Inl TooManyMemoryAccessHandlerRegions, reg)"
  | (overlap) "length (reg_regions reg) < MAX_MEMORY_ACCESS_HANDLERS"
      "covers (region_range R) \<inter> handled_by reg \<noteq> {}"
      "registry_register D reg R = Done (Inl MemoryAccessHandlerRangeOverlap, reg)"
  | (added) reg' where "length (reg_regions reg) < MAX_MEMORY_ACCESS_HANDLERS"
      "covers (region_range R) \<inter> handled_by reg = {}"
      "registry_register D reg R = Done (Inr (), reg')" "registry_inv reg'"
      "set (reg_regions reg') = insert R (set (reg_regions reg))"
proof -
  let ?overlap = "\<exists>E\<in>set (reg_regions reg). range_overlaps (region_range R) (region_range E)"
  have ov: "?overlap \<longleftrightarrow> covers (region_range R) \<inter> handled_by reg \<noteq> {}"
    using inv wf by (auto simp: range_overlaps_iff registry_inv_def handled_by_def)
  let ?n = "partition_point (\<lambda>E. mar_base_ipa E < mar_base_ipa R) (reg_regions reg)"
  let ?reg = "reg\<lparr>reg_regions := take ?n (reg_regions reg) @ R # drop ?n (reg_regions reg)\<rparr>"
  consider "MAX_MEMORY_ACCESS_HANDLERS \<le> length (reg_regions reg)"
    | "length (reg_regions reg) < MAX_MEMORY_ACCESS_HANDLERS" ?overlap
    | "length (reg_regions reg) < MAX_MEMORY_ACCESS_HANDLERS" "\<not> ?overlap"
    using not_le by blast
  then show thesis
  proof cases
    case 1
    then show thesis using full inv by (simp add: registry_register_def registry_inv_def)
  next
    case 2
    then show thesis using overlap ov by (simp add: registry_register_def range_overlaps_def)
  next
    case 3
    then have free: "\<And>E. E \<in> set (reg_regions reg) \<Longrightarrow> \<not> range_overlaps (region_range R) (region_range E)"
      by blast
    note ins = insert_at_sorted [OF inv wf free]
    have "registry_register D reg R = Done (Inr (), ?reg)"
      using 3 ins(1) by (simp add: registry_register_def range_overlaps_def stage2_deps_okD(4) [OF ok])
    moreover have "set (reg_regions ?reg) = insert R (set (reg_regions reg))"
      using set_insert_at [of ?n "reg_regions reg" R] by simp
    moreover have "registry_inv ?reg"
      using inv wf ins 3 calculation(2) by (auto simp: registry_inv_def length_insert_at)
    ultimately show thesis using added 3 ov by blast
  qed
qed

text \<open>
  What the builder relies on: registering a range either fails and changes nothing, or adds
  exactly that range, which was free.
\<close>

locale handler_registry =
  fixes valid :: "'r \<Rightarrow> bool"
    and handled :: "'r \<Rightarrow> u64 set"
    and add :: "'r \<Rightarrow> Stage2Range \<Rightarrow> 'h \<Rightarrow> (('e + unit) \<times> 'r) outcome"
  assumes add_total: "valid r \<Longrightarrow> range_wf g \<Longrightarrow> \<exists>res. add r g h = Done res"
    and add_error: "valid r \<Longrightarrow> range_wf g \<Longrightarrow> add r g h = Done (Inl e, r') \<Longrightarrow> r' = r"
    and add_ok: "valid r \<Longrightarrow> range_wf g \<Longrightarrow> add r g h = Done (Inr (), r') \<Longrightarrow>
      valid r' \<and> covers g \<inter> handled r = {} \<and> handled r' = handled r \<union> covers g"
begin

lemma add_valid: "valid r \<Longrightarrow> range_wf g \<Longrightarrow> add r g h = Done (x, r') \<Longrightarrow> valid r'"
  using add_error [of r g h _ r'] add_ok [of r g h r'] by (cases x) (auto simp: unit_eq)

lemma add_keeps_apart:
  assumes "valid r" and "range_wf g" and "add r g h = Done (x, r')"
    and "A \<inter> handled r = {}" and "A \<inter> covers g = {}"
  shows "A \<inter> handled r' = {}"
proof (cases x)
  case (Inl e)
  then show ?thesis using assms add_error [of r g h e r'] by simp
next
  case (Inr u)
  then show ?thesis using assms add_ok [of r g h r'] by auto
qed

lemma add_mono: "valid r \<Longrightarrow> range_wf g \<Longrightarrow> add r g h = Done (x, r') \<Longrightarrow> handled r \<subseteq> handled r'"
  using add_error [of r g h _ r'] add_ok [of r g h r'] by (cases x) auto

end

interpretation registry: handler_registry
  "\<lambda>reg. stage2_deps_ok D maps \<and> registry_inv reg" handled_by
  "\<lambda>reg g h. registry_register D reg (region_new g h)"
  for D :: "('s, 'idmap, 'me, 'attr) stage2_deps" and maps
proof (unfold_locales, goal_cases)
  case (1 r g h)
  then show ?case using registry_register_cases [of D maps r "region_new g h"] by (metis region_range_new)
next
  case (2 r g h e r')
  then show ?case by (auto elim: registry_register_cases [of D maps r "region_new g h"])
next
  case (3 r g h r')
  then show ?case
    by (auto elim!: registry_register_cases [of D maps r "region_new g h"] simp: handled_by_def disjoint_iff)
qed

section \<open>The builder\<close>

definition allowed_set :: "('s, 'idmap) Stage2Builder \<Rightarrow> u64 set" where
  "allowed_set b = (\<Union>r\<in>set (sb_allowed_ranges b). covers r)"

text \<open>
  What every call keeps of the builder's own tables: allowed ranges are disjoint from each
  other and from the handled ones.
\<close>

definition builder_wf :: "('s, 'idmap) Stage2Builder \<Rightarrow> bool" where
  "builder_wf b \<longleftrightarrow>
     length (sb_allowed_ranges b) \<le> MAX_ALLOWED_RANGES \<and>
     (\<forall>r\<in>set (sb_allowed_ranges b). range_wf r) \<and>
     sorted_wrt (\<lambda>r r'. covers r \<inter> covers r' = {}) (sb_allowed_ranges b) \<and>
     registry_inv (sb_memory_access_handlers b) \<and>
     allowed_set b \<inter> handled_by (sb_memory_access_handlers b) = {}"

text \<open>
  The page table agrees with them except on the addresses \<open>F\<close>, the ranges whose mapping failed;
  with none of those, the allowed ranges are exactly what the page table maps.
\<close>

definition builder_maps ::
  "('idmap \<Rightarrow> u64 \<Rightarrow> 'attr option) \<Rightarrow> u64 set \<Rightarrow> ('s, 'idmap) Stage2Builder \<Rightarrow> bool" where
  "builder_maps maps F b \<longleftrightarrow>
     allowed_set b \<subseteq> dom (maps (sb_idmap b)) \<and> dom (maps (sb_idmap b)) \<subseteq> allowed_set b \<union> F"

definition builder_inv :: "('idmap \<Rightarrow> u64 \<Rightarrow> 'attr option) \<Rightarrow> ('s, 'idmap) Stage2Builder \<Rightarrow> bool" where
  "builder_inv maps b \<longleftrightarrow> builder_wf b \<and> dom (maps (sb_idmap b)) = allowed_set b"

lemma builder_inv_wf: "builder_inv maps b \<Longrightarrow> builder_wf b"
  by (simp add: builder_inv_def)

lemma builder_inv_iff: "builder_inv maps b \<longleftrightarrow> builder_wf b \<and> builder_maps maps {} b"
  by (auto simp: builder_inv_def builder_maps_def)

lemma builder_new_wf: "builder_wf (builder_new D)"
  by (simp add: builder_wf_def builder_new_def registry_new_inv allowed_set_def)

lemma builder_new_inv: "stage2_deps_ok D maps \<Longrightarrow> builder_inv maps (builder_new D)"
  using builder_new_wf by (simp add: builder_inv_def) (simp add: builder_new_def allowed_set_def stage2_deps_okD(1))

lemma check_no_allowed_overlap_iff:
  assumes "builder_wf b" and "range_wf r"
  shows "check_no_allowed_overlap b r =
     (if covers r \<inter> allowed_set b \<noteq> {} then Inl AllowedRangeOverlap else Inr ())"
  using assms by (auto simp: check_no_allowed_overlap_def builder_wf_def range_overlaps_iff allowed_set_def)

lemma region_overlaps_range_iff:
  assumes "registry_inv reg" and "R \<in> set (reg_regions reg)" and "range_wf r"
  shows "region_overlaps_range R r \<longleftrightarrow> covers (region_range R) \<inter> covers r \<noteq> {}"
proof -
  have "region_overlaps_range R r = range_overlaps (region_range R) r"
    by (simp add: region_overlaps_range_def range_overlaps_def)
  then show ?thesis
    using assms by (simp add: range_overlaps_iff registry_inv_def)
qed

lemma check_no_registered_overlap_iff:
  assumes "builder_wf b" and "range_wf r"
  shows "check_no_registered_overlap b r =
     (if covers r \<inter> handled_by (sb_memory_access_handlers b) \<noteq> {}
      then Inl AllowedRangeOverlapsMemoryAccessHandler else Inr ())"
proof -
  have inv: "registry_inv (sb_memory_access_handlers b)" using assms(1) by (simp add: builder_wf_def)
  have "(\<exists>R\<in>set (reg_regions (sb_memory_access_handlers b)). region_overlaps_range R r) \<longleftrightarrow>
        covers r \<inter> handled_by (sb_memory_access_handlers b) \<noteq> {}"
    using region_overlaps_range_iff [OF inv _ assms(2)] by (auto simp: handled_by_def)
  then show ?thesis by (simp add: check_no_registered_overlap_def)
qed

text \<open>The checks of \<open>allow_range\<close>, read over address sets.\<close>

lemma allow_range_checks_eq:
  assumes "builder_wf b"
  shows "(allow_range_checks b base_ipa sz :: 'me Stage2ConfigError + Stage2Range \<times> usize \<times> usize) =
     (case stage2_range_new base_ipa sz of
        Inl e \<Rightarrow> Inl e
      | Inr r \<Rightarrow>
          if length (sb_allowed_ranges b) = MAX_ALLOWED_RANGES then Inl TooManyAllowedRanges
          else if covers r \<inter> allowed_set b \<noteq> {} then Inl AllowedRangeOverlap
          else if covers r \<inter> handled_by (sb_memory_access_handlers b) \<noteq> {}
               then Inl AllowedRangeOverlapsMemoryAccessHandler
          else Inr (r, base_ipa, base_ipa + sz))"
proof (cases "stage2_range_new base_ipa sz :: 'me Stage2ConfigError + Stage2Range")
  case (Inl e)
  then show ?thesis by (simp add: allow_range_checks_def)
next
  case (Inr r)
  note wf = stage2_range_new_Inr [OF Inr]
  have full: "MAX_ALLOWED_RANGES \<le> length (sb_allowed_ranges b) \<longleftrightarrow> length (sb_allowed_ranges b) = MAX_ALLOWED_RANGES"
    using assms by (auto simp: builder_wf_def)
  show ?thesis
    using Inr wf(4)
    by (simp add: allow_range_checks_def check_allowed_range_capacity_def full
        check_no_allowed_overlap_iff [OF assms wf(1)] check_no_registered_overlap_iff [OF assms wf(1)])
qed

lemma allow_range_ok:
  fixes D :: "('s, 'idmap, 'me, 'attr) stage2_deps"
  assumes ok: "stage2_deps_ok D maps" and inv: "builder_wf b"
    and call: "allow_range D b base_ipa sz a = Done (Inr (), b')"
  obtains r where "stage2_range_new base_ipa sz = (Inr r :: 'me Stage2ConfigError + Stage2Range)"
    and "length (sb_allowed_ranges b) < MAX_ALLOWED_RANGES"
    and "covers r \<inter> allowed_set b = {}" and "covers r \<inter> handled_by (sb_memory_access_handlers b) = {}"
    and "sb_allowed_ranges b' = sb_allowed_ranges b @ [r]"
    and "sb_memory_access_handlers b' = sb_memory_access_handlers b"
    and "maps (sb_idmap b') = (\<lambda>x. if x \<in> covers r then Some a else maps (sb_idmap b) x)"
proof -
  obtain r where checks: "(allow_range_checks b base_ipa sz :: 'me Stage2ConfigError + _) = Inr (r, base_ipa, base_ipa + sz)"
    and new: "(stage2_range_new base_ipa sz :: 'me Stage2ConfigError + _) = Inr r"
    and free: "length (sb_allowed_ranges b) \<noteq> MAX_ALLOWED_RANGES" "covers r \<inter> allowed_set b = {}"
      "covers r \<inter> handled_by (sb_memory_access_handlers b) = {}"
    using call unfolding allow_range_def allow_range_checks_eq [OF inv]
    by (auto split: sum.splits if_splits)
  have len: "length (sb_allowed_ranges b) < MAX_ALLOWED_RANGES"
    using free(1) inv by (simp add: builder_wf_def)
  obtain m where m: "idmap_map_range D (sb_idmap b) base_ipa (base_ipa + sz) a = (Inr (), m)"
    and b': "b' = b\<lparr>sb_idmap := m, sb_allowed_ranges := sb_allowed_ranges b @ [r]\<rparr>"
    using call checks stage2_deps_okD(3) [OF ok len]
    by (auto simp: allow_range_def track_allowed_range_def Let_def split: sum.splits prod.splits)
  note wf = stage2_range_new_Inr [OF new]
  have "page_aligned base_ipa" "page_aligned (base_ipa + sz)" using wf by (auto simp: range_wf_def)
  then have "maps m = (\<lambda>x. if x \<in> covers r then Some a else maps (sb_idmap b) x)"
    using stage2_deps_okD(2) [OF ok _ _ m] wf by (simp add: covers_def)
  then show thesis using that new len free b' by simp
qed

lemma allow_range_keeps:
  fixes D :: "('s, 'idmap, 'me, 'attr) stage2_deps"
  assumes ok: "stage2_deps_ok D maps" and inv: "builder_wf b"
    and call: "allow_range D b base_ipa sz a = Done (Inr (), b')"
  shows "builder_wf b'" and "builder_maps maps F b \<Longrightarrow> builder_maps maps F b'"
proof -
  obtain r where new: "stage2_range_new base_ipa sz = (Inr r :: 'me Stage2ConfigError + Stage2Range)"
    and free: "length (sb_allowed_ranges b) < MAX_ALLOWED_RANGES"
      "covers r \<inter> allowed_set b = {}" "covers r \<inter> handled_by (sb_memory_access_handlers b) = {}"
    and b': "sb_allowed_ranges b' = sb_allowed_ranges b @ [r]"
      "sb_memory_access_handlers b' = sb_memory_access_handlers b"
      "maps (sb_idmap b') = (\<lambda>x. if x \<in> covers r then Some a else maps (sb_idmap b) x)"
    by (rule allow_range_ok [OF ok inv call])
  have set': "allowed_set b' = covers r \<union> allowed_set b" by (auto simp: allowed_set_def b')
  have "dom (maps (sb_idmap b')) = covers r \<union> dom (maps (sb_idmap b))"
    unfolding b' by (auto simp: dom_def)
  moreover have "\<forall>x\<in>set (sb_allowed_ranges b). covers x \<inter> covers r = {}"
    using free(2) by (auto simp: allowed_set_def)
  moreover have "(covers r \<union> allowed_set b) \<inter> handled_by (sb_memory_access_handlers b) = {}"
    using inv free(3) by (simp add: builder_wf_def Int_Un_distrib2)
  ultimately show "builder_wf b'" and "builder_maps maps F b \<Longrightarrow> builder_maps maps F b'"
    using inv free(1) stage2_range_new_Inr(1) [OF new] set'
    by (simp_all add: builder_wf_def builder_maps_def b'(1,2) sorted_wrt_append) blast
qed

lemma allow_range_inv:
  assumes "stage2_deps_ok D maps" and "builder_inv maps b" and "allow_range D b base_ipa sz a = Done (Inr (), b')"
  shows "builder_inv maps b'"
  using allow_range_keeps [OF assms(1) _ assms(3)] assms(2) by (simp add: builder_inv_iff)

text \<open>A failed call returns the builder it was given, unless the page table itself failed.\<close>

lemma allow_range_error:
  "allow_range D b base_ipa sz a = Done (Inl e, b') \<Longrightarrow> (\<And>me. e \<noteq> MapRange me) \<Longrightarrow> b' = b"
  by (auto simp: allow_range_def Let_def split: sum.splits prod.splits)

lemma allow_range_map_error:
  fixes D :: "('s, 'idmap, 'me, 'attr) stage2_deps"
  assumes inv: "builder_wf b" and call: "allow_range D b base_ipa sz a = Done (Inl (MapRange e), b')"
  obtains r m where "stage2_range_new base_ipa sz = (Inr r :: 'me Stage2ConfigError + Stage2Range)"
    and "covers r = {base_ipa ..< base_ipa + sz}" and "covers r \<inter> allowed_set b = {}"
    and "idmap_map_range D (sb_idmap b) base_ipa (base_ipa + sz) a = (Inl e, m)" and "b' = b\<lparr>sb_idmap := m\<rparr>"
proof -
  have "\<exists>r m. stage2_range_new base_ipa sz = (Inr r :: 'me Stage2ConfigError + Stage2Range) \<and>
      covers r \<inter> allowed_set b = {} \<and>
      idmap_map_range D (sb_idmap b) base_ipa (base_ipa + sz) a = (Inl e, m) \<and> b' = b\<lparr>sb_idmap := m\<rparr>"
    using call unfolding allow_range_def allow_range_checks_eq [OF inv]
    by (auto simp: Let_def stage2_range_new_eq track_allowed_range_def
        split: sum.splits if_splits prod.splits outcome.splits)
  then obtain r m where r: "stage2_range_new base_ipa sz = (Inr r :: 'me Stage2ConfigError + Stage2Range)"
    and m: "covers r \<inter> allowed_set b = {}"
      "idmap_map_range D (sb_idmap b) base_ipa (base_ipa + sz) a = (Inl e, m)" "b' = b\<lparr>sb_idmap := m\<rparr>"
    by (elim exE conjE) (rule that)
  have "covers r = {base_ipa ..< base_ipa + sz}" using stage2_range_new_Inr [OF r] by (simp add: covers_def)
  then show thesis using that r m by blast
qed

lemma allow_range_total:
  fixes D :: "('s, 'idmap, 'me, 'attr) stage2_deps"
  assumes ok: "stage2_deps_ok D maps" and inv: "builder_wf b"
  shows "\<exists>res. allow_range D b base_ipa sz a = Done res"
proof (cases "allow_range_checks b base_ipa sz :: 'me Stage2ConfigError + _")
  case (Inl e)
  then show ?thesis by (simp add: allow_range_def)
next
  case (Inr x)
  then have "length (sb_allowed_ranges b) < MAX_ALLOWED_RANGES"
    using inv unfolding allow_range_checks_eq [OF inv] by (auto simp: builder_wf_def split: sum.splits if_splits)
  then show ?thesis
    using Inr stage2_deps_okD(3) [OF ok]
    by (auto simp: allow_range_def track_allowed_range_def Let_def split: sum.splits prod.splits)
qed

lemma handle_range_cases:
  fixes D :: "('s, 'idmap, 'me, 'attr) stage2_deps"
  assumes inv: "builder_wf b"
  obtains (rejected) e where "handle_range D b base_ipa sz h = Done (Inl e, b)"
  | (registered) r where "stage2_range_new base_ipa sz = (Inr r :: 'me Stage2ConfigError + Stage2Range)"
      and "covers r \<inter> allowed_set b = {}"
      and "handle_range D b base_ipa sz h =
        and_then (registry_register D (sb_memory_access_handlers b) (region_new r h))
          (\<lambda>(x, reg). Done (x, b\<lparr>sb_memory_access_handlers := reg\<rparr>))"
proof (cases "stage2_range_new base_ipa sz :: 'me Stage2ConfigError + Stage2Range")
  case (Inl e)
  then show thesis using rejected by (simp add: handle_range_def)
next
  case (Inr r)
  then show thesis
    using rejected registered [OF Inr]
    by (cases "covers r \<inter> allowed_set b = {}")
      (simp_all add: handle_range_def check_no_allowed_overlap_iff [OF inv stage2_range_new_Inr(1) [OF Inr]])
qed

lemma handle_range_total:
  fixes D :: "('s, 'idmap, 'me, 'attr) stage2_deps"
  assumes ok: "stage2_deps_ok D maps" and inv: "builder_wf b"
  shows "\<exists>res. handle_range D b base_ipa sz h = Done res"
proof (rule handle_range_cases [OF inv, of D base_ipa sz h])
  fix r
  assume new: "(stage2_range_new base_ipa sz :: 'me Stage2ConfigError + _) = Inr r"
    and eq: "handle_range D b base_ipa sz h =
        and_then (registry_register D (sb_memory_access_handlers b) (region_new r h))
          (\<lambda>(x, reg). Done (x, b\<lparr>sb_memory_access_handlers := reg\<rparr>))"
  have "stage2_deps_ok D maps \<and> registry_inv (sb_memory_access_handlers b)"
    using ok inv by (simp add: builder_wf_def)
  from registry.add_total [OF this stage2_range_new_Inr(1) [OF new], of h]
  show ?thesis unfolding eq by auto
qed auto

lemma handle_range_registers:
  fixes D :: "('s, 'idmap, 'me, 'attr) stage2_deps"
  assumes inv: "builder_wf b" and call: "handle_range D b base_ipa sz h = Done (x, b')"
  shows "b' = b \<or> (\<exists>r reg. stage2_range_new base_ipa sz = (Inr r :: 'me Stage2ConfigError + Stage2Range) \<and>
     covers r \<inter> allowed_set b = {} \<and>
     registry_register D (sb_memory_access_handlers b) (region_new r h) = Done (x, reg) \<and>
     b' = b\<lparr>sb_memory_access_handlers := reg\<rparr>)"
  by (rule handle_range_cases [OF inv, of D base_ipa sz h])
    (use call in \<open>auto simp: eq_commute [of "Done (x, b')"]\<close>)

lemma handle_range_keeps:
  assumes ok: "stage2_deps_ok D maps" and inv: "builder_wf b"
    and call: "handle_range D b base_ipa sz h = Done (x, b')"
  shows "builder_wf b'"
  using handle_range_registers [OF inv call]
proof (elim disjE exE conjE)
  fix r reg
  assume new: "stage2_range_new base_ipa sz = Inr r" and free: "covers r \<inter> allowed_set b = {}"
    and reg: "registry_register D (sb_memory_access_handlers b) (region_new r h) = Done (x, reg)"
    and b': "b' = b\<lparr>sb_memory_access_handlers := reg\<rparr>"
  have valid: "stage2_deps_ok D maps \<and> registry_inv (sb_memory_access_handlers b)"
    using ok inv by (simp add: builder_wf_def)
  note wf = stage2_range_new_Inr(1) [OF new]
  have "registry_inv reg" using registry.add_valid [OF valid wf reg] by simp
  moreover have "allowed_set b \<inter> handled_by reg = {}"
    using registry.add_keeps_apart [OF valid wf reg, of "allowed_set b"] inv free
    by (auto simp: builder_wf_def)
  ultimately show ?thesis
    using inv unfolding b' by (simp add: builder_wf_def allowed_set_def)
qed (simp_all add: inv)

lemma handle_range_page_table:
  "handle_range D b base_ipa sz h = Done (x, b') \<Longrightarrow>
   sb_idmap b' = sb_idmap b \<and> sb_allowed_ranges b' = sb_allowed_ranges b"
  by (auto simp: handle_range_def split: sum.splits)

lemma handle_range_inv:
  assumes "stage2_deps_ok D maps" and "builder_inv maps b" and "handle_range D b base_ipa sz h = Done (x, b')"
  shows "builder_inv maps b'"
  using handle_range_keeps [OF assms(1) _ assms(3)] handle_range_page_table [OF assms(3)] assms(2)
  by (simp add: builder_inv_def allowed_set_def)

lemma handle_range_error:
  assumes ok: "stage2_deps_ok D maps" and inv: "builder_wf b"
    and call: "handle_range D b base_ipa sz h = Done (Inl e, b')"
  shows "b' = b"
  using handle_range_registers [OF inv call]
proof (elim disjE exE conjE)
  fix r reg
  assume new: "stage2_range_new base_ipa sz = Inr r"
    and reg: "registry_register D (sb_memory_access_handlers b) (region_new r h) = Done (Inl e, reg)"
    and b': "b' = b\<lparr>sb_memory_access_handlers := reg\<rparr>"
  have "stage2_deps_ok D maps \<and> registry_inv (sb_memory_access_handlers b)"
    using ok inv by (simp add: builder_wf_def)
  from registry.add_error [OF this stage2_range_new_Inr(1) [OF new] reg] show ?thesis
    using b' by simp
qed simp

section \<open>Builders a platform can reach\<close>

text \<open>
  A platform calls \<open>allow_range\<close> and \<open>handle_range\<close> in any order with any arguments, and may
  go on after every error. \<open>builder_run D F b\<close>: the builder \<open>b\<close> is the result of such calls on
  a fresh one, and \<open>F\<close> collects the addresses of the ranges for which the page table reported
  a failure; \<open>allow_range\<close> forgets such a range.
\<close>

definition failed_mapping :: "'me Stage2ConfigError + unit \<Rightarrow> u64 \<Rightarrow> usize \<Rightarrow> u64 set" where
  "failed_mapping x base_ipa sz = (case x of Inl (MapRange _) \<Rightarrow> {base_ipa ..< base_ipa + sz} | _ \<Rightarrow> {})"

inductive builder_run ::
  "('s, 'idmap, 'me, 'attr) stage2_deps \<Rightarrow> u64 set \<Rightarrow> ('s, 'idmap) Stage2Builder \<Rightarrow> bool"
  for D where
  run_new: "builder_run D {} (builder_new D)"
| run_allow: "builder_run D F b \<Longrightarrow> allow_range D b base_ipa sz a = Done (x, b') \<Longrightarrow>
    builder_run D (F \<union> failed_mapping x base_ipa sz) b'"
| run_handle: "builder_run D F b \<Longrightarrow> handle_range D b base_ipa sz h = Done (x, b') \<Longrightarrow> builder_run D F b'"

abbreviation builder_reachable ::
  "('s, 'idmap, 'me, 'attr) stage2_deps \<Rightarrow> ('s, 'idmap) Stage2Builder \<Rightarrow> bool" where
  "builder_reachable D b \<equiv> builder_run D {} b"

lemma failed_mapping_simps [simp]:
  "failed_mapping (Inr u) base_ipa sz = {}"
  "failed_mapping (Inl (MapRange err)) base_ipa sz = {base_ipa ..< base_ipa + sz}"
  "(\<And>me. e \<noteq> MapRange me) \<Longrightarrow> failed_mapping (Inl e) base_ipa sz = {}"
  by (auto simp: failed_mapping_def split: Stage2ConfigError.split)

lemma reach_allow:
  "builder_run D F b \<Longrightarrow> allow_range D b base_ipa sz a = Done (Inr (), b') \<Longrightarrow> builder_run D F b'"
  using run_allow [of D F b base_ipa sz a "Inr ()" b'] by simp

text \<open>
  Documented behaviour of the page table on an error: a failed \<open>map_range\<close> may have mapped part
  of its range, but changes no translation outside it.
\<close>

definition map_range_confined ::
  "('s, 'idmap, 'me, 'attr) stage2_deps \<Rightarrow> ('idmap \<Rightarrow> u64 \<Rightarrow> 'attr option) \<Rightarrow> bool" where
  "map_range_confined D maps \<longleftrightarrow>
     (\<forall>m s e a err m' x. idmap_map_range D m s e a = (Inl err, m') \<longrightarrow> x \<notin> {s..<e} \<longrightarrow> maps m' x = maps m x)"

lemma allow_range_cases:
  assumes "allow_range D b base_ipa sz a = Done (x, b')"
  obtains (ok) "x = Inr ()" | (map_error) e where "x = Inl (MapRange e)"
  | (rejected) e where "x = Inl e" "\<And>me. e \<noteq> MapRange me" "b' = b"
proof (cases x)
  case (Inl e)
  show thesis
  proof (cases "\<exists>me. e = MapRange me")
    case True
    then show thesis using map_error Inl by blast
  next
    case False
    then have no: "\<And>me. e \<noteq> MapRange me" by blast
    have "b' = b" using assms unfolding Inl by (rule allow_range_error) (rule no)
    then show thesis using rejected [OF Inl no] by blast
  qed
qed (simp add: ok)

lemma allow_range_wf:
  assumes ok: "stage2_deps_ok D maps" and inv: "builder_wf b"
    and call: "allow_range D b base_ipa sz a = Done (x, b')"
  shows "builder_wf b'"
  using call
proof (cases rule: allow_range_cases)
  case ok
  then show ?thesis using allow_range_keeps(1) [OF assms(1) inv] call by simp
next
  case (map_error e)
  obtain m where "b' = b\<lparr>sb_idmap := m\<rparr>"
    by (rule allow_range_map_error [OF inv call [unfolded map_error]]) (rule that)
  then show ?thesis using inv by (simp add: builder_wf_def allowed_set_def)
qed (simp add: inv)

lemma builder_run_wf:
  assumes "stage2_deps_ok D maps" and "builder_run D F b"
  shows "builder_wf b"
  using assms(2)
  by induction (auto intro: builder_new_wf allow_range_wf [OF assms(1)] handle_range_keeps [OF assms(1)])

lemma allow_range_maps:
  fixes D :: "('s, 'idmap, 'me, 'attr) stage2_deps"
  assumes ok: "stage2_deps_ok D maps" and inv: "builder_wf b" and maps: "builder_maps maps F b"
    and call: "allow_range D b base_ipa sz a = Done (x, b')"
    and confined: "map_range_confined D maps \<or> failed_mapping x base_ipa sz = {}"
  shows "builder_maps maps (F \<union> failed_mapping x base_ipa sz) b'"
  using call
proof (cases rule: allow_range_cases)
  case ok
  then show ?thesis using allow_range_keeps(2) [OF assms(1) inv] call maps by simp
next
  case (map_error e)
  obtain r m where r: "stage2_range_new base_ipa sz = (Inr r :: 'me Stage2ConfigError + _)" "covers r = {base_ipa ..< base_ipa + sz}"
      "covers r \<inter> allowed_set b = {}"
    and m: "idmap_map_range D (sb_idmap b) base_ipa (base_ipa + sz) a = (Inl e, m)" "b' = b\<lparr>sb_idmap := m\<rparr>"
    by (rule allow_range_map_error [OF inv call [unfolded map_error]]) (rule that)
  have "failed_mapping x base_ipa sz = covers r" using map_error r by simp
  then have "map_range_confined D maps"
    using confined covers_nonempty [OF stage2_range_new_Inr(1) [OF r(1)]] by simp
  then have same: "x \<notin> covers r \<Longrightarrow> maps m x = maps (sb_idmap b) x" for x
    using m(1) unfolding map_range_confined_def r(2) by blast
  have "allowed_set b' = allowed_set b" by (simp add: m allowed_set_def)
  moreover have "allowed_set b \<subseteq> dom (maps m)"
    using maps r(3) same by (fastforce simp: builder_maps_def dom_def)
  moreover have "dom (maps m) \<subseteq> allowed_set b \<union> (F \<union> covers r)"
    using maps same by (fastforce simp: builder_maps_def dom_def)
  ultimately show ?thesis
    using \<open>failed_mapping x base_ipa sz = covers r\<close> by (simp add: builder_maps_def m(2))
qed (use maps in simp)

lemma handle_range_maps:
  "handle_range D b base_ipa sz h = Done (x, b') \<Longrightarrow> builder_maps maps F b \<Longrightarrow> builder_maps maps F b'"
  by (drule handle_range_page_table) (simp add: builder_maps_def allowed_set_def)

lemma builder_run_maps:
  assumes ok: "stage2_deps_ok D maps" and "builder_run D F b" and "map_range_confined D maps \<or> F = {}"
  shows "builder_maps maps F b"
  using assms(2,3)
proof induction
  case run_new
  then show ?case using builder_new_inv [OF ok] by (simp add: builder_inv_iff)
next
  case (run_allow F b base_ipa sz a x b')
  then show ?case using allow_range_maps [OF ok builder_run_wf [OF ok run_allow(1)]] by blast
next
  case (run_handle F b base_ipa sz h x b')
  then show ?case using handle_range_maps by blast
qed

lemma builder_reachable_inv:
  assumes "stage2_deps_ok D maps" and "builder_reachable D b"
  shows "builder_inv maps b"
  using builder_run_wf [OF assms] builder_run_maps [OF assms] by (simp add: builder_inv_iff)

lemma region_covering_Some:
  assumes inv: "registry_inv reg"
  shows "region_covering reg ipa = Some R \<longleftrightarrow> R \<in> set (reg_regions reg) \<and> ipa \<in> covers (region_range R)"
proof
  assume "region_covering reg ipa = Some R"
  then show "R \<in> set (reg_regions reg) \<and> ipa \<in> covers (region_range R)"
    by (auto simp: region_covering_def find_Some_iff covers_def)
next
  assume R: "R \<in> set (reg_regions reg) \<and> ipa \<in> covers (region_range R)"
  then obtain i where i: "i < length (reg_regions reg)" "R = reg_regions reg ! i"
    unfolding in_set_conv_nth by blast
  show "region_covering reg ipa = Some R"
    using R by (simp add: region_covering_unique [OF inv i] covers_def)
qed

lemma region_covering_register:
  assumes inv: "registry_inv reg" and inv': "registry_inv reg'"
    and set': "set (reg_regions reg') = insert R (set (reg_regions reg))"
  shows "region_covering reg' ipa = (if ipa \<in> covers (region_range R) then Some R else region_covering reg ipa)"
proof (cases "ipa \<in> covers (region_range R)")
  case True
  then show ?thesis by (simp add: region_covering_Some [OF inv'] set')
next
  case False
  have same: "region_covering reg' ipa = Some X \<longleftrightarrow> region_covering reg ipa = Some X" for X
    unfolding region_covering_Some [OF inv'] region_covering_Some [OF inv] set' using False by blast
  show ?thesis
    using False same [of "the (region_covering reg' ipa)"] same [of "the (region_covering reg ipa)"]
    by (cases "region_covering reg' ipa"; cases "region_covering reg ipa") simp_all
qed

section \<open>Page rounding\<close>

lemma round_up_aligned: "n mod 4096 = 0 \<Longrightarrow> 4096 * ((n + 4095) div 4096) = (n :: nat)"
  by (auto simp: mod_eq_0_iff_dvd)

lemma round_up_unaligned:
  assumes "n mod 4096 \<noteq> 0"
  shows "n + (4096 - n mod 4096) = 4096 * ((n + 4095) div 4096 :: nat)"
proof -
  define q r where "q = n div 4096" and "r = n mod 4096"
  have n: "n = 4096 * q + r" and r: "0 < r" "r < 4096" using assms by (simp_all add: q_def r_def)
  have "(n + 4095) div 4096 = (4096 * (q + 1) + (r - 1)) div 4096" using n r by (intro arg_cong2 [where f = "(div)"]) auto
  also have "\<dots> = q + 1 + (r - 1) div 4096" by (subst div_mult_self4) auto
  also have "(r - 1) div 4096 = 0" using r by simp
  finally show ?thesis using n r by (simp add: r_def [symmetric])
qed

lemma unat_round_down: "unat ((a :: u64) div 4096 * 4096) = 4096 * (unat a div 4096)"
proof -
  have "unat a div 4096 * 4096 \<le> unat a" by simp
  then have "unat a div 4096 * 4096 < 2 ^ 64" using unat_u64_less [of a] by linarith
  then show ?thesis by (simp add: unat_word_ariths unat_div)
qed

lemma align_down_to_page_eq: "unat (align_down_to_page address) = 4096 * (unat address div 4096)"
  unfolding align_down_to_page_def PAGE_SIZE_def by (rule unat_round_down)

lemma align_up_to_page_eq:
  assumes "unat address + 4095 < 2 ^ 64"
  shows "\<exists>up. align_up_to_page pr address = Done up \<and> unat up = 4096 * ((unat address + 4095) div 4096)"
proof (cases "address mod 4096 = 0")
  case True
  then have "unat address mod 4096 = 0"
    by (simp add: page_aligned_unat [symmetric] page_aligned_def)
  then show ?thesis
    using True round_up_aligned by (simp add: align_up_to_page_def next_multiple_of_def PAGE_SIZE_def)
next
  case False
  let ?r = "address mod 4096"
  have r: "unat ?r = unat address mod 4096" by (simp add: unat_mod)
  have pos: "unat address mod 4096 \<noteq> 0"
    using False page_aligned_unat [of address] by (simp add: page_aligned_def)
  have "?r \<le> 4096" using r by (simp add: word_le_nat_alt)
  then have gap: "unat (4096 - ?r) = 4096 - unat address mod 4096" using r by (simp add: unat_sub)
  then have fits: "unat address + unat (4096 - ?r) < 2 ^ LENGTH(64)" using assms pos by simp
  have "align_up_to_page pr address = Done (address + (4096 - ?r))"
    using False add_int_no_overflow [OF fits, of pr]
    by (simp only: align_up_to_page_def next_multiple_of_def PAGE_SIZE_def if_False) simp
  moreover have "unat (address + (4096 - ?r)) = 4096 * ((unat address + 4095) div 4096)"
    unfolding unat_plus_no_overflow [OF fits] gap by (rule round_up_unaligned [OF pos])
  ultimately show ?thesis by blast
qed

section \<open>A page table for the examples\<close>

text \<open>
  The parameters instantiated by a page table that is the list of the ranges mapped so far,
  latest first, and by fixed-capacity vectors: they satisfy \<open>stage2_deps_ok\<close>.
\<close>

type_synonym 'attr range_table = "(u64 \<times> u64 \<times> 'attr) list"

definition range_table_maps :: "'attr range_table \<Rightarrow> u64 \<Rightarrow> 'attr option" where
  "range_table_maps t x =
     map_option (\<lambda>(s, e, a). a) (List.find (\<lambda>(s, e, a). s \<le> x \<and> x < e) t)"

definition range_table_deps :: "('s, 'attr range_table, 'me, 'attr) stage2_deps" where
  "range_table_deps =
     \<lparr>idmap_new = [],
      idmap_map_range = (\<lambda>t s e a. (Inr (), (s, e, a) # t)),
      ranges_push = (\<lambda>xs x. if length xs < MAX_ALLOWED_RANGES then Done (xs @ [x])
                            else Panicked ''CapacityError''),
      regions_insert = (\<lambda>xs i x. if length xs < MAX_MEMORY_ACCESS_HANDLERS \<and> i \<le> length xs
                                 then Done (take i xs @ x # drop i xs) else Panicked ''CapacityError'')\<rparr>"

lemma range_table_deps_ok: "stage2_deps_ok range_table_deps range_table_maps"
  by (auto simp: stage2_deps_ok_def range_table_deps_def range_table_maps_def)

lemmas stage2_exec =
  range_table_deps_def allow_range_def handle_range_def allow_range_checks_def check_allowed_range_capacity_def
  check_no_allowed_overlap_def check_no_registered_overlap_def stage2_range_new_eq page_aligned_def
  registry_register_def region_new_def region_overlaps_range_def range_overlaps_def page_ranges_overlap_def
  track_allowed_range_def partition_point_def binary_search_by_def bs_loop_step bs_loop_stop Let_def
  MAX_ALLOWED_RANGES_def MAX_MEMORY_ACCESS_HANDLERS_def

text \<open>One mapped page at \<open>0x1000\<close> followed by one handled page at \<open>0x2000\<close>.\<close>

definition two_pages :: "(unit, nat range_table) Stage2Builder" where
  "two_pages =
     \<lparr>sb_idmap = [(0x1000, 0x2000, 7)],
      sb_memory_access_handlers = \<lparr>reg_regions = [\<lparr>mar_base_ipa = 0x2000, mar_size = 0x1000,
        mar_handler = \<lparr>mah_read = None, mah_write = None\<rparr>, mar_end_ipa = 0x3000\<rparr>]\<rparr>,
      sb_allowed_ranges = [\<lparr>s2r_base_ipa = 0x1000, s2r_size = 0x1000, s2r_end_ipa = 0x2000\<rparr>]\<rparr>"

lemma two_pages_reachable: "builder_reachable (range_table_deps :: (unit, _, unit, nat) stage2_deps) two_pages"
proof -
  let ?D = "range_table_deps :: (unit, nat range_table, unit, nat) stage2_deps"
  let ?b = "two_pages\<lparr>sb_memory_access_handlers := registry_new\<rparr>"
  have "allow_range ?D (builder_new ?D) 0x1000 0x1000 7 = Done (Inr (), ?b)"
    by (simp add: stage2_exec builder_new_def registry_new_def two_pages_def)
  then have "builder_reachable ?D ?b"
    by (rule reach_allow [OF run_new])
  moreover have "handle_range ?D ?b 0x2000 0x1000 \<lparr>mah_read = None, mah_write = None\<rparr> = Done (Inr (), two_pages)"
    by (simp add: stage2_exec registry_new_def two_pages_def)
  ultimately show ?thesis
    by (rule run_handle)
qed

section \<open>Registration and lookup together\<close>

lemma handle_range_valid_range:
  fixes D :: "('s, 'idmap, 'me, 'attr) stage2_deps"
  assumes "builder_wf b" and "stage2_range_new base_ipa sz = (Inr r :: 'me Stage2ConfigError + Stage2Range)"
  shows "handle_range D b base_ipa sz h =
     (if covers r \<inter> allowed_set b \<noteq> {} then Done (Inl AllowedRangeOverlap, b)
      else and_then (registry_register D (sb_memory_access_handlers b) (region_new r h))
             (\<lambda>(x, reg). Done (x, b\<lparr>sb_memory_access_handlers := reg\<rparr>)))"
  by (simp add: handle_range_def assms(2)
      check_no_allowed_overlap_iff [OF assms(1) stage2_range_new_Inr(1) [OF assms(2)]])

text \<open>The three results of \<open>register\<close>, with the condition of each.\<close>

lemma registry_register_result:
  assumes ok: "stage2_deps_ok D maps" and inv: "registry_inv reg" and wf: "range_wf r"
  shows "length (reg_regions reg) = MAX_MEMORY_ACCESS_HANDLERS \<Longrightarrow>
           registry_register D reg (region_new r h) = Done (Inl TooManyMemoryAccessHandlerRegions, reg)"
    and "length (reg_regions reg) \<noteq> MAX_MEMORY_ACCESS_HANDLERS \<Longrightarrow> covers r \<inter> handled_by reg \<noteq> {} \<Longrightarrow>
           registry_register D reg (region_new r h) = Done (Inl MemoryAccessHandlerRangeOverlap, reg)"
    and "length (reg_regions reg) \<noteq> MAX_MEMORY_ACCESS_HANDLERS \<Longrightarrow> covers r \<inter> handled_by reg = {} \<Longrightarrow>
           \<exists>reg'. registry_register D reg (region_new r h) = Done (Inr (), reg') \<and>
            (\<forall>ipa. registry_find pr reg' ipa =
              (if ipa \<in> covers r
               then Done (Some \<lparr>mhm_region = region_new r h, mhm_offset = ipa - s2r_base_ipa r\<rparr>)
               else registry_find pr reg ipa))"
proof -
  have wf': "range_wf (region_range (region_new r h))" using wf by simp
  note cases = registry_register_cases [OF ok inv wf']
  show "registry_register D reg (region_new r h) = Done (Inl TooManyMemoryAccessHandlerRegions, reg)"
    if "length (reg_regions reg) = MAX_MEMORY_ACCESS_HANDLERS"
    by (rule cases) (use that in simp_all)
  show "registry_register D reg (region_new r h) = Done (Inl MemoryAccessHandlerRangeOverlap, reg)"
    if "length (reg_regions reg) \<noteq> MAX_MEMORY_ACCESS_HANDLERS" "covers r \<inter> handled_by reg \<noteq> {}"
    by (rule cases) (use that in simp_all)
  assume free: "length (reg_regions reg) \<noteq> MAX_MEMORY_ACCESS_HANDLERS" "covers r \<inter> handled_by reg = {}"
  obtain reg' where added: "registry_register D reg (region_new r h) = Done (Inr (), reg')" "registry_inv reg'"
      "set (reg_regions reg') = insert (region_new r h) (set (reg_regions reg))"
    by (rule cases) (use free that in simp_all)
  have "mar_base_ipa (region_new r h) = s2r_base_ipa r" by (simp add: region_new_def)
  then show "\<exists>reg'. registry_register D reg (region_new r h) = Done (Inr (), reg') \<and>
      (\<forall>ipa. registry_find pr reg' ipa =
        (if ipa \<in> covers r
         then Done (Some \<lparr>mhm_region = region_new r h, mhm_offset = ipa - s2r_base_ipa r\<rparr>)
         else registry_find pr reg ipa))"
    using added(1) by (simp add: registry_find_eq added(2) inv region_covering_register [OF inv added(2,3)])
qed

section \<open>Properties\<close>

text \<open>
  C1: Whatever calls a platform makes on a fresh builder, in any order, with any arguments and
  going on after any error, the configuration built from it splits the address space. The
  handler lookup never panics. An address that an allowed range covers is mapped and has no
  handler. Outside \<open>F\<close>, the ranges for which the page table reported an error, an address is
  mapped exactly when an allowed range covers it, so one that a handler emulates is never
  mapped. A range in \<open>F\<close> is excepted: \<open>allow_range\<close> does not record it, and a later
  \<open>handle_range\<close> accepts it whatever the failed call left in the page table. When no mapping
  failed (\<open>F\<close> empty) nothing is assumed about failing calls; otherwise the page table is
  assumed to confine a failed call to its range.
\<close>

theorem stage2_config_separates_mapped_and_handled:
  assumes "stage2_deps_ok D maps" and "map_range_confined D maps \<or> F = {}" and "builder_run D F b"
  shows "\<exists>found. registry_find pr (sc_memory_access_handlers (builder_build b)) ipa = Done found \<and>
     ((\<exists>r\<in>set (sb_allowed_ranges b). ipa \<in> covers r) \<longrightarrow>
        maps (sc_idmap (builder_build b)) ipa \<noteq> None \<and> found = None) \<and>
     (ipa \<notin> F \<longrightarrow>
        (maps (sc_idmap (builder_build b)) ipa \<noteq> None \<longleftrightarrow> (\<exists>r\<in>set (sb_allowed_ranges b). ipa \<in> covers r)) \<and>
        (found \<noteq> None \<longrightarrow> maps (sc_idmap (builder_build b)) ipa = None))"
proof -
  note wf = builder_run_wf [OF assms(1,3)] and maps = builder_run_maps [OF assms(1,3,2)]
  have reg: "registry_inv (sb_memory_access_handlers b)"
    and apart: "allowed_set b \<inter> handled_by (sb_memory_access_handlers b) = {}"
    using wf by (simp_all add: builder_wf_def)
  have allowed: "(\<exists>r\<in>set (sb_allowed_ranges b). ipa \<in> covers r) \<longleftrightarrow> ipa \<in> allowed_set b"
    by (simp add: allowed_set_def)
  have mapped: "ipa \<in> allowed_set b \<Longrightarrow> maps (sb_idmap b) ipa \<noteq> None"
    "ipa \<notin> F \<Longrightarrow> maps (sb_idmap b) ipa \<noteq> None \<Longrightarrow> ipa \<in> allowed_set b"
    using maps by (auto simp: builder_maps_def)
  have handled: "region_covering (sb_memory_access_handlers b) ipa \<noteq> None \<longleftrightarrow>
      ipa \<in> handled_by (sb_memory_access_handlers b)"
    using region_covering_None [OF reg, of ipa] by simp
  show ?thesis
    unfolding allowed using mapped handled apart
    by (auto simp: builder_build_def registry_find_eq [OF reg])
qed

theorem stage2_config_separates_mapped_and_handled_witness:
  "(\<exists>m. registry_find Dev (sc_memory_access_handlers (builder_build two_pages)) 0x2008 = Done (Some m)) \<and>
   range_table_maps (sc_idmap (builder_build two_pages)) 0x2008 = None \<and>
   range_table_maps (sc_idmap (builder_build two_pages)) 0x1008 = Some 7"
  using stage2_config_separates_mapped_and_handled [OF range_table_deps_ok disjI2 [OF refl] two_pages_reachable, of Dev "0x2008"]
    stage2_config_separates_mapped_and_handled [OF range_table_deps_ok disjI2 [OF refl] two_pages_reachable, of Dev "0x1008"]
  by (auto simp: range_table_maps_def builder_build_def two_pages_def registry_find_def binary_search_by_def
      bs_loop_stop region_end_ipa_def checked_range_end_eq Let_def)

text \<open>
  C22: The result of \<open>allow_range\<close> on every branch, in the order the checks are made: the four
  range errors, a full table, an overlap with an allowed address, an overlap with a handled
  address, a page-table failure (the only error that may change the builder, and only its
  page table), and otherwise the range recorded and the page table updated. It never panics.
\<close>

theorem allow_range_result:
  assumes "stage2_deps_ok D maps" and "builder_run D F b"
  shows "allow_range D b base_ipa sz a =
     (let r = \<lparr>s2r_base_ipa = base_ipa, s2r_size = sz, s2r_end_ipa = base_ipa + sz\<rparr> in
      if base_ipa mod 4096 \<noteq> 0 then Done (Inl RangeBaseNotPageAligned, b)
      else if sz = 0 then Done (Inl EmptyRange, b)
      else if sz mod 4096 \<noteq> 0 then Done (Inl RangeSizeNotPageMultiple, b)
      else if 2 ^ 64 \<le> unat base_ipa + unat sz then Done (Inl RangeEndOverflow, b)
      else if length (sb_allowed_ranges b) = 32 then Done (Inl TooManyAllowedRanges, b)
      else if {base_ipa ..< base_ipa + sz} \<inter> allowed_set b \<noteq> {} then Done (Inl AllowedRangeOverlap, b)
      else if {base_ipa ..< base_ipa + sz} \<inter> handled_by (sb_memory_access_handlers b) \<noteq> {}
           then Done (Inl AllowedRangeOverlapsMemoryAccessHandler, b)
      else case idmap_map_range D (sb_idmap b) base_ipa (base_ipa + sz) a of
             (Inl e, m) \<Rightarrow> Done (Inl (MapRange e), b\<lparr>sb_idmap := m\<rparr>)
           | (Inr _, m) \<Rightarrow> Done (Inr (), b\<lparr>sb_idmap := m, sb_allowed_ranges := sb_allowed_ranges b @ [r]\<rparr>))"
proof -
  note inv = builder_run_wf [OF assms]
  have push: "ranges_push D (sb_allowed_ranges b) r = Done (sb_allowed_ranges b @ [r])"
    if "length (sb_allowed_ranges b) \<noteq> 32" for r
    using that inv by (intro stage2_deps_okD(3) [OF assms(1)]) (simp add: builder_wf_def MAX_ALLOWED_RANGES_def)
  show ?thesis
    unfolding allow_range_def allow_range_checks_eq [OF inv] stage2_range_new_eq
    by (simp add: covers_def page_aligned_def track_allowed_range_def push MAX_ALLOWED_RANGES_def Let_def
        split: prod.split sum.split)
qed

theorem allow_range_result_witness:
  "allow_range (range_table_deps :: (unit, nat range_table, unit, nat) stage2_deps) two_pages 0x2000 0x1000 9 =
     Done (Inl AllowedRangeOverlapsMemoryAccessHandler, two_pages)"
proof -
  have "allowed_set two_pages = {0x1000 ..< 0x2000}"
    and handled: "handled_by (sb_memory_access_handlers two_pages) = {0x2000 ..< 0x3000}"
    by (simp_all add: two_pages_def allowed_set_def handled_by_def covers_def)
  then have "{0x2000 ..< 0x3000 :: u64} \<inter> allowed_set two_pages = {}" by auto
  moreover have "{0x2000 ..< 0x3000 :: u64} \<inter> handled_by (sb_memory_access_handlers two_pages) \<noteq> {}"
    unfolding handled by simp
  ultimately show ?thesis
    unfolding allow_range_result [OF range_table_deps_ok two_pages_reachable]
    by (simp add: Let_def two_pages_def)
qed



text \<open>
  C24: The binary search of \<open>find\<close> agrees with a linear search for the region that contains the
  address, on every registry that registrations can build; the offset is exact and neither
  the index nor the subtraction panics.
\<close>

theorem registry_find_is_linear_search:
  assumes "stage2_deps_ok D maps" and "builder_run D F b"
  shows "registry_find pr (sb_memory_access_handlers b) ipa =
     Done (map_option (\<lambda>R. \<lparr>mhm_region = R, mhm_offset = ipa - mar_base_ipa R\<rparr>)
       (List.find (\<lambda>R. mar_base_ipa R \<le> ipa \<and> ipa < mar_end_ipa R)
         (reg_regions (sb_memory_access_handlers b))))"
  using builder_run_wf [OF assms] registry_find_eq
  by (auto simp: builder_wf_def region_covering_def)

theorem registry_find_is_linear_search_witness:
  "registry_find Dev (sb_memory_access_handlers two_pages) 0x2ffc =
     Done (Some \<lparr>mhm_region = hd (reg_regions (sb_memory_access_handlers two_pages)), mhm_offset = 0xffc\<rparr>)"
  unfolding registry_find_is_linear_search [OF range_table_deps_ok two_pages_reachable]
  by (simp add: two_pages_def)

text \<open>
  Two validated ranges overlap, in the sense of \<open>page_ranges_overlap\<close>, exactly when some
  address, taken as an unbounded integer, lies in both.
\<close>

theorem overlap_is_intersection:
  assumes "stage2_range_new b1 s1 = Inr r1" and "stage2_range_new b2 s2 = Inr r2"
  shows "range_overlaps r1 r2 \<longleftrightarrow>
     (\<exists>x. unat b1 \<le> x \<and> x < unat b1 + unat s1 \<and> unat b2 \<le> x \<and> x < unat b2 + unat s2)"
proof -
  note r1 = stage2_range_new_Inr [OF assms(1)] and r2 = stage2_range_new_Inr [OF assms(2)]
  have ends: "unat (s2r_end_ipa r1) = unat b1 + unat s1" "unat (s2r_end_ipa r2) = unat b2 + unat s2"
    using r1(1-3) r2(1-3) by (simp_all add: range_wf_def)
  have pos: "0 < unat s1" "0 < unat s2"
    using r1(1,3) r2(1,3) by (auto simp: range_wf_def unat_gt_0)
  have "range_overlaps r1 r2 \<longleftrightarrow> unat b2 < unat b1 + unat s1 \<and> unat b1 < unat b2 + unat s2"
    using pos ends by (auto simp: range_overlaps_def page_ranges_overlap_def r1(2) r2(2) word_less_nat_alt word_le_nat_alt)
  also have "\<dots> \<longleftrightarrow> (\<exists>x. unat b1 \<le> x \<and> x < unat b1 + unat s1 \<and> unat b2 \<le> x \<and> x < unat b2 + unat s2)"
    using pos by (auto intro!: exI [of _ "max (unat b1) (unat b2)"])
  finally show ?thesis .
qed

theorem overlap_is_intersection_witness:
  "range_overlaps \<lparr>s2r_base_ipa = 0x1000, s2r_size = 0x2000, s2r_end_ipa = 0x3000\<rparr>
     \<lparr>s2r_base_ipa = 0x2000, s2r_size = 0x1000, s2r_end_ipa = 0x3000\<rparr>"
  by (subst overlap_is_intersection [of "0x1000" "0x2000" _ "0x2000" "0x1000"])
    (auto simp: stage2_range_new_eq page_aligned_def intro!: exI [of _ "0x2000"])

text \<open>
  Rounding an address range out to page boundaries gives the smallest page-aligned range
  that contains it, and rounding up panics only in the last page of the address space.
\<close>

theorem page_rounding_is_tight:
  assumes "unat address + 4095 < 2 ^ 64"
  shows "\<exists>up. align_up_to_page pr address = Done up \<and>
     unat (align_down_to_page address) = 4096 * (unat address div 4096) \<and>
     unat up = 4096 * ((unat address + 4095) div 4096)"
  using align_up_to_page_eq [OF assms, of pr] align_down_to_page_eq [of address] by auto

theorem page_rounding_is_tight_witness:
  "align_up_to_page Dev 0x12345 = Done 0x13000 \<and> align_down_to_page 0x12345 = 0x12000"
  using page_rounding_is_tight [of "0x12345" Dev] by (auto simp: word_unat_eq_iff)

end
