(* ===== verification/Platform.thy ===== *)
theory Platform
  imports Hvc_Response Stage2
begin

text \<open>
  The platform interface (\<open>src/src/platform.rs\<close>) and the memory attributes
  (\<open>src/src/pagetable.rs\<close>). The trait is a record of functions; its default methods are the
  definitions \<open>default_...\<close>. A method that may log a warning returns the messages beside its
  result; the caller logs them in this order. Attribute bits come from \<open>aarch64_paging\<close> and are
  parameters.
\<close>

section \<open>The trait\<close>

datatype BootMode = El1 | El2

definition FDT_ALIGNMENT :: usize where "FDT_ALIGNMENT = 8"

record 'con PlatformParts =
  pp_console :: 'con

definition default_SHARED_HEAP_SIZE :: usize where "default_SHARED_HEAP_SIZE = 16 * PAGE_SIZE"

definition default_fdt_address :: "'self \<Rightarrow> u64 \<Rightarrow> u64 \<times> string list" where
  "default_fdt_address self boot_fdt_address = (boot_fdt_address, [])"

definition default_modify_dt :: "'self \<Rightarrow> 'fdt \<Rightarrow> 'fdt outcome" where
  "default_modify_dt self fdt = Done fdt"

definition default_handle_hvc :: "u64 \<Rightarrow> u64 list \<Rightarrow> 'e HvcResult" where
  "default_handle_hvc function_id args = Unhandled"

record ('self, 'con, 'fdt, 's, 'idmap, 'me, 'attr, 'e) Platform =
  plat_MAX_CORES :: nat
  plat_SHARED_HEAP_SIZE :: usize
  plat_create :: "'self outcome"
  plat_parts :: "'self \<Rightarrow> 'con PlatformParts option \<times> 'self"
  plat_boot_mode :: "'self \<Rightarrow> 'fdt \<Rightarrow> BootMode \<times> string list"
  plat_payload_address :: "'self \<Rightarrow> u64"
  plat_fdt_address :: "'self \<Rightarrow> u64 \<Rightarrow> u64 \<times> string list"
  plat_modify_dt :: "'self \<Rightarrow> 'fdt \<Rightarrow> 'fdt outcome"
  plat_configure_memory_access ::
    "('s, 'idmap) Stage2Builder \<Rightarrow> (('me Stage2ConfigError + unit) \<times> ('s, 'idmap) Stage2Builder) outcome"
  plat_handle_hvc :: "u64 \<Rightarrow> u64 list \<Rightarrow> 'e HvcResult"

section \<open>Memory attributes\<close>

record el23_attributes =
  El23_VALID :: u64
  El23_ATTRIBUTE_INDEX_0 :: u64
  El23_ATTRIBUTE_INDEX_1 :: u64
  El23_INNER_SHAREABLE :: u64
  El23_ACCESSED :: u64
  El23_NON_GLOBAL :: u64
  El23_XN :: u64

definition DEVICE_ATTRIBUTES :: "el23_attributes \<Rightarrow> u64" where
  "DEVICE_ATTRIBUTES A = El23_VALID A OR El23_ATTRIBUTE_INDEX_0 A OR El23_ACCESSED A OR El23_XN A"

definition MEMORY_ATTRIBUTES :: "el23_attributes \<Rightarrow> u64" where
  "MEMORY_ATTRIBUTES A =
     El23_VALID A OR El23_ATTRIBUTE_INDEX_1 A OR El23_INNER_SHAREABLE A OR El23_ACCESSED A OR El23_NON_GLOBAL A"

record stage2_attributes =
  S2_VALID :: u64
  S2_MEMATTR_DEVICE_nGnRnE :: u64
  S2_MEMATTR_NORMAL_OUTER_WB :: u64
  S2_MEMATTR_NORMAL_INNER_WB :: u64
  S2_S2AP_ACCESS_RW :: u64
  S2_ACCESS_FLAG :: u64
  S2_SH_NONE :: u64
  S2_SH_INNER :: u64

definition STAGE2_DEVICE_ATTRIBUTES :: "stage2_attributes \<Rightarrow> u64" where
  "STAGE2_DEVICE_ATTRIBUTES A =
     S2_VALID A OR S2_MEMATTR_DEVICE_nGnRnE A OR S2_S2AP_ACCESS_RW A OR S2_ACCESS_FLAG A OR S2_SH_NONE A"

definition STAGE2_MEMORY_ATTRIBUTES :: "stage2_attributes \<Rightarrow> u64" where
  "STAGE2_MEMORY_ATTRIBUTES A =
     S2_VALID A OR S2_MEMATTR_NORMAL_OUTER_WB A OR S2_MEMATTR_NORMAL_INNER_WB A OR
     S2_S2AP_ACCESS_RW A OR S2_ACCESS_FLAG A OR S2_SH_INNER A"

section \<open>What the hypervisor relies on\<close>

text \<open>
  A platform's \<open>configure_memory_access\<close> can only use the builder it is given, so what it
  returns is reachable from it by builder calls; \<open>handle_hvc\<close> returns well-formed arrays.
\<close>

locale platform_contract =
  fixes D :: "('s, 'idmap, 'me, 'attr) stage2_deps"
    and configure ::
      "('s, 'idmap) Stage2Builder \<Rightarrow> (('me Stage2ConfigError + unit) \<times> ('s, 'idmap) Stage2Builder) outcome"
    and hvc :: "u64 \<Rightarrow> u64 list \<Rightarrow> 'e HvcResult"
  assumes configure_steps:
      "builder_reachable D b \<Longrightarrow> configure b = Done (Inr (), b') \<Longrightarrow> builder_reachable D b'"
    and hvc_wf: "hvc_result_wf (hvc f args)"
begin

lemma configured_inv:
  "stage2_deps_ok D maps \<Longrightarrow> configure (builder_new D) = Done (Inr (), b) \<Longrightarrow> builder_inv maps b"
  using configure_steps [OF run_new] builder_reachable_inv by blast

end

end
