(* ===== verification/Simple_Map.thy ===== *)
theory Simple_Map
  imports Prelude
begin

text \<open>
  \<open>SimpleMap\<close> (\<open>src/src/simple_map.rs\<close>): a map of at most \<open>CAPACITY\<close> entries kept in an array
  of optional items and searched linearly. A reference returned by \<open>get_mut\<close> or \<open>insert\<close> is
  modelled by the index of the slot it points into, because the hypervisor keeps such
  pointers as stack addresses.

  The locale \<open>bounded_map\<close> is the contract the hypervisor relies on: a finite map with a
  capacity, in which an entry keeps its slot until it is removed. \<open>SimpleMap\<close> interprets it.
\<close>

section \<open>The array of items\<close>

record ('k, 'v) Item =
  item_key :: 'k
  item_value :: 'v

record ('k, 'v) SimpleMap =
  items :: "('k, 'v) Item option list"

definition simple_map_new :: "nat \<Rightarrow> ('k, 'v) SimpleMap" where
  "simple_map_new CAPACITY = \<lparr>items = replicate CAPACITY None\<rparr>"

text \<open>The loops over \<open>items\<close>: the first slot that holds \<open>key\<close>, and the first empty slot.\<close>

fun key_slot :: "'k \<Rightarrow> ('k, 'v) Item option list \<Rightarrow> nat option" where
  "key_slot k [] = None"
| "key_slot k (it # its) =
     (case it of
        Some inner \<Rightarrow> if item_key inner = k then Some 0 else map_option Suc (key_slot k its)
      | None \<Rightarrow> map_option Suc (key_slot k its))"

fun free_slot :: "('k, 'v) Item option list \<Rightarrow> nat option" where
  "free_slot [] = None"
| "free_slot (it # its) = (if it = None then Some 0 else map_option Suc (free_slot its))"

definition simple_map_get_mut :: "('k, 'v) SimpleMap \<Rightarrow> 'k \<Rightarrow> nat option" where
  "simple_map_get_mut m key = key_slot key (items m)"

text \<open>\<open>item.take()\<close> empties the slot and returns what it held.\<close>

definition simple_map_remove ::
  "('k, 'v) SimpleMap \<Rightarrow> 'k \<Rightarrow> 'v option \<times> ('k, 'v) SimpleMap" where
  "simple_map_remove m key =
     (case key_slot key (items m) of
        Some i \<Rightarrow> (map_option item_value (items m ! i), m\<lparr>items := (items m)[i := None]\<rparr>)
      | None \<Rightarrow> (None, m))"

definition simple_map_insert ::
  "('k, 'v) SimpleMap \<Rightarrow> 'k \<Rightarrow> 'v \<Rightarrow> (nat \<times> ('k, 'v) SimpleMap) outcome" where
  "simple_map_insert m key value =
     (let m1 = snd (simple_map_remove m key)
      in case free_slot (items m1) of
           Some i \<Rightarrow> Done (i, m1\<lparr>items := (items m1)[i := Some \<lparr>item_key = key, item_value = value\<rparr>]\<rparr>)
         | None \<Rightarrow> Panicked ''maximum capacity exceeded'')"

text \<open>Reading through a reference.\<close>

definition simple_map_deref :: "('k, 'v) SimpleMap \<Rightarrow> nat \<Rightarrow> 'v option" where
  "simple_map_deref m i =
     (if i < length (items m) then map_option item_value (items m ! i) else None)"

section \<open>Invariant and abstraction\<close>

text \<open>No two slots hold the same key.\<close>

definition simple_map_inv :: "nat \<Rightarrow> ('k, 'v) SimpleMap \<Rightarrow> bool" where
  "simple_map_inv cap m \<longleftrightarrow>
     length (items m) = cap \<and>
     (\<forall>i j a b. i < cap \<longrightarrow> j < cap \<longrightarrow> items m ! i = Some a \<longrightarrow> items m ! j = Some b \<longrightarrow>
        item_key a = item_key b \<longrightarrow> i = j)"

definition simple_map_lookup :: "('k, 'v) SimpleMap \<Rightarrow> 'k \<Rightarrow> 'v option" where
  "simple_map_lookup m k = Option.bind (simple_map_get_mut m k) (simple_map_deref m)"

section \<open>Lemmas\<close>

lemma key_slot_Some:
  "key_slot k its = Some i \<Longrightarrow> i < length its \<and> (\<exists>a. its ! i = Some a \<and> item_key a = k)"
  by (induction its arbitrary: i) (auto split: option.splits if_splits)

lemma key_slot_None:
  "key_slot k its = None \<longleftrightarrow> (\<forall>a. Some a \<in> set its \<longrightarrow> item_key a \<noteq> k)"
  by (induction its) (auto split: option.splits)

lemma free_slot_Some: "free_slot its = Some i \<Longrightarrow> i < length its \<and> its ! i = None"
  by (induction its arbitrary: i) (auto split: if_splits)

lemma free_slot_None: "free_slot its = None \<longleftrightarrow> None \<notin> set its"
  by (induction its) auto

lemma simple_map_invD:
  assumes "simple_map_inv cap m" "i < cap" "j < cap" "items m ! i = Some a" "items m ! j = Some b"
    "item_key a = item_key b"
  shows "i = j"
  using assms unfolding simple_map_inv_def by blast

lemma simple_map_invI:
  assumes "length (items m) = cap"
    and "\<And>i j a b. \<lbrakk>i < cap; j < cap; items m ! i = Some a; items m ! j = Some b;
          item_key a = item_key b\<rbrakk> \<Longrightarrow> i = j"
  shows "simple_map_inv cap m"
  using assms unfolding simple_map_inv_def by blast

lemma simple_map_inv_len: "simple_map_inv cap m \<Longrightarrow> length (items m) = cap"
  by (simp add: simple_map_inv_def)

lemma simple_map_get_mut_iff:
  assumes inv: "simple_map_inv cap m"
  shows "simple_map_get_mut m k = Some i \<longleftrightarrow>
           i < cap \<and> (\<exists>a. items m ! i = Some a \<and> item_key a = k)"
proof
  have len: "length (items m) = cap" by (rule simple_map_inv_len [OF inv])
  show "simple_map_get_mut m k = Some i \<Longrightarrow> i < cap \<and> (\<exists>a. items m ! i = Some a \<and> item_key a = k)"
    using len by (auto simp: simple_map_get_mut_def dest: key_slot_Some)
  assume "i < cap \<and> (\<exists>a. items m ! i = Some a \<and> item_key a = k)"
  then obtain a where a: "i < cap" "items m ! i = Some a" "item_key a = k" by blast
  then have "Some a \<in> set (items m)" by (metis len nth_mem)
  with a(3) obtain j where j: "key_slot k (items m) = Some j"
    using key_slot_None [of k "items m"] by fastforce
  from key_slot_Some [OF j] obtain b where "j < cap" "items m ! j = Some b" "item_key b = k"
    unfolding len by blast
  with simple_map_invD [OF inv _ a(1) _ a(2)] a(3) have "j = i" by simp
  with j show "simple_map_get_mut m k = Some i" by (simp add: simple_map_get_mut_def)
qed

lemma simple_map_lookup_iff:
  assumes "simple_map_inv cap m"
  shows "simple_map_lookup m k = Some v \<longleftrightarrow>
           (\<exists>i<cap. items m ! i = Some \<lparr>item_key = k, item_value = v\<rparr>)"
proof -
  have "simple_map_lookup m k = Some v \<longleftrightarrow>
          (\<exists>i. simple_map_get_mut m k = Some i \<and> simple_map_deref m i = Some v)"
    by (simp add: simple_map_lookup_def Option.bind_eq_Some_conv)
  also have "\<dots> \<longleftrightarrow> (\<exists>i<cap. \<exists>a. items m ! i = Some a \<and> item_key a = k \<and> item_value a = v)"
    unfolding simple_map_get_mut_iff [OF assms] simple_map_deref_def simple_map_inv_len [OF assms]
    by auto
  also have "\<dots> \<longleftrightarrow> (\<exists>i<cap. items m ! i = Some \<lparr>item_key = k, item_value = v\<rparr>)"
    by (metis (full_types) Item.select_convs(1,2) Item.surjective old.unit.exhaust)
  finally show ?thesis .
qed

lemma simple_map_lookup_None:
  assumes "simple_map_inv cap m"
  shows "simple_map_lookup m k = None \<longleftrightarrow> (\<forall>i<cap. \<forall>a. items m ! i = Some a \<longrightarrow> item_key a \<noteq> k)"
proof -
  have "simple_map_lookup m k = None \<longleftrightarrow> (\<forall>v. simple_map_lookup m k \<noteq> Some v)" by auto
  also have "\<dots> \<longleftrightarrow> (\<forall>i<cap. \<forall>v. items m ! i \<noteq> Some \<lparr>item_key = k, item_value = v\<rparr>)"
    unfolding simple_map_lookup_iff [OF assms] by blast
  also have "\<dots> \<longleftrightarrow> (\<forall>i<cap. \<forall>a. items m ! i = Some a \<longrightarrow> item_key a \<noteq> k)"
    by (metis Item.cases Item.select_convs(1))
  finally show ?thesis .
qed

text \<open>The occupied slots are in bijection with the keys.\<close>

lemma simple_map_card_dom:
  assumes inv: "simple_map_inv cap m"
  shows "card (dom (simple_map_lookup m)) = card {i. i < cap \<and> items m ! i \<noteq> None}"
proof -
  let ?occ = "{i. i < cap \<and> items m ! i \<noteq> None}" and ?key = "\<lambda>i. item_key (the (items m ! i))"
  have "inj_on ?key ?occ"
    by (rule inj_onI) (auto intro: simple_map_invD [OF inv])
  moreover have "dom (simple_map_lookup m) = ?key ` ?occ"
  proof (rule set_eqI)
    fix k
    have "k \<in> dom (simple_map_lookup m) \<longleftrightarrow> simple_map_lookup m k \<noteq> None" by auto
    then show "k \<in> dom (simple_map_lookup m) \<longleftrightarrow> k \<in> ?key ` ?occ"
      unfolding simple_map_lookup_None [OF inv] by force
  qed
  ultimately show ?thesis by (simp add: card_image)
qed

lemma simple_map_full_iff:
  assumes inv: "simple_map_inv cap m"
  shows "free_slot (items m) = None \<longleftrightarrow> card (dom (simple_map_lookup m)) = cap"
proof -
  let ?occ = "{i. i < cap \<and> items m ! i \<noteq> None}"
  have "free_slot (items m) = None \<longleftrightarrow> ?occ = {..<cap}"
    unfolding free_slot_None in_set_conv_nth simple_map_inv_len [OF inv] by auto
  also have "\<dots> \<longleftrightarrow> card ?occ = card {..<cap}"
    by (rule iffI, simp, rule card_subset_eq) auto
  finally show ?thesis by (simp add: simple_map_card_dom [OF inv])
qed

subsection \<open>Removing and inserting\<close>

lemma simple_map_remove_absent:
  assumes "simple_map_inv cap m" "simple_map_lookup m k = None"
  shows "simple_map_remove m k = (None, m)"
proof -
  have "key_slot k (items m) = None"
    using assms by (auto simp: key_slot_None simple_map_lookup_None in_set_conv_nth
        dest: simple_map_inv_len)
  then show ?thesis by (simp add: simple_map_remove_def)
qed

lemma simple_map_remove_present:
  assumes inv: "simple_map_inv cap m" and "simple_map_lookup m k = Some v"
  obtains i where "i < cap" "items m ! i = Some \<lparr>item_key = k, item_value = v\<rparr>"
    "simple_map_remove m k = (Some v, m\<lparr>items := (items m)[i := None]\<rparr>)"
proof -
  from assms obtain i where i: "i < cap" "items m ! i = Some \<lparr>item_key = k, item_value = v\<rparr>"
    by (auto simp: simple_map_lookup_iff)
  then have "simple_map_get_mut m k = Some i" by (simp add: simple_map_get_mut_iff [OF inv])
  with i that show thesis by (simp add: simple_map_remove_def simple_map_get_mut_def)
qed

text \<open>Emptying a slot, and filling an empty slot with a new key.\<close>

lemma simple_map_clear_slot:
  assumes inv: "simple_map_inv cap m" and i: "i < cap"
  defines "m' \<equiv> m\<lparr>items := (items m)[i := None]\<rparr>"
  shows "simple_map_inv cap m'"
    and "items m ! i = Some a \<Longrightarrow> simple_map_lookup m' = (simple_map_lookup m)(item_key a := None)"
    and "simple_map_get_mut m' k = Some j \<longleftrightarrow> simple_map_get_mut m k = Some j \<and> j \<noteq> i"
proof -
  note len = simple_map_inv_len [OF inv]
  have nth: "items m' ! j = (if j = i then None else items m ! j)" if "j < cap" for j
    using that len i by (simp add: m'_def nth_list_update)
  show inv': "simple_map_inv cap m'"
  proof (rule simple_map_invI)
    show "length (items m') = cap" using len by (simp add: m'_def)
    fix p q a b
    assume "p < cap" "q < cap" "items m' ! p = Some a" "items m' ! q = Some b" "item_key a = item_key b"
    then show "p = q"
      using simple_map_invD [OF inv] by (auto simp: nth split: if_splits)
  qed
  show "simple_map_get_mut m' k = Some j \<longleftrightarrow> simple_map_get_mut m k = Some j \<and> j \<noteq> i"
    unfolding simple_map_get_mut_iff [OF inv] simple_map_get_mut_iff [OF inv'] using nth
    by (auto split: if_splits)
  show "simple_map_lookup m' = (simple_map_lookup m)(item_key a := None)" if a: "items m ! i = Some a"
  proof (rule map_ext_Some)
    fix k v
    have only: "j = i" if "j < cap" "items m ! j = Some \<lparr>item_key = item_key a, item_value = w\<rparr>" for j w
      using simple_map_invD [OF inv that(1) i that(2) a] by simp
    have look: "simple_map_lookup m' k = Some v \<longleftrightarrow>
          (\<exists>j<cap. j \<noteq> i \<and> items m ! j = Some \<lparr>item_key = k, item_value = v\<rparr>)"
      unfolding simple_map_lookup_iff [OF inv'] using nth by (metis option.distinct(1))
    show "simple_map_lookup m' k = Some v \<longleftrightarrow>
               ((simple_map_lookup m)(item_key a := None)) k = Some v"
    proof (cases "k = item_key a")
      case True
      then show ?thesis using only look by auto
    next
      case False
      with a have "items m ! i \<noteq> Some \<lparr>item_key = k, item_value = v\<rparr>" by auto
      with False look show ?thesis by (auto simp: simple_map_lookup_iff [OF inv])
    qed
  qed
qed

lemma simple_map_fill_slot:
  fixes v :: 'v
  assumes inv: "simple_map_inv cap m" and i: "i < cap" "items m ! i = None"
    and new: "simple_map_lookup m k = None"
  defines "m' \<equiv> m\<lparr>items := (items m)[i := Some \<lparr>item_key = k, item_value = v\<rparr>]\<rparr>"
  shows "simple_map_inv cap m'"
    and "simple_map_lookup m' = (simple_map_lookup m)(k \<mapsto> v)"
    and "simple_map_get_mut m' k = Some i"
    and "k' \<noteq> k \<Longrightarrow> simple_map_get_mut m' k' = simple_map_get_mut m k'"
proof -
  note len = simple_map_inv_len [OF inv]
  have nth: "items m' ! j = (if j = i then Some \<lparr>item_key = k, item_value = v\<rparr> else items m ! j)"
    if "j < cap" for j
    using that len i by (simp add: m'_def nth_list_update)
  have absent: "item_key a \<noteq> k" if "j < cap" "items m ! j = Some a" for j a
    using new that by (simp add: simple_map_lookup_None [OF inv])
  show inv': "simple_map_inv cap m'"
  proof (rule simple_map_invI)
    show "length (items m') = cap" using len by (simp add: m'_def)
    fix p q a b
    assume "p < cap" "q < cap" "items m' ! p = Some a" "items m' ! q = Some b" "item_key a = item_key b"
    then show "p = q"
      using simple_map_invD [OF inv] by (auto simp: nth split: if_splits dest: absent)
  qed
  show "simple_map_get_mut m' k = Some i"
    using nth i by (simp add: simple_map_get_mut_iff [OF inv'])
  show "simple_map_get_mut m' k' = simple_map_get_mut m k'" if "k' \<noteq> k"
  proof -
    have "simple_map_get_mut m' k' = Some j \<longleftrightarrow> simple_map_get_mut m k' = Some j" for j
      using nth i that
      by (auto simp: simple_map_get_mut_iff [OF inv'] simple_map_get_mut_iff [OF inv] split: if_splits)
    then show ?thesis by (metis not_Some_eq)
  qed
  show "simple_map_lookup m' = (simple_map_lookup m)(k \<mapsto> v)"
  proof (rule map_ext_Some)
    fix l w
    show "simple_map_lookup m' l = Some w \<longleftrightarrow> ((simple_map_lookup m)(k \<mapsto> v)) l = Some w"
    proof -
      have "(\<exists>j<cap. items m' ! j = Some x) \<longleftrightarrow>
            x = \<lparr>item_key = k, item_value = v\<rparr> \<or> (\<exists>j<cap. items m ! j = Some x)" for x
        using nth i by (metis option.distinct(1) option.inject)
      then show ?thesis
        by (auto simp: simple_map_lookup_iff [OF inv] simple_map_lookup_iff [OF inv'] dest: absent)
    qed
  qed
qed

lemma simple_map_remove_laws:
  assumes inv: "simple_map_inv cap m"
  shows "fst (simple_map_remove m k) = simple_map_lookup m k"
    and "simple_map_inv cap (snd (simple_map_remove m k))"
    and "simple_map_lookup (snd (simple_map_remove m k)) = (simple_map_lookup m)(k := None)"
    and "k' \<noteq> k \<Longrightarrow> simple_map_get_mut (snd (simple_map_remove m k)) k' = simple_map_get_mut m k'"
proof -
  have "fst (simple_map_remove m k) = simple_map_lookup m k \<and>
    simple_map_inv cap (snd (simple_map_remove m k)) \<and>
    simple_map_lookup (snd (simple_map_remove m k)) = (simple_map_lookup m)(k := None) \<and>
    (k' \<noteq> k \<longrightarrow> simple_map_get_mut (snd (simple_map_remove m k)) k' = simple_map_get_mut m k')"
  proof (cases "simple_map_lookup m k")
    case None
    then show ?thesis using inv by (simp add: simple_map_remove_absent fun_upd_idem)
  next
    case (Some v)
    then obtain i where i: "i < cap" "items m ! i = Some \<lparr>item_key = k, item_value = v\<rparr>"
      and r: "simple_map_remove m k = (Some v, m\<lparr>items := (items m)[i := None]\<rparr>)"
      by (rule simple_map_remove_present [OF inv])
    note cl = simple_map_clear_slot [OF inv i(1)]
    have "simple_map_get_mut (snd (simple_map_remove m k)) k' = simple_map_get_mut m k'" if "k' \<noteq> k"
    proof -
      have "simple_map_get_mut m k' \<noteq> Some i"
        using that i by (auto simp: simple_map_get_mut_iff [OF inv])
      then show ?thesis unfolding r snd_conv
        by (metis cl(3) not_Some_eq)
    qed
    then show ?thesis using Some cl(1) cl(2) [OF i(2)] by (simp add: r)
  qed
  then show "fst (simple_map_remove m k) = simple_map_lookup m k"
    and "simple_map_inv cap (snd (simple_map_remove m k))"
    and "simple_map_lookup (snd (simple_map_remove m k)) = (simple_map_lookup m)(k := None)"
    and "k' \<noteq> k \<Longrightarrow> simple_map_get_mut (snd (simple_map_remove m k)) k' = simple_map_get_mut m k'"
    by auto
qed

lemma simple_map_dom_bound:
  assumes "simple_map_inv cap m"
  shows "finite (dom (simple_map_lookup m))" and "card (dom (simple_map_lookup m)) \<le> cap"
proof -
  have "dom (simple_map_lookup m) \<subseteq>
        (\<lambda>i. item_key (the (items m ! i))) ` {..<cap}"
  proof
    fix k assume "k \<in> dom (simple_map_lookup m)"
    then obtain v i where "i < cap" "items m ! i = Some \<lparr>item_key = k, item_value = v\<rparr>"
      by (auto simp: simple_map_lookup_iff [OF assms])
    then show "k \<in> (\<lambda>i. item_key (the (items m ! i))) ` {..<cap}" by force
  qed
  then show "finite (dom (simple_map_lookup m))" by (rule finite_subset) simp
  have "card {i. i < cap \<and> items m ! i \<noteq> None} \<le> card {..<cap}"
    by (rule card_mono) auto
  then show "card (dom (simple_map_lookup m)) \<le> cap" by (simp add: simple_map_card_dom [OF assms])
qed

lemma simple_map_insert_Done:
  assumes inv: "simple_map_inv cap m" and "simple_map_insert m k v = Done (i, m')"
  shows "simple_map_inv cap m'" and "simple_map_lookup m' = (simple_map_lookup m)(k \<mapsto> v)"
    and "simple_map_get_mut m' k = Some i"
    and "k' \<noteq> k \<Longrightarrow> simple_map_get_mut m' k' = simple_map_get_mut m k'"
proof -
  define m1 where "m1 = snd (simple_map_remove m k)"
  note rm = simple_map_remove_laws [OF inv, where k = k, folded m1_def]
  from assms(2) have fr: "free_slot (items m1) = Some i"
    and m': "m' = m1\<lparr>items := (items m1)[i := Some \<lparr>item_key = k, item_value = v\<rparr>]\<rparr>"
    by (auto simp: simple_map_insert_def m1_def Let_def split: option.splits)
  have i: "i < cap" "items m1 ! i = None"
    using free_slot_Some [OF fr] simple_map_inv_len [OF rm(2)] by auto
  have "simple_map_lookup m1 k = None" by (simp add: rm)
  note fill = simple_map_fill_slot [OF rm(2) i this, where v = v, folded m']
  show "simple_map_inv cap m'" and "simple_map_lookup m' = (simple_map_lookup m)(k \<mapsto> v)"
    and "simple_map_get_mut m' k = Some i"
    and "k' \<noteq> k \<Longrightarrow> simple_map_get_mut m' k' = simple_map_get_mut m k'"
    using fill rm by auto
qed

lemma simple_map_insert_panics:
  assumes inv: "simple_map_inv cap m"
  shows "simple_map_insert m k v = Panicked p \<longleftrightarrow>
    p = ''maximum capacity exceeded'' \<and> simple_map_lookup m k = None \<and>
    card (dom (simple_map_lookup m)) = cap"
proof -
  define m1 where "m1 = snd (simple_map_remove m k)"
  note rm = simple_map_remove_laws [OF inv, where k = k, folded m1_def]
  have "simple_map_insert m k v = Panicked p \<longleftrightarrow>
        p = ''maximum capacity exceeded'' \<and> free_slot (items m1) = None"
    by (auto simp: simple_map_insert_def m1_def Let_def split: option.splits)
  moreover have "free_slot (items m1) = None \<longleftrightarrow> card (dom (simple_map_lookup m) - {k}) = cap"
    by (simp add: simple_map_full_iff [OF rm(2)] rm(3))
  moreover have "card (dom (simple_map_lookup m) - {k}) < cap" if "k \<in> dom (simple_map_lookup m)"
    using simple_map_dom_bound [OF inv] that
    by (metis card_Diff1_less order_less_le_trans)
  ultimately show ?thesis
    by (cases "k \<in> dom (simple_map_lookup m)") (auto simp: domIff)
qed

section \<open>The contract of a bounded map\<close>

text \<open>
  What a client may assume. \<open>get\<close> gives the slot a reference points into; the laws say
  that the slots of different keys differ and that an operation on one key never moves the
  slot of another, so a reference stays valid until its own key is inserted again or removed.
\<close>

locale bounded_map =
  fixes cap :: nat
    and inv :: "'m \<Rightarrow> bool"
    and get :: "'m \<Rightarrow> 'k \<Rightarrow> nat option"
    and look :: "'m \<Rightarrow> 'k \<Rightarrow> 'v option"
    and ins :: "'m \<Rightarrow> 'k \<Rightarrow> 'v \<Rightarrow> (nat \<times> 'm) outcome"
    and del :: "'m \<Rightarrow> 'k \<Rightarrow> 'v option \<times> 'm"
  assumes get_None_iff: "inv m \<Longrightarrow> get m k = None \<longleftrightarrow> look m k = None"
    and get_bound: "inv m \<Longrightarrow> get m k = Some i \<Longrightarrow> i < cap"
    and get_inj: "inv m \<Longrightarrow> get m k = Some i \<Longrightarrow> get m k' = Some i \<Longrightarrow> k = k'"
    and dom_finite: "inv m \<Longrightarrow> finite (dom (look m))"
    and del_result: "inv m \<Longrightarrow> fst (del m k) = look m k"
    and del_inv: "inv m \<Longrightarrow> inv (snd (del m k))"
    and del_look: "inv m \<Longrightarrow> look (snd (del m k)) = (look m)(k := None)"
    and del_get: "inv m \<Longrightarrow> k' \<noteq> k \<Longrightarrow> get (snd (del m k)) k' = get m k'"
    and ins_inv: "inv m \<Longrightarrow> ins m k v = Done (i, m') \<Longrightarrow> inv m'"
    and ins_look: "inv m \<Longrightarrow> ins m k v = Done (i, m') \<Longrightarrow> look m' = (look m)(k \<mapsto> v)"
    and ins_get: "inv m \<Longrightarrow> ins m k v = Done (i, m') \<Longrightarrow> get m' k = Some i"
    and ins_get_other:
      "inv m \<Longrightarrow> ins m k v = Done (i, m') \<Longrightarrow> k' \<noteq> k \<Longrightarrow> get m' k' = get m k'"
    and ins_panics:
      "inv m \<Longrightarrow> ins m k v = Panicked p \<longleftrightarrow>
         p = ''maximum capacity exceeded'' \<and> look m k = None \<and> card (dom (look m)) = cap"
begin

text \<open>If all keys ever used come from a set of at most \<open>cap\<close> keys, inserting never panics.\<close>

lemma ins_within:
  assumes "inv m" and "finite K" "card K \<le> cap" and "dom (look m) \<subseteq> K" "k \<in> K"
  shows "\<exists>i m'. ins m k v = Done (i, m')"
proof (cases "ins m k v")
  case (Panicked p)
  then have "look m k = None" "card (dom (look m)) = cap"
    using ins_panics [OF assms(1)] by auto
  then have "dom (look m) \<subset> K" using assms(4,5) by auto
  then have "card (dom (look m)) < card K" by (rule psubset_card_mono [OF assms(2)])
  then show ?thesis using \<open>card (dom (look m)) = cap\<close> assms(3) by simp
qed auto

text \<open>The idiom of \<open>get_secondary_stack\<close>: look the key up, insert a default if it is new.\<close>

lemma get_or_insert_stable:
  assumes "inv m" and "ins m k v = Done (i, m')" and "look m k = None" and "get m k' = Some j"
  shows "get m' k' = Some j"
proof -
  have "k' \<noteq> k" using get_None_iff [OF assms(1), of k] assms(3,4) by auto
  then show ?thesis using ins_get_other [OF assms(1,2)] assms(4) by simp
qed

end

interpretation simple_map: bounded_map cap "simple_map_inv cap" simple_map_get_mut
  simple_map_lookup simple_map_insert simple_map_remove for cap
proof unfold_locales
  fix m :: "('k, 'v) SimpleMap" and k k' :: 'k and v :: 'v and i m' p
  assume inv: "simple_map_inv cap m"
  show "(simple_map_get_mut m k = None) = (simple_map_lookup m k = None)"
  proof (cases "simple_map_get_mut m k")
    case (Some j)
    then obtain a where "j < cap" "items m ! j = Some a"
      by (auto simp: simple_map_get_mut_iff [OF inv])
    with Some show ?thesis
      by (simp add: simple_map_lookup_def simple_map_deref_def simple_map_inv_len [OF inv])
  qed (simp add: simple_map_lookup_def)
  show "finite (dom (simple_map_lookup m))" by (rule simple_map_dom_bound [OF inv])
  show "fst (simple_map_remove m k) = simple_map_lookup m k"
    "simple_map_inv cap (snd (simple_map_remove m k))"
    "simple_map_lookup (snd (simple_map_remove m k)) = (simple_map_lookup m)(k := None)"
    by (rule simple_map_remove_laws [OF inv])+
  show "k' \<noteq> k \<Longrightarrow> simple_map_get_mut (snd (simple_map_remove m k)) k' = simple_map_get_mut m k'"
    by (rule simple_map_remove_laws [OF inv])
  show "simple_map_insert m k v = Panicked p \<longleftrightarrow> p = ''maximum capacity exceeded'' \<and>
      simple_map_lookup m k = None \<and> card (dom (simple_map_lookup m)) = cap"
    by (rule simple_map_insert_panics [OF inv])
  show "simple_map_get_mut m k = Some i \<Longrightarrow> i < cap"
    "simple_map_get_mut m k = Some i \<Longrightarrow> simple_map_get_mut m k' = Some i \<Longrightarrow> k = k'"
    by (auto simp: simple_map_get_mut_iff [OF inv])
  assume ins: "simple_map_insert m k v = Done (i, m')"
  show "simple_map_inv cap m'" "simple_map_lookup m' = (simple_map_lookup m)(k \<mapsto> v)"
    "simple_map_get_mut m' k = Some i"
    "k' \<noteq> k \<Longrightarrow> simple_map_get_mut m' k' = simple_map_get_mut m k'"
    by (rule simple_map_insert_Done [OF inv ins], assumption?)+
qed

section \<open>Refinement of a partial map with a capacity\<close>

text \<open>
  A client's session with the map: the values it reads are its observations. The reference is
  a partial function that refuses a new key when \<open>cap\<close> keys are present.
\<close>

datatype ('k, 'v) map_op = Get 'k | Insert 'k 'v | Remove 'k

fun run_simple_map :: "('k, 'v) map_op list \<Rightarrow> ('k, 'v) SimpleMap \<Rightarrow> 'v option list outcome" where
  "run_simple_map [] m = Done []"
| "run_simple_map (Get k # ops) m =
     and_then (run_simple_map ops m) (\<lambda>out.
       Done (Option.bind (simple_map_get_mut m k) (simple_map_deref m) # out))"
| "run_simple_map (Insert k v # ops) m =
     and_then (simple_map_insert m k v) (\<lambda>(i, m').
     and_then (run_simple_map ops m') (\<lambda>out. Done (simple_map_deref m' i # out)))"
| "run_simple_map (Remove k # ops) m =
     (let (r, m') = simple_map_remove m k
      in and_then (run_simple_map ops m') (\<lambda>out. Done (r # out)))"

fun run_bounded :: "nat \<Rightarrow> ('k, 'v) map_op list \<Rightarrow> ('k \<rightharpoonup> 'v) \<Rightarrow> 'v option list outcome" where
  "run_bounded cap [] f = Done []"
| "run_bounded cap (Get k # ops) f =
     and_then (run_bounded cap ops f) (\<lambda>out. Done (f k # out))"
| "run_bounded cap (Insert k v # ops) f =
     (if f k = None \<and> card (dom f) = cap then Panicked ''maximum capacity exceeded''
      else and_then (run_bounded cap ops (f(k \<mapsto> v))) (\<lambda>out. Done (Some v # out)))"
| "run_bounded cap (Remove k # ops) f =
     and_then (run_bounded cap ops (f(k := None))) (\<lambda>out. Done (f k # out))"

lemma simple_map_deref_inserted:
  assumes inv: "simple_map_inv cap m" and ins: "simple_map_insert m k v = Done (i, m')"
  shows "simple_map_deref m' i = Some v"
proof -
  have "simple_map_lookup m' k = Some v" by (simp add: simple_map.ins_look [OF inv ins])
  then show ?thesis by (simp add: simple_map_lookup_def simple_map.ins_get [OF inv ins])
qed

lemma run_simple_map_refines:
  "simple_map_inv cap m \<Longrightarrow> run_simple_map ops m = run_bounded cap ops (simple_map_lookup m)"
proof (induction ops arbitrary: m)
  case (Cons op ops)
  note inv = Cons.prems
  show ?case
  proof (cases op)
    case (Get k)
    then show ?thesis using Cons.IH [OF inv] by (simp add: simple_map_lookup_def)
  next
    case (Remove k)
    then show ?thesis
      using Cons.IH [OF simple_map.del_inv [OF inv, of k], unfolded simple_map.del_look [OF inv]]
        simple_map.del_result [OF inv, of k]
      by (simp add: Let_def case_prod_beta del: fun_upd_apply)
  next
    case (Insert k v)
    show ?thesis
    proof (cases "simple_map_insert m k v")
      case (Panicked p)
      with Insert show ?thesis using simple_map.ins_panics [OF inv, of k v p] by simp
    next
      case (Done im)
      obtain i m' where im: "im = (i, m')" by (cases im)
      note ins = Done [unfolded im]
      have "\<not> (simple_map_lookup m k = None \<and> card (dom (simple_map_lookup m)) = cap)"
        using simple_map.ins_panics [OF inv, of k v] ins by auto
      then show ?thesis
        using Cons.IH [OF simple_map.ins_inv [OF inv ins], unfolded simple_map.ins_look [OF inv ins]]
          simple_map_deref_inserted [OF inv ins]
        by (simp only: Insert ins run_simple_map.simps run_bounded.simps and_then.simps
            case_prod_conv if_False)
    qed
  qed
qed simp

lemma simple_map_new_inv: "simple_map_inv cap (simple_map_new cap)"
  by (rule simple_map_invI) (simp_all add: simple_map_new_def)

lemma simple_map_new_lookup: "simple_map_lookup (simple_map_new cap) = Map.empty"
proof (rule map_ext_Some)
  show "simple_map_lookup (simple_map_new cap) k = Some v \<longleftrightarrow> Map.empty k = Some v" for k and v :: 'b
    unfolding simple_map_lookup_iff [OF simple_map_new_inv] by (auto simp: simple_map_new_def)
qed

section \<open>Properties\<close>

text \<open>
  C16: \<open>SimpleMap\<close> refines a partial map with a capacity: for every sequence of lookups,
  insertions and removals from an empty map, it returns the same values, and panics at the
  same insertion, as the partial function that refuses a new key once \<open>CAPACITY\<close> keys are
  present. In particular re-inserting a present key never panics, however full the map is.
\<close>

theorem simple_map_refines_bounded_map:
  "run_simple_map ops (simple_map_new CAPACITY) = run_bounded CAPACITY ops Map.empty"
  using run_simple_map_refines [OF simple_map_new_inv, of ops CAPACITY]
  by (simp add: simple_map_new_lookup)

text \<open>
  Inserting writes exactly one key: on success the new entry is readable through the
  returned reference, every other key keeps its value and its slot (so references to other
  entries stay valid), and the invariant holds again.
\<close>

theorem simple_map_insert_frame:
  assumes "simple_map_inv CAPACITY m" and "simple_map_insert m k v = Done (i, m')"
  shows "simple_map_inv CAPACITY m' \<and> simple_map_deref m' i = Some v \<and>
    (\<forall>k'. k' \<noteq> k \<longrightarrow> simple_map_lookup m' k' = simple_map_lookup m k' \<and>
                     simple_map_get_mut m' k' = simple_map_get_mut m k')"
  using simple_map.ins_inv [OF assms] simple_map.ins_look [OF assms]
    simple_map.ins_get_other [OF assms] simple_map_deref_inserted [OF assms]
  by auto

definition example_map :: "(nat, nat) SimpleMap" where
  "example_map = \<lparr>items = [None, Some \<lparr>item_key = 7, item_value = 70\<rparr>]\<rparr>"

theorem simple_map_insert_frame_witness:
  "simple_map_inv 2 example_map \<and>
   (\<exists>m'. simple_map_insert example_map 8 80 = Done (0, m') \<and> simple_map_deref m' 0 = Some 80 \<and>
         simple_map_lookup m' 7 = Some 70 \<and> simple_map_get_mut m' 7 = Some 1)"
proof -
  have inv: "simple_map_inv 2 example_map"
    by (rule simple_map_invI) (auto simp: example_map_def less_2_cases_iff)
  obtain m' where ins: "simple_map_insert example_map 8 80 = Done (0, m')"
    by (simp add: simple_map_insert_def simple_map_remove_def example_map_def)
  have "simple_map_lookup example_map 7 = Some 70" "simple_map_get_mut example_map 7 = Some 1"
    by (simp_all add: simple_map_lookup_def simple_map_get_mut_def simple_map_deref_def
        example_map_def)
  with simple_map_insert_frame [OF inv ins] inv ins show ?thesis by auto
qed

end
