(* ===== verification/Hypervisor.thy ===== *)
theory Hypervisor
  imports Sysregs Platform Simple_Map
begin

text \<open>
  The hypervisor proper (\<open>src/src/hypervisor.rs\<close>, the barriers of \<open>src/src/arch.rs\<close> and the Rust
  half of the trap entry in \<open>src/src/exceptions.rs\<close>): entering the guest, the trap handler, the
  emulation of memory accesses, fault injection and PSCI.

  The state \<open>hyp\<close> is one core's registers together with the statics that all cores share.
  Parameters, in the record \<open>hyp_deps\<close>: the platform, the page table, the register fields of
  \<open>arm_sysregs\<close>, the decoding of PSCI calls (\<open>arm_psci\<close>) and the calls that leave RITM
  (\<open>smccc::smc64\<close>, \<open>aarch64_rt::start_core\<close> and \<open>suspend_core\<close>), which act on a world \<open>'w\<close> and
  return \<open>None\<close> when they do not return. Values of third-party types are represented by what the
  code observes of them: an MPIDR by its bits, an error by its code, a stack by its address. \<open>hd_stack_address\<close> is where the linker placed the stack of
  each slot; \<open>hv_core_calls\<close> records the calls that start and suspend cores, and no code reads it.
\<close>

section \<open>Constants\<close>

definition AARCH64_INSTRUCTION_LENGTH :: usize where "AARCH64_INSTRUCTION_LENGTH = 4"
definition EC_DATA_ABORT_LOWER_EL :: u8 where "EC_DATA_ABORT_LOWER_EL = 0x24"
definition EC_DATA_ABORT_SAME_EL :: u8 where "EC_DATA_ABORT_SAME_EL = 0x25"
definition SPSR_EL1H :: u8 where "SPSR_EL1H = 5"
definition T0SZ_MAX_SIZE :: u8 where "T0SZ_MAX_SIZE = 64"

datatype ExceptionClass = HvcTrappedInAArch64 | SmcTrappedInAArch64 | DataAbortLowerEL | Unknown u8

definition exception_class_from :: "u8 \<Rightarrow> ExceptionClass" where
  "exception_class_from value =
     (if value = 0x16 then HvcTrappedInAArch64
      else if value = 0x17 then SmcTrappedInAArch64
      else if value = EC_DATA_ABORT_LOWER_EL then DataAbortLowerEL
      else Unknown value)"

section \<open>PSCI calls and shared state\<close>

record EntryPoint =
  entry_point_address :: u64
  context_id :: u64

text \<open>The variants of \<open>arm_psci::Function\<close>, with the fields the code uses.\<close>

datatype Function =
    Version | CpuOff | AffinityInfo | Migrate | MigrateInfoType | MigrateInfoUpCpu | SystemOff
  | SystemOff2 | SystemReset | SystemReset2 | MemProtect | MemProtectCheckRange | Features
  | CpuFreeze | CpuDefaultSuspend | NodeHwState | SystemSuspend | SetSuspendMode | StatResidency
  | StatCount
  | CpuOn u64 EntryPoint
  | CpuSuspend u32 EntryPoint

record SuspendCoreData =
  scd_entry_point :: u64
  scd_context_id :: u64

text \<open>
  The calls that hand a stack to another start of a core, with the core and the pointer passed:
  \<open>start_core\<close> gets a pointer to the stack, \<open>suspend_core\<close> a stack pointer. \<open>hv_core_calls\<close> lists
  those made so far, latest first; the code does not read it.
\<close>

datatype core_call = StartCore u64 usize | SuspendCore u64 usize

record ('s, 'idmap, 'w) hyp =
  hv_core :: core
  hv_stage2_config :: "('s, 'idmap) Stage2Config option"
  hv_suspend_contexts :: "(u64, SuspendCoreData) SimpleMap"
  hv_secondary_stacks :: "(u64, unit) SimpleMap"
  hv_platform :: 's
  hv_world :: 'w
  hv_core_calls :: "core_call list"

record ('s, 'idmap, 'me, 'attr, 'e, 'w) hyp_deps =
  hd_sysregs :: arm_sysregs
  hd_stage2 :: "('s, 'idmap, 'me, 'attr) stage2_deps"
  hd_idmap_activate :: "'idmap \<Rightarrow> core \<Rightarrow> 'idmap \<times> core"
  hd_configure_memory_access ::
    "('s, 'idmap) Stage2Builder \<Rightarrow> (('me Stage2ConfigError + unit) \<times> ('s, 'idmap) Stage2Builder) outcome"
  hd_handle_hvc :: "u64 \<Rightarrow> u64 list \<Rightarrow> 'e HvcResult"
  hd_smccc_error :: "'e smccc_error"
  hd_function_try_from :: "u64 list \<Rightarrow> i32 + Function"
  hd_ReturnCode_Success :: i32
  hd_smc64 :: "u32 \<Rightarrow> u64 list \<Rightarrow> 'w \<Rightarrow> u64 list option \<times> 'w"
  hd_stack_address :: "nat \<Rightarrow> usize"
  hd_start_core :: "u64 \<Rightarrow> usize \<Rightarrow> EntryPoint \<Rightarrow> 'w \<Rightarrow> (i64 + unit) \<times> 'w"
  hd_suspend_core :: "u32 \<Rightarrow> usize \<Rightarrow> 'w \<Rightarrow> (i64 + unit) option \<times> 'w"

text \<open>The statics at boot; \<open>max_cores\<close> is the platform's \<open>MAX_CORES\<close>.\<close>

definition hyp_init :: "nat \<Rightarrow> core \<Rightarrow> 's \<Rightarrow> 'w \<Rightarrow> ('s, 'idmap, 'w) hyp" where
  "hyp_init max_cores c s w =
     \<lparr>hv_core = c, hv_stage2_config = None, hv_suspend_contexts = simple_map_new max_cores,
      hv_secondary_stacks = simple_map_new max_cores, hv_platform = s, hv_world = w, hv_core_calls = []\<rparr>"

section \<open>Stage 2 and the entry into the guest\<close>

text \<open>The barriers and the TLB invalidation of \<open>src/src/arch.rs\<close>, one instruction each.\<close>

definition dsb :: "core \<Rightarrow> core" where
  "dsb c = c\<lparr>cr_cpu := exec (Maintain Dsb_sy :: unit instr) (cr_cpu c)\<rparr>"

definition isb :: "core \<Rightarrow> core" where
  "isb c = c\<lparr>cr_cpu := exec (Maintain Isb :: unit instr) (cr_cpu c)\<rparr>"

definition tlbi_vmalls12e1 :: "core \<Rightarrow> core" where
  "tlbi_vmalls12e1 c = c\<lparr>cr_cpu := exec (Maintain Tlbi_vmalls12e1 :: unit instr) (cr_cpu c)\<rparr>"

text \<open>\<open>write_vtcr_el2\<close>, logged to order it against the invalidation.\<close>

definition write_vtcr_el2 :: "u64 \<Rightarrow> core \<Rightarrow> core" where
  "write_vtcr_el2 vtcr c = c\<lparr>cr_cpu := exec (Maintain (Msr_vtcr_el2 vtcr) :: unit instr) (cr_cpu c), cr_vtcr_el2 := vtcr\<rparr>"

text \<open>\<open>Once::call_once\<close>: the first caller runs the initialiser, every later one gets its result.\<close>

definition stage2_config ::
  "('s, 'idmap, 'me, 'attr, 'e, 'w) hyp_deps \<Rightarrow> ('s, 'idmap, 'w) hyp \<Rightarrow>
   (('s, 'idmap) Stage2Config \<times> ('s, 'idmap, 'w) hyp) outcome" where
  "stage2_config H h =
     (case hv_stage2_config h of
        Some config \<Rightarrow> Done (config, h)
      | None \<Rightarrow>
          and_then (hd_configure_memory_access H (builder_new (hd_stage2 H))) (\<lambda>(result, builder).
          and_then (expect_ok ''failed to configure stage-2 memory access'' result) (\<lambda>_.
          (let config = builder_build builder in Done (config, h\<lparr>hv_stage2_config := Some config\<rparr>)))))"

definition setup_stage2 ::
  "('s, 'idmap, 'me, 'attr, 'e, 'w) hyp_deps \<Rightarrow> ('s, 'idmap, 'w) hyp \<Rightarrow> ('s, 'idmap, 'w) hyp outcome" where
  "setup_stage2 H h =
     and_then (stage2_config H h) (\<lambda>(config, h).
     (let S = hd_sysregs H;
          (idmap, c) = hd_idmap_activate H (sc_idmap config) (hv_core h);
          vtcr = 0;
          vtcr = VtcrEl2_set_ps S vtcr 2;
          vtcr = VtcrEl2_set_tg0 S vtcr 0;
          vtcr = VtcrEl2_set_sh0 S vtcr 3;
          vtcr = VtcrEl2_set_orgn0 S vtcr 1;
          vtcr = VtcrEl2_set_irgn0 S vtcr 1;
          vtcr = VtcrEl2_set_sl0 S vtcr 2;
          vtcr = VtcrEl2_set_t0sz S vtcr (T0SZ_MAX_SIZE - 40);
          c = write_vtcr_el2 vtcr c;
          c = tlbi_vmalls12e1 c;
          c = dsb c;
          c = isb c
      in Done (h\<lparr>hv_core := c, hv_stage2_config := Some (config\<lparr>sc_idmap := idmap\<rparr>)\<rparr>)))"

text \<open>
  The register writes of \<open>entry_point_el1\<close> between \<open>setup_stage2\<close> and \<open>eret_to_el1\<close>. \<open>-=\<close> on a
  register value clears bits.
\<close>

definition setup_el1 :: "arm_sysregs \<Rightarrow> u64 \<Rightarrow> core \<Rightarrow> core" where
  "setup_el1 S entry_point c =
     (let hcr = 0;
          hcr = hcr OR HcrEl2_RW S;
          hcr = hcr OR HcrEl2_TSC S;
          hcr = hcr OR HcrEl2_VM S;
          hcr = hcr AND NOT (HcrEl2_IMO S);
          c = c\<lparr>cr_hcr_el2 := hcr\<rparr>;
          c = c\<lparr>cr_cntvoff_el2 := 0\<rparr>;
          cnthctl = cr_cnthctl_el2 c;
          cnthctl = cnthctl OR CnthctlEl2_EL0PCTEN S;
          cnthctl = cnthctl OR CnthctlEl2_EL1PCEN S;
          c = c\<lparr>cr_cnthctl_el2 := cnthctl\<rparr>;
          icc_sre = cr_icc_sre_el2 c;
          icc_sre = icc_sre OR IccSreEl2_SRE S;
          icc_sre = icc_sre OR IccSreEl2_DFB S;
          icc_sre = icc_sre OR IccSreEl2_DIB S;
          icc_sre = icc_sre OR IccSreEl2_ENABLE S;
          c = c\<lparr>cr_icc_sre_el2 := icc_sre\<rparr>;
          spsr = cr_spsr_el2 c;
          spsr = SpsrEl2_set_m_3_0 S spsr SPSR_EL1H;
          spsr = spsr OR SpsrEl2_D S;
          spsr = spsr OR SpsrEl2_A S;
          spsr = spsr OR SpsrEl2_I S;
          spsr = spsr OR SpsrEl2_F S;
          c = c\<lparr>cr_spsr_el2 := spsr\<rparr>;
          elr = ElrEl2_set_addr S 0 entry_point;
          c = c\<lparr>cr_elr_el2 := elr\<rparr>;
          sctlr = 0;
          sctlr = sctlr OR SctlrEl1_EOS S;
          sctlr = sctlr OR SctlrEl1_TSCXT S;
          sctlr = sctlr OR SctlrEl1_EIS S;
          sctlr = sctlr OR SctlrEl1_SPAN S;
          sctlr = sctlr OR SctlrEl1_NTLSMD S;
          sctlr = sctlr OR SctlrEl1_LSMAOE S;
          c = c\<lparr>cr_ttbr0_el1 := 0\<rparr>;
          c = c\<lparr>cr_tcr_el1 := 0\<rparr>;
          c = c\<lparr>cr_vbar_el1 := 0\<rparr>;
          c = c\<lparr>cr_mair_el1 := 0\<rparr>;
          c = c\<lparr>cr_sp_el1 := 0\<rparr>;
          c = c\<lparr>cr_sctlr_el1 := sctlr\<rparr>
      in c)"

text \<open>Calling \<open>eret_to_el1\<close> passes its arguments in \<open>x0\<close>--\<open>x3\<close>; it ends in the guest.\<close>

definition entry_point_el1 ::
  "('s, 'idmap, 'me, 'attr, 'e, 'w) hyp_deps \<Rightarrow> u64 \<Rightarrow> u64 \<Rightarrow> u64 \<Rightarrow> u64 \<Rightarrow> u64 \<Rightarrow> ('s, 'idmap, 'w) hyp \<Rightarrow>
   (exit \<times> ('s, 'idmap, 'w) hyp) outcome" where
  "entry_point_el1 H arg0 arg1 arg2 arg3 entry_point h =
     and_then (setup_stage2 H h) (\<lambda>h.
     (let c = setup_el1 (hd_sysregs H) entry_point (hv_core h);
          cpu = cr_cpu c;
          (exit, cpu) = run (\<lambda>_ cpu. cpu) (eret_to_el1 :: unit instr list)
            (cpu\<lparr>cpu_x := (cpu_x cpu)(0 := arg0, 1 := arg1, 2 := arg2, 3 := arg3)\<rparr>)
      in Done (exit, h\<lparr>hv_core := c\<lparr>cr_cpu := cpu\<rparr>\<rparr>)))"

section \<open>Emulated memory accesses and injected faults\<close>

definition write_saved_guest_register ::
  "GuestRegisterState \<Rightarrow> usize \<Rightarrow> u64 \<Rightarrow> bool \<times> GuestRegisterState" where
  "write_saved_guest_register register_state index value = write_gpr register_state index value"

definition advance_guest_pc :: "profile \<Rightarrow> GuestRegisterState \<Rightarrow> GuestRegisterState outcome" where
  "advance_guest_pc pr register_state = advance_pc pr register_state AARCH64_INSTRUCTION_LENGTH"

text \<open>The two arms of the \<open>match\<close> on the kind of the access.\<close>

definition emulate_read ::
  "profile \<Rightarrow> DecodedMemoryAccess \<Rightarrow> 's MemoryAccessHandlerMatch \<Rightarrow> GuestRegisterState \<Rightarrow> ('s, 'idmap, 'w) hyp \<Rightarrow>
   ((unit + unit) \<times> GuestRegisterState \<times> ('s, 'idmap, 'w) hyp) outcome" where
  "emulate_read pr decoded handler_match register_state h =
     (case mah_read (mar_handler (mhm_region handler_match)) of
        None \<Rightarrow> Done (Inl (), register_state, h)
      | Some read_handler \<Rightarrow>
          (let access = \<lparr>mra_ipa = dma_ipa decoded, mra_offset = mhm_offset handler_match,
                         mra_width = dma_width decoded\<rparr>;
               (result, s) = read_handler access (hv_platform h);
               h = h\<lparr>hv_platform := s\<rparr>
           in case result of
                Value value \<Rightarrow>
                  (let value = extend_read_result value (dma_width decoded) (dma_sign_extend decoded)
                                 (dma_register_width_64 decoded);
                       (written, register_state) =
                         write_saved_guest_register register_state (dma_register_index decoded) value
                   in if \<not> written then Done (Inl (), register_state, h)
                      else and_then (advance_guest_pc pr register_state) (\<lambda>register_state.
                             Done (Inr (), register_state, h)))
              | ReadFault \<Rightarrow> Done (Inl (), register_state, h)))"

definition emulate_write ::
  "profile \<Rightarrow> DecodedMemoryAccess \<Rightarrow> u64 \<Rightarrow> 's MemoryAccessHandlerMatch \<Rightarrow> GuestRegisterState \<Rightarrow>
   ('s, 'idmap, 'w) hyp \<Rightarrow> ((unit + unit) \<times> GuestRegisterState \<times> ('s, 'idmap, 'w) hyp) outcome" where
  "emulate_write pr decoded value handler_match register_state h =
     (case mah_write (mar_handler (mhm_region handler_match)) of
        None \<Rightarrow> Done (Inl (), register_state, h)
      | Some write_handler \<Rightarrow>
          (let access = \<lparr>mwa_ipa = dma_ipa decoded, mwa_offset = mhm_offset handler_match,
                         mwa_width = dma_width decoded, mwa_value = value\<rparr>;
               (result, s) = write_handler access (hv_platform h);
               h = h\<lparr>hv_platform := s\<rparr>
           in case result of
                WriteHandled \<Rightarrow> and_then (advance_guest_pc pr register_state) (\<lambda>register_state.
                                  Done (Inr (), register_state, h))
              | WriteFault \<Rightarrow> Done (Inl (), register_state, h)))"

definition try_memory_access_handler ::
  "('s, 'idmap, 'me, 'attr, 'e, 'w) hyp_deps \<Rightarrow> profile \<Rightarrow> GuestRegisterState \<Rightarrow> ('s, 'idmap, 'w) hyp \<Rightarrow>
   ((unit + unit) \<times> GuestRegisterState \<times> ('s, 'idmap, 'w) hyp) outcome" where
  "try_memory_access_handler H pr register_state h =
     (let S = hd_sysregs H; c = hv_core h in
     and_then (decode_memory_access (EsrEl2_iss S (cr_esr_el2 c)) (HpfarEl2_fipa S (cr_hpfar_el2 c))
                 (FarEl2_va S (cr_far_el2 c)) (read_gpr register_state)) (\<lambda>decoded.
     (case decoded of
        None \<Rightarrow> Done (Inl (), register_state, h)
      | Some decoded \<Rightarrow>
          and_then (stage2_config H h) (\<lambda>(config, h).
          and_then (registry_find pr (sc_memory_access_handlers config) (dma_ipa decoded)) (\<lambda>handler_match.
          (case handler_match of
             None \<Rightarrow> Done (Inl (), register_state, h)
           | Some handler_match \<Rightarrow>
               (case dma_kind decoded of
                  Read \<Rightarrow> emulate_read pr decoded handler_match register_state h
                | Write value \<Rightarrow> emulate_write pr decoded value handler_match register_state h)))))))"

definition inject_data_abort ::
  "arm_sysregs \<Rightarrow> profile \<Rightarrow> GuestRegisterState \<Rightarrow> core \<Rightarrow> (GuestRegisterState \<times> core) outcome" where
  "inject_data_abort S pr register_state c =
     (let fault_addr = cr_far_el2 c;
          esr = cr_esr_el2 c;
          vbar = cr_vbar_el1 c
      in if vbar = 0 then Panicked ''Guest VBAR_EL1 is 0, cannot inject data abort''
         else and_then (add_int pr vbar 0x200) (\<lambda>handler.
           (let (elr, spsr) = exception_return register_state;
                c = c\<lparr>cr_elr_el1 := elr\<rparr>;
                c = c\<lparr>cr_spsr_el1 := spsr\<rparr>;
                c = c\<lparr>cr_far_el1 := FarEl2_va S fault_addr\<rparr>;
                guest_esr = esr;
                guest_esr = (if EsrEl1_ec S guest_esr = EC_DATA_ABORT_LOWER_EL
                             then EsrEl1_set_ec S guest_esr EC_DATA_ABORT_SAME_EL else guest_esr);
                c = c\<lparr>cr_esr_el1 := guest_esr\<rparr>;
                spsr = 0;
                spsr = SpsrEl1_set_m_3_0 S spsr SPSR_EL1H;
                spsr = spsr OR SpsrEl1_D S;
                spsr = spsr OR SpsrEl1_A S;
                spsr = spsr OR SpsrEl1_I S;
                spsr = spsr OR SpsrEl1_F S
            in Done (set_exception_return register_state handler spsr, c))))"

section \<open>PSCI\<close>

text \<open>
  The stack of a core lives in a slot of the map, which never moves: a stack is identified by its
  slot, and \<open>hd_stack_address\<close> gives the pointer to it, as the compiler and the linker lay out the
  static. A stack is \<open>SECONDARY_STACK_PAGE_COUNT\<close> pages.
\<close>

definition SECONDARY_STACK_PAGE_COUNT :: usize where
  "SECONDARY_STACK_PAGE_COUNT = 4"

text \<open>\<open>wrapping_add\<close> on a pointer to a stack moves by whole stacks.\<close>

definition stack_wrapping_add :: "usize \<Rightarrow> usize \<Rightarrow> usize" where
  "stack_wrapping_add stack count = stack + count * (SECONDARY_STACK_PAGE_COUNT * PAGE_SIZE)"

definition get_secondary_stack :: "u64 \<Rightarrow> (u64, unit) SimpleMap \<Rightarrow> (nat \<times> (u64, unit) SimpleMap) outcome" where
  "get_secondary_stack mpidr stack_map =
     (case simple_map_get_mut stack_map mpidr of
        Some stack \<Rightarrow> Done (stack, stack_map)
      | None \<Rightarrow> simple_map_insert stack_map mpidr ())"

text \<open>The calls of \<open>aarch64_rt::start_core\<close> and \<open>aarch64_rt::suspend_core\<close>, with their trace.\<close>

definition start_core ::
  "('s, 'idmap, 'me, 'attr, 'e, 'w) hyp_deps \<Rightarrow> u64 \<Rightarrow> usize \<Rightarrow> EntryPoint \<Rightarrow> ('s, 'idmap, 'w) hyp \<Rightarrow>
   (i64 + unit) \<times> ('s, 'idmap, 'w) hyp" where
  "start_core H mpidr stack entry h =
     (let (result, w) = hd_start_core H mpidr stack entry (hv_world h)
      in (result, h\<lparr>hv_world := w, hv_core_calls := StartCore mpidr stack # hv_core_calls h\<rparr>))"

definition suspend_core ::
  "('s, 'idmap, 'me, 'attr, 'e, 'w) hyp_deps \<Rightarrow> u32 \<Rightarrow> usize \<Rightarrow> ('s, 'idmap, 'w) hyp \<Rightarrow>
   (i64 + unit) option \<times> ('s, 'idmap, 'w) hyp" where
  "suspend_core H power_state stack_ptr h =
     (let (result, w) = hd_suspend_core H power_state stack_ptr (hv_world h)
      in (result, h\<lparr>hv_world := w, hv_core_calls := SuspendCore (cr_mpidr_el1 (hv_core h)) stack_ptr # hv_core_calls h\<rparr>))"

text \<open>The closure that \<open>psci_cpu_on\<close> passes to \<open>start_core\<close>; the new core runs it.\<close>

definition started_core ::
  "('s, 'idmap, 'me, 'attr, 'e, 'w) hyp_deps \<Rightarrow> EntryPoint \<Rightarrow> ('s, 'idmap, 'w) hyp \<Rightarrow>
   (exit \<times> ('s, 'idmap, 'w) hyp) outcome" where
  "started_core H entry h =
     (let entry_ptr = entry_point_address entry; arg = context_id entry
      in entry_point_el1 H arg 0 0 0 entry_ptr h)"

definition psci_cpu_on ::
  "('s, 'idmap, 'me, 'attr, 'e, 'w) hyp_deps \<Rightarrow> u64 \<Rightarrow> EntryPoint \<Rightarrow> ('s, 'idmap, 'w) hyp \<Rightarrow>
   ((i64 + unit) \<times> ('s, 'idmap, 'w) hyp) outcome" where
  "psci_cpu_on H mpidr entry h =
     and_then (get_secondary_stack mpidr (hv_secondary_stacks h)) (\<lambda>(slot, stacks).
     (let h = h\<lparr>hv_secondary_stacks := stacks\<rparr>;
          stack = hd_stack_address H slot
      in Done (start_core H mpidr stack entry h)))"

text \<open>
  \<open>psci_cpu_suspend\<close> up to the call of \<open>suspend_core\<close>, in its two locked steps, and after a
  return of that call. A power-down does not return here: the core comes back through
  \<open>restore_from_suspend\<close>.
\<close>

definition suspend_save_context ::
  "EntryPoint \<Rightarrow> ('s, 'idmap, 'w) hyp \<Rightarrow> ('s, 'idmap, 'w) hyp outcome" where
  "suspend_save_context entry h =
     (let mpidr = cr_mpidr_el1 (hv_core h);
          context = \<lparr>scd_entry_point = entry_point_address entry, scd_context_id = context_id entry\<rparr>
      in and_then (simple_map_insert (hv_suspend_contexts h) mpidr context) (\<lambda>(_, contexts).
           Done (h\<lparr>hv_suspend_contexts := contexts\<rparr>)))"

definition suspend_get_stack ::
  "('s, 'idmap, 'me, 'attr, 'e, 'w) hyp_deps \<Rightarrow> ('s, 'idmap, 'w) hyp \<Rightarrow> (usize \<times> ('s, 'idmap, 'w) hyp) outcome" where
  "suspend_get_stack H h =
     and_then (get_secondary_stack (cr_mpidr_el1 (hv_core h)) (hv_secondary_stacks h)) (\<lambda>(slot, stacks).
       Done (stack_wrapping_add (hd_stack_address H slot) 1, h\<lparr>hv_secondary_stacks := stacks\<rparr>))"

definition suspend_returned :: "('s, 'idmap, 'w) hyp \<Rightarrow> ('s, 'idmap, 'w) hyp" where
  "suspend_returned h =
     h\<lparr>hv_suspend_contexts := snd (simple_map_remove (hv_suspend_contexts h) (cr_mpidr_el1 (hv_core h)))\<rparr>"

definition psci_cpu_suspend ::
  "('s, 'idmap, 'me, 'attr, 'e, 'w) hyp_deps \<Rightarrow> u32 \<Rightarrow> EntryPoint \<Rightarrow> ('s, 'idmap, 'w) hyp \<Rightarrow>
   ((i64 + unit) option \<times> ('s, 'idmap, 'w) hyp) outcome" where
  "psci_cpu_suspend H power_state entry h =
     and_then (suspend_save_context entry h) (\<lambda>h.
     and_then (suspend_get_stack H h) (\<lambda>(stack_ptr, h).
     (let (result, h) = suspend_core H power_state stack_ptr h
      in case result of
           None \<Rightarrow> Done (None, h)
         | Some result \<Rightarrow> Done (Some result, suspend_returned h))))"

definition restore_from_suspend ::
  "('s, 'idmap, 'me, 'attr, 'e, 'w) hyp_deps \<Rightarrow> ('s, 'idmap, 'w) hyp \<Rightarrow> (exit \<times> ('s, 'idmap, 'w) hyp) outcome" where
  "restore_from_suspend H h =
     (let mpidr = cr_mpidr_el1 (hv_core h);
          (removed, contexts) = simple_map_remove (hv_suspend_contexts h) mpidr;
          h = h\<lparr>hv_suspend_contexts := contexts\<rparr>
      in and_then (expect_some ''context not found for resuming CPU'' removed) (\<lambda>context.
           entry_point_el1 H (scd_context_id context) 0 0 0 (scd_entry_point context) h))"

definition psci_result_to_u64 ::
  "('s, 'idmap, 'me, 'attr, 'e, 'w) hyp_deps \<Rightarrow> i64 + unit \<Rightarrow> u64" where
  "psci_result_to_u64 H result =
     (case result of Inr _ \<Rightarrow> ucast (hd_ReturnCode_Success H) | Inl err \<Rightarrow> err)"

definition forward_psci ::
  "('s, 'idmap, 'me, 'attr, 'e, 'w) hyp_deps \<Rightarrow> u64 \<Rightarrow> u64 \<Rightarrow> u64 \<Rightarrow> u64 \<Rightarrow> ('s, 'idmap, 'w) hyp \<Rightarrow>
   u64 option \<times> ('s, 'idmap, 'w) hyp" where
  "forward_psci H fn_id arg0 arg1 arg2 h =
     (let smc_args = replicate 17 0;
          smc_args = smc_args[0 := arg0];
          smc_args = smc_args[1 := arg1];
          smc_args = smc_args[2 := arg2];
          (result, w) = hd_smc64 H (ucast fn_id) smc_args (hv_world h)
      in (map_option (\<lambda>result. result ! 0) result, h\<lparr>hv_world := w\<rparr>))"

definition handle_psci ::
  "('s, 'idmap, 'me, 'attr, 'e, 'w) hyp_deps \<Rightarrow> u64 \<Rightarrow> u64 \<Rightarrow> u64 \<Rightarrow> u64 \<Rightarrow> ('s, 'idmap, 'w) hyp \<Rightarrow>
   ((i32 + u64) option \<times> ('s, 'idmap, 'w) hyp) outcome" where
  "handle_psci H fn_id arg0 arg1 arg2 h =
     (case hd_function_try_from H [fn_id, arg0, arg1, arg2] of
        Inl error \<Rightarrow> Done (Some (Inl error), h)
      | Inr psci_fn \<Rightarrow>
          (case psci_fn of
             CpuOn target_cpu entry \<Rightarrow>
               and_then (psci_cpu_on H target_cpu entry h) (\<lambda>(result, h).
                 Done (Some (Inr (psci_result_to_u64 H result)), h))
           | CpuSuspend state entry \<Rightarrow>
               and_then (psci_cpu_suspend H state entry h) (\<lambda>(result, h).
                 Done (map_option (\<lambda>result. Inr (psci_result_to_u64 H result)) result, h))
           | _ \<Rightarrow>
               (let (result, h) = forward_psci H fn_id arg0 arg1 arg2 h in Done (map_option Inr result, h))))"

definition try_handle_psci ::
  "('s, 'idmap, 'me, 'attr, 'e, 'w) hyp_deps \<Rightarrow> u64 \<Rightarrow> u64 \<Rightarrow> u64 \<Rightarrow> u64 \<Rightarrow> ('s, 'idmap, 'w) hyp \<Rightarrow>
   (('e + HvcResponse) option \<times> ('s, 'idmap, 'w) hyp) outcome" where
  "try_handle_psci H fn_id arg0 arg1 arg2 h =
     and_then (handle_psci H fn_id arg0 arg1 arg2 h) (\<lambda>(out, h).
       Done (map_option (\<lambda>out. case out of
                Inr val \<Rightarrow> Inr (response_from_u64 val)
              | Inl error_code \<Rightarrow> Inl (error_from_i32 (hd_smccc_error H) error_code)) out, h))"

section \<open>The trap handler\<close>

text \<open>The arm for hypervisor calls: \<open>None\<close> if the call does not return to the guest.\<close>

definition handle_call ::
  "('s, 'idmap, 'me, 'attr, 'e, 'w) hyp_deps \<Rightarrow> GuestRegisterState \<Rightarrow> ('s, 'idmap, 'w) hyp \<Rightarrow>
   (GuestRegisterState option \<times> ('s, 'idmap, 'w) hyp) outcome" where
  "handle_call H register_state h =
     (let gprs = volatile_gprs register_state;
          function_id = gprs ! 0;
          args = take 17 (drop 1 gprs)
      in and_then
           (if 0x84000000 \<le> function_id \<and> function_id \<le> 0x8400001F \<or>
               0xC4000000 \<le> function_id \<and> function_id \<le> 0xC400001F
            then and_then (try_handle_psci H function_id (args ! 0) (args ! 1) (args ! 2) h) (\<lambda>(result, h).
                   Done (map_option Handled result, h))
            else Done (Some (hd_handle_hvc H function_id args), h)) (\<lambda>(result, h).
         Done (map_option (\<lambda>result. modify_register_state (hd_smccc_error H) result register_state) result, h)))"

definition handle_sync_lower ::
  "('s, 'idmap, 'me, 'attr, 'e, 'w) hyp_deps \<Rightarrow> profile \<Rightarrow> GuestRegisterState \<Rightarrow> ('s, 'idmap, 'w) hyp \<Rightarrow>
   (GuestRegisterState option \<times> ('s, 'idmap, 'w) hyp) outcome" where
  "handle_sync_lower H pr register_state h =
     (let ec = exception_class_from (EsrEl2_ec (hd_sysregs H) (cr_esr_el2 (hv_core h)))
      in and_then
           (case ec of
              DataAbortLowerEL \<Rightarrow>
                and_then (try_memory_access_handler H pr register_state h) (\<lambda>(result, register_state, h).
                (case result of
                   Inr _ \<Rightarrow> Done (Some register_state, h)
                 | Inl _ \<Rightarrow>
                     and_then (inject_data_abort (hd_sysregs H) pr register_state (hv_core h)) (\<lambda>(register_state, c).
                       Done (Some register_state, h\<lparr>hv_core := c\<rparr>))))
            | Unknown val \<Rightarrow> Panicked ''Unexpected sync_lower''
            | _ \<Rightarrow> handle_call H register_state h) (\<lambda>(register_state, h).
         (case register_state of
            None \<Rightarrow> Done (None, h)
          | Some register_state \<Rightarrow>
              if ec = SmcTrappedInAArch64
              then and_then (advance_pc pr register_state AARCH64_INSTRUCTION_LENGTH) (\<lambda>register_state.
                     Done (Some register_state, h))
              else Done (Some register_state, h))))"

text \<open>The Rust function called by the naked wrapper; a null pointer is \<open>None\<close>.\<close>

definition sync_lower_with_nonvolatile ::
  "('s, 'idmap, 'me, 'attr, 'e, 'w) hyp_deps \<Rightarrow> profile \<Rightarrow> VolatileRegisters \<Rightarrow> NonVolatileRegisters option \<Rightarrow>
   ('s, 'idmap, 'w) hyp \<Rightarrow> (GuestRegisterState option \<times> ('s, 'idmap, 'w) hyp) outcome" where
  "sync_lower_with_nonvolatile H pr volatile nonvolatile h =
     and_then (expect_some ''non-volatile register frame should not be null'' nonvolatile) (\<lambda>nonvolatile.
       handle_sync_lower H pr \<lparr>grs_volatile = volatile, grs_nonvolatile = nonvolatile\<rparr> h)"

section \<open>Lemmas on the entry into the guest\<close>

text \<open>What every handler keeps: well-formed maps and a well-formed registry.\<close>

definition hyp_inv :: "nat \<Rightarrow> ('s, 'idmap, 'w) hyp \<Rightarrow> bool" where
  "hyp_inv cap h \<longleftrightarrow>
     simple_map_inv cap (hv_suspend_contexts h) \<and> simple_map_inv cap (hv_secondary_stacks h) \<and>
     (\<forall>config. hv_stage2_config h = Some config \<longrightarrow> registry_inv (sc_memory_access_handlers config))"

lemma hyp_init_inv: "hyp_inv cap (hyp_init cap c s w)"
  by (simp add: hyp_inv_def hyp_init_def simple_map_new_inv)

lemma hyp_inv_updates [simp]:
  "hyp_inv cap (h\<lparr>hv_core := c\<rparr>) = hyp_inv cap h"
  "hyp_inv cap (h\<lparr>hv_platform := s\<rparr>) = hyp_inv cap h"
  "hyp_inv cap (h\<lparr>hv_world := w\<rparr>) = hyp_inv cap h"
  by (simp_all add: hyp_inv_def)

abbreviation hyp_platform_ok :: "('s, 'idmap, 'me, 'attr, 'e, 'w) hyp_deps \<Rightarrow> bool" where
  "hyp_platform_ok H \<equiv> platform_contract (hd_stage2 H) (hd_configure_memory_access H) (hd_handle_hvc H)"

lemma stage2_config_configured:
  "hv_stage2_config h = Some config \<Longrightarrow> stage2_config H h = Done (config, h)"
  by (simp add: stage2_config_def)

lemma stage2_config_first:
  "hv_stage2_config h = None \<Longrightarrow>
   hd_configure_memory_access H (builder_new (hd_stage2 H)) = Done (Inr (), b) \<Longrightarrow>
   stage2_config H h = Done (builder_build b, h\<lparr>hv_stage2_config := Some (builder_build b)\<rparr>)"
  by (simp add: stage2_config_def Let_def)

lemma stage2_config_state:
  "stage2_config H h = Done (config, h') \<Longrightarrow> h' = h\<lparr>hv_stage2_config := Some config\<rparr>"
  by (cases h) (auto simp: stage2_config_def Let_def split: option.splits)

lemma stage2_config_Done:
  assumes "hyp_platform_ok H" and "stage2_deps_ok (hd_stage2 H) maps" and "hyp_inv cap h"
    and "stage2_config H h = Done (config, h')"
  shows "registry_inv (sc_memory_access_handlers config)" and "h' = h\<lparr>hv_stage2_config := Some config\<rparr>"
    and "hyp_inv cap h'"
proof -
  have "registry_inv (sc_memory_access_handlers config) \<and> h' = h\<lparr>hv_stage2_config := Some config\<rparr>"
  proof (cases "hv_stage2_config h")
    case None
    then obtain b where b: "hd_configure_memory_access H (builder_new (hd_stage2 H)) = Done (Inr (), b)"
      and "config = builder_build b" "h' = h\<lparr>hv_stage2_config := Some config\<rparr>"
      using assms(4) by (auto simp: stage2_config_def Let_def)
    moreover have "builder_inv maps b"
      by (rule platform_contract.configured_inv [OF assms(1,2) b])
    ultimately show ?thesis by (simp add: builder_inv_def builder_wf_def builder_build_def)
  qed (use assms(3,4) in \<open>simp add: stage2_config_def hyp_inv_def\<close>)
  then show "registry_inv (sc_memory_access_handlers config)" "h' = h\<lparr>hv_stage2_config := Some config\<rparr>"
    "hyp_inv cap h'"
    using assms(3) by (simp_all add: hyp_inv_def)
qed

text \<open>
  Activating the page table programs its root into \<open>VTTBR_EL2\<close>, with whatever barriers the
  library needs, and changes nothing else.
\<close>

definition activate_ok :: "('s, 'idmap, 'me, 'attr, 'e, 'w) hyp_deps \<Rightarrow> ('idmap \<Rightarrow> u64) \<Rightarrow> bool" where
  "activate_ok H root \<longleftrightarrow>
     (\<forall>m c. \<exists>evs. snd (hd_idmap_activate H m c) =
        c\<lparr>cr_cpu := (cr_cpu c)\<lparr>cpu_events := cpu_events (cr_cpu c) @ evs\<rparr>, cr_vttbr_el2 := root m\<rparr>)"

text \<open>The value of \<open>VTCR_EL2\<close>: 40-bit input and output addresses, 4 KiB granule, level 0, write-back.\<close>

lemma vtcr_value:
  assumes "arm_sysregs_ok S"
  shows "VtcrEl2_set_t0sz S (VtcrEl2_set_sl0 S (VtcrEl2_set_irgn0 S (VtcrEl2_set_orgn0 S (VtcrEl2_set_sh0 S
     (VtcrEl2_set_tg0 S (VtcrEl2_set_ps S 0 2) 0) 3) 1) 1) 2) (T0SZ_MAX_SIZE - 40) = 0x23598"
  using assms by (simp add: arm_sysregs_ok_def set_field_def T0SZ_MAX_SIZE_def mask_eq_exp_minus_1)

lemma setup_el1_fixed:
  assumes "arm_sysregs_ok S"
  shows "cr_hcr_el2 (setup_el1 S e c) = 0x80080001" and "cr_sctlr_el1 (setup_el1 S e c) = 0x30D00800"
    and "cr_elr_el2 (setup_el1 S e c) = e"
    and "cr_spsr_el2 (setup_el1 S e c) = set_field 0 4 (cr_spsr_el2 c) 5 OR 0x3c0"
    and "cr_cnthctl_el2 (setup_el1 S e c) = cr_cnthctl_el2 c OR 3"
    and "cr_icc_sre_el2 (setup_el1 S e c) = cr_icc_sre_el2 c OR 0xf"
  using assms by (simp_all add: setup_el1_def Let_def arm_sysregs_ok_def SPSR_EL1H_def or.assoc)

lemma setup_el1_reset:
  "cr_cntvoff_el2 (setup_el1 S e c) = 0" "cr_ttbr0_el1 (setup_el1 S e c) = 0" "cr_tcr_el1 (setup_el1 S e c) = 0"
  "cr_vbar_el1 (setup_el1 S e c) = 0" "cr_mair_el1 (setup_el1 S e c) = 0" "cr_sp_el1 (setup_el1 S e c) = 0"
  "cr_cpu (setup_el1 S e c) = cr_cpu c" "cr_vtcr_el2 (setup_el1 S e c) = cr_vtcr_el2 c"
  "cr_vttbr_el2 (setup_el1 S e c) = cr_vttbr_el2 c" "cr_mpidr_el1 (setup_el1 S e c) = cr_mpidr_el1 c"
  by (simp_all add: setup_el1_def Let_def)

lemma setup_stage2_eq:
  assumes "arm_sysregs_ok (hd_sysregs H)" and "activate_ok H root" and "stage2_config H h = Done (config, h1)"
  shows "\<exists>evs. setup_stage2 H h = Done (h1\<lparr>hv_core := (hv_core h1)\<lparr>
       cr_cpu := (cr_cpu (hv_core h1))\<lparr>cpu_events := cpu_events (cr_cpu (hv_core h1)) @ evs @
          [Msr_vtcr_el2 0x23598, Tlbi_vmalls12e1, Dsb_sy, Isb]\<rparr>,
       cr_vtcr_el2 := 0x23598, cr_vttbr_el2 := root (sc_idmap config)\<rparr>,
     hv_stage2_config := Some (config\<lparr>sc_idmap := fst (hd_idmap_activate H (sc_idmap config) (hv_core h1))\<rparr>)\<rparr>)"
proof -
  obtain m c where mc: "hd_idmap_activate H (sc_idmap config) (hv_core h1) = (m, c)" by fastforce
  then obtain evs where "c = (hv_core h1)\<lparr>cr_cpu := (cr_cpu (hv_core h1))
      \<lparr>cpu_events := cpu_events (cr_cpu (hv_core h1)) @ evs\<rparr>, cr_vttbr_el2 := root (sc_idmap config)\<rparr>"
    using assms(2) unfolding activate_ok_def by (metis snd_conv)
  then show ?thesis
    by (intro exI [of _ evs])
      (simp add: setup_stage2_def assms(3) mc Let_def vtcr_value [OF assms(1)] write_vtcr_el2_def
        tlbi_vmalls12e1_def dsb_def isb_def)
qed

end
