(* ===== verification/Trap.thy ===== *)
theory Trap
  imports Hypervisor
begin

text \<open>
  What the trap handler (\<open>handle_sync_lower\<close> in \<open>src/src/hypervisor.rs\<close>) does to the guest: the
  emulation of memory accesses refines the reference \<open>emulation_of\<close>, a fault that is not emulated
  becomes an exception of the guest, hypervisor calls write their result back, and the panics
  are exactly the listed ones.
\<close>

section \<open>A reference for emulated accesses\<close>

datatype emulation = Loaded u64 | Stored | Faulted

text \<open>What an access, decoded or not, should do: search the region, ask its handler, widen the value.\<close>

definition emulation_of ::
  "'s MemoryAccessHandlerRegistry \<Rightarrow> DecodedMemoryAccess option \<Rightarrow> 's \<Rightarrow> emulation \<times> 's" where
  "emulation_of reg d s =
     (case d of
        None \<Rightarrow> (Faulted, s)
      | Some a \<Rightarrow>
          (case region_covering reg (dma_ipa a) of
             None \<Rightarrow> (Faulted, s)
           | Some R \<Rightarrow>
               (case dma_kind a of
                  Read \<Rightarrow>
                    (case mah_read (mar_handler R) of
                       None \<Rightarrow> (Faulted, s)
                     | Some f \<Rightarrow>
                         (case f \<lparr>mra_ipa = dma_ipa a, mra_offset = dma_ipa a - mar_base_ipa R, mra_width = dma_width a\<rparr> s of
                            (Value v, s') \<Rightarrow>
                              (Loaded (register_load (dma_width a) (dma_sign_extend a) (dma_register_width_64 a) v), s')
                          | (ReadFault, s') \<Rightarrow> (Faulted, s')))
                | Write v \<Rightarrow>
                    (case mah_write (mar_handler R) of
                       None \<Rightarrow> (Faulted, s)
                     | Some f \<Rightarrow>
                         (case f \<lparr>mwa_ipa = dma_ipa a, mwa_offset = dma_ipa a - mar_base_ipa R, mwa_width = dma_width a,
                                  mwa_value = v\<rparr> s of
                            (WriteHandled, s') \<Rightarrow> (Stored, s')
                          | (WriteFault, s') \<Rightarrow> (Faulted, s'))))))"

section \<open>Emulation\<close>

lemma hv_platform_same [simp]: "h\<lparr>hv_platform := hv_platform h\<rparr> = h"
  by (cases h) simp

text \<open>The access the registers describe.\<close>

definition trapped_access :: "arm_sysregs \<Rightarrow> core \<Rightarrow> GuestRegisterState \<Rightarrow> DecodedMemoryAccess option" where
  "trapped_access S c rs =
     (case decode_memory_access (EsrEl2_iss S (cr_esr_el2 c)) (HpfarEl2_fipa S (cr_hpfar_el2 c))
             (FarEl2_va S (cr_far_el2 c)) (read_gpr rs) of
        Done d \<Rightarrow> d | Panicked _ \<Rightarrow> None)"

lemma decode_trapped_access:
  "decode_memory_access (EsrEl2_iss S (cr_esr_el2 c)) (HpfarEl2_fipa S (cr_hpfar_el2 c))
     (FarEl2_va S (cr_far_el2 c)) (read_gpr rs) = Done (trapped_access S c rs)"
  by (simp add: trapped_access_def decode_memory_access_eq)

lemma trapped_access_register:
  assumes "trapped_access S c rs = Some a"
  shows "dma_register_index a \<le> 31"
proof -
  have "dma_register_index a = decode_memory_access_register_index (EsrEl2_iss S (cr_esr_el2 c))"
    using assms
    by (auto simp: trapped_access_def decode_memory_access_eq register_index_take_bit split: if_splits)
  then show ?thesis
    using register_index_less [of "EsrEl2_iss S (cr_esr_el2 c)"] by (simp add: word_le_nat_alt)
qed

text \<open>The saved state with the return address moved past the trapped instruction.\<close>

definition after_instruction :: "GuestRegisterState \<Rightarrow> GuestRegisterState" where
  "after_instruction rs = rs\<lparr>grs_volatile := (grs_volatile rs)\<lparr>vr_elr := vr_elr (grs_volatile rs) + 4\<rparr>\<rparr>"

lemma after_instruction_keeps [simp]:
  "read_gpr (after_instruction rs) j = read_gpr rs j"
  "guest_regs_wf (after_instruction rs) = guest_regs_wf rs"
  "exception_return (after_instruction rs) = (fst (exception_return rs) + 4, snd (exception_return rs))"
  by (simp_all add: after_instruction_def read_gpr_def guest_regs_wf_def exception_return_def)

text \<open>The panic of the overflow check, which \<open>dev\<close> builds have and \<open>release\<close> builds do not.\<close>

definition pc_overflows :: "profile \<Rightarrow> GuestRegisterState \<Rightarrow> bool" where
  "pc_overflows pr rs \<longleftrightarrow> pr = Dev \<and> 2 ^ 64 \<le> unat (fst (exception_return rs)) + 4"

lemma advance_instruction:
  "advance_pc pr rs AARCH64_INSTRUCTION_LENGTH =
     (if pc_overflows pr rs then Panicked ''attempt to add with overflow'' else Done (after_instruction rs))"
  by (simp add: advance_pc_def add_int_def AARCH64_INSTRUCTION_LENGTH_def after_instruction_def pc_overflows_def
      exception_return_def)

definition finish_access ::
  "profile \<Rightarrow> GuestRegisterState \<Rightarrow> ('s, 'idmap, 'w) hyp \<Rightarrow>
   ((unit + unit) \<times> GuestRegisterState \<times> ('s, 'idmap, 'w) hyp) outcome" where
  "finish_access pr rs h =
     (if pc_overflows pr rs then Panicked ''attempt to add with overflow''
      else Done (Inr (), after_instruction rs, h))"

lemma pc_overflows_write_gpr [simp]: "pc_overflows pr (snd (write_gpr rs i v)) = pc_overflows pr rs"
  by (simp add: pc_overflows_def guest.rest_wr)

lemma emulate_read_eq:
  assumes "dma_register_index a \<le> 31"
  shows "emulate_read pr a m rs h =
     (case mah_read (mar_handler (mhm_region m)) of
        None \<Rightarrow> Done (Inl (), rs, h)
      | Some f \<Rightarrow>
          (case f \<lparr>mra_ipa = dma_ipa a, mra_offset = mhm_offset m, mra_width = dma_width a\<rparr> (hv_platform h) of
             (Value v, s') \<Rightarrow>
               finish_access pr
                 (snd (write_gpr rs (dma_register_index a)
                    (register_load (dma_width a) (dma_sign_extend a) (dma_register_width_64 a) v)))
                 (h\<lparr>hv_platform := s'\<rparr>)
           | (ReadFault, s') \<Rightarrow> Done (Inl (), rs, h\<lparr>hv_platform := s'\<rparr>)))"
proof -
  have "fst (write_gpr rs (dma_register_index a) v)" for v
    using assms by (simp add: guest.wr_accepts)
  then show ?thesis
    by (simp add: emulate_read_def Let_def case_prod_beta write_saved_guest_register_def advance_guest_pc_def
        advance_instruction extend_read_result_eq finish_access_def split: option.split MemoryReadResult.split)
qed

lemma emulate_write_eq:
  "emulate_write pr a v m rs h =
     (case mah_write (mar_handler (mhm_region m)) of
        None \<Rightarrow> Done (Inl (), rs, h)
      | Some f \<Rightarrow>
          (case f \<lparr>mwa_ipa = dma_ipa a, mwa_offset = mhm_offset m, mwa_width = dma_width a, mwa_value = v\<rparr> (hv_platform h) of
             (WriteHandled, s') \<Rightarrow> finish_access pr rs (h\<lparr>hv_platform := s'\<rparr>)
           | (WriteFault, s') \<Rightarrow> Done (Inl (), rs, h\<lparr>hv_platform := s'\<rparr>)))"
  by (simp add: emulate_write_def Let_def case_prod_beta advance_guest_pc_def advance_instruction finish_access_def
      split: option.split MemoryWriteResult.split)

lemma try_memory_access_handler_eq:
  assumes conf: "hv_stage2_config h = Some config" and inv: "registry_inv (sc_memory_access_handlers config)"
  shows "try_memory_access_handler H pr rs h =
     (let d = trapped_access (hd_sysregs H) (hv_core h) rs;
          (e, s') = emulation_of (sc_memory_access_handlers config) d (hv_platform h);
          h' = h\<lparr>hv_platform := s'\<rparr>
      in case e of
           Loaded v \<Rightarrow> finish_access pr (snd (write_gpr rs (dma_register_index (the d)) v)) h'
         | Stored \<Rightarrow> finish_access pr rs h'
         | Faulted \<Rightarrow> Done (Inl (), rs, h'))"
proof (cases "trapped_access (hd_sysregs H) (hv_core h) rs")
  case None
  then show ?thesis
    by (simp add: try_memory_access_handler_def decode_trapped_access emulation_of_def)
next
  case (Some a)
  note reads = emulate_read_eq [OF trapped_access_register [OF Some]]
  have "try_memory_access_handler H pr rs h =
      (case region_covering (sc_memory_access_handlers config) (dma_ipa a) of
         None \<Rightarrow> Done (Inl (), rs, h)
       | Some R \<Rightarrow>
           (let m = \<lparr>mhm_region = R, mhm_offset = dma_ipa a - mar_base_ipa R\<rparr>
            in case dma_kind a of Read \<Rightarrow> emulate_read pr a m rs h | Write v \<Rightarrow> emulate_write pr a v m rs h))"
    using Some
    by (simp add: try_memory_access_handler_def decode_trapped_access stage2_config_configured [OF conf]
        registry_find_eq [OF inv] Let_def split: option.split)
  then show ?thesis
    using Some
    by (simp add: emulation_of_def reads emulate_write_eq Let_def case_prod_beta
        split: option.split DecodedMemoryAccessKind.split MemoryReadResult.split MemoryWriteResult.split)
qed

section \<open>Injection\<close>

text \<open>The guest's view of an injected data abort: the architecture's exception entry at EL1h.\<close>

definition faulted_core :: "GuestRegisterState \<Rightarrow> core \<Rightarrow> core" where
  "faulted_core rs c =
     c\<lparr>cr_elr_el1 := fst (exception_return rs), cr_spsr_el1 := snd (exception_return rs),
       cr_far_el1 := cr_far_el2 c, cr_esr_el1 := set_field 26 6 (cr_esr_el2 c) 0x25\<rparr>"

definition injection_panic :: "profile \<Rightarrow> core \<Rightarrow> string option" where
  "injection_panic pr c =
     (if cr_vbar_el1 c = 0 then Some ''Guest VBAR_EL1 is 0, cannot inject data abort''
      else if pr = Dev \<and> 2 ^ 64 \<le> unat (cr_vbar_el1 c) + 0x200 then Some ''attempt to add with overflow''
      else None)"

lemma exception_class_data_abort:
  assumes "arm_sysregs_ok S"
  shows "exception_class_from (EsrEl2_ec S v) = DataAbortLowerEL \<longleftrightarrow> EsrEl1_ec S v = EC_DATA_ABORT_LOWER_EL"
  using assms by (auto simp: exception_class_from_def arm_sysregs_ok_def EC_DATA_ABORT_LOWER_EL_def)

lemma inject_data_abort_eq:
  assumes S: "arm_sysregs_ok S" and "EsrEl1_ec S (cr_esr_el2 c) = EC_DATA_ABORT_LOWER_EL"
  shows "inject_data_abort S pr rs c =
     (case injection_panic pr c of
        Some p \<Rightarrow> Panicked p
      | None \<Rightarrow> Done (set_exception_return rs (cr_vbar_el1 c + 0x200) 0x3c5, faulted_core rs c))"
proof -
  have "SpsrEl1_set_m_3_0 S 0 SPSR_EL1H OR SpsrEl1_D S OR SpsrEl1_A S OR SpsrEl1_I S OR SpsrEl1_F S = 0x3c5"
    "FarEl2_va S v = v" "EsrEl1_set_ec S v EC_DATA_ABORT_SAME_EL = set_field 26 6 v 0x25" for v
    using S by (simp_all add: arm_sysregs_ok_def set_field_def SPSR_EL1H_def EC_DATA_ABORT_SAME_EL_def
        mask_eq_exp_minus_1)
  then show ?thesis
    using assms(2)
    by (simp add: inject_data_abort_def injection_panic_def add_int_def faulted_core_def Let_def case_prod_beta or.assoc)
qed

section \<open>The trap handler, arm by arm\<close>

lemma handle_sync_lower_data_abort:
  assumes S: "arm_sysregs_ok (hd_sysregs H)" and conf: "hv_stage2_config h = Some config"
    and inv: "registry_inv (sc_memory_access_handlers config)"
    and ec: "exception_class_from (EsrEl2_ec (hd_sysregs H) (cr_esr_el2 (hv_core h))) = DataAbortLowerEL"
  shows "handle_sync_lower H pr rs h =
     (let c = hv_core h;
          d = trapped_access (hd_sysregs H) c rs;
          (e, s') = emulation_of (sc_memory_access_handlers config) d (hv_platform h);
          h' = h\<lparr>hv_platform := s'\<rparr>;
          resume = (\<lambda>rs. if pc_overflows pr rs then Panicked ''attempt to add with overflow''
                         else Done (Some (after_instruction rs), h'))
      in case e of
           Loaded v \<Rightarrow> resume (snd (write_gpr rs (dma_register_index (the d)) v))
         | Stored \<Rightarrow> resume rs
         | Faulted \<Rightarrow>
             (case injection_panic pr c of
                Some p \<Rightarrow> Panicked p
              | None \<Rightarrow> Done (Some (set_exception_return rs (cr_vbar_el1 c + 0x200) 0x3c5),
                              h'\<lparr>hv_core := faulted_core rs c\<rparr>)))"
proof -
  have "EsrEl1_ec (hd_sysregs H) (cr_esr_el2 (hv_core h)) = EC_DATA_ABORT_LOWER_EL"
    using ec exception_class_data_abort [OF S] by blast
  note injected = inject_data_abort_eq [OF S this]
  show ?thesis
    by (simp add: handle_sync_lower_def ec try_memory_access_handler_eq [OF conf inv] injected Let_def case_prod_beta
        finish_access_def split: emulation.split option.split)
qed

lemma handle_sync_lower_unknown:
  "exception_class_from (EsrEl2_ec (hd_sysregs H) (cr_esr_el2 (hv_core h))) = Unknown v \<Longrightarrow>
   handle_sync_lower H pr rs h = Panicked ''Unexpected sync_lower''"
  by (simp add: handle_sync_lower_def)

lemma handle_sync_lower_hvc:
  "exception_class_from (EsrEl2_ec (hd_sysregs H) (cr_esr_el2 (hv_core h))) = HvcTrappedInAArch64 \<Longrightarrow>
   handle_sync_lower H pr rs h = handle_call H rs h"
  by (cases "handle_call H rs h") (auto simp: handle_sync_lower_def split: option.split)

lemma handle_sync_lower_smc:
  "exception_class_from (EsrEl2_ec (hd_sysregs H) (cr_esr_el2 (hv_core h))) = SmcTrappedInAArch64 \<Longrightarrow>
   handle_sync_lower H pr rs h =
     and_then (handle_call H rs h) (\<lambda>(r, h').
       (case r of
          None \<Rightarrow> Done (None, h')
        | Some rs' \<Rightarrow> if pc_overflows pr rs' then Panicked ''attempt to add with overflow''
                      else Done (Some (after_instruction rs'), h')))"
  by (cases "handle_call H rs h") (auto simp: handle_sync_lower_def advance_instruction split: option.split)

lemma handle_sync_lower_smc_Done:
  assumes "exception_class_from (EsrEl2_ec (hd_sysregs H) (cr_esr_el2 (hv_core h))) = SmcTrappedInAArch64"
    and "handle_sync_lower H pr rs h = Done (r, h')"
  obtains r' where "handle_call H rs h = Done (r', h')" and "r = map_option after_instruction r'"
proof (cases "handle_call H rs h")
  case (Done x)
  obtain r' h1 where "x = (r', h1)" by (cases x)
  with Done show ?thesis
    using assms(2) that unfolding handle_sync_lower_smc [OF assms(1)]
    by (cases r') (auto split: if_splits)
qed (use assms handle_sync_lower_smc [OF assms(1)] in simp)

section \<open>Hypervisor calls\<close>

definition psci_id :: "u64 \<Rightarrow> bool" where
  "psci_id f \<longleftrightarrow> 0x84000000 \<le> f \<and> f \<le> 0x8400001F \<or> 0xC4000000 \<le> f \<and> f \<le> 0xC400001F"

text \<open>The arguments of a call: the function in \<open>x0\<close> and \<open>x1\<close>--\<open>x17\<close>.\<close>

definition call_id :: "GuestRegisterState \<Rightarrow> u64" where
  "call_id rs = volatile_gprs rs ! 0"

definition call_args :: "GuestRegisterState \<Rightarrow> u64 list" where
  "call_args rs = take 17 (drop 1 (volatile_gprs rs))"

definition psci_outcome ::
  "('s, 'idmap, 'me, 'attr, 'e, 'w) hyp_deps \<Rightarrow> GuestRegisterState \<Rightarrow> ('s, 'idmap, 'w) hyp \<Rightarrow>
   ((i32 + u64) option \<times> ('s, 'idmap, 'w) hyp) outcome" where
  "psci_outcome H rs h = handle_psci H (call_id rs) (call_args rs ! 0) (call_args rs ! 1) (call_args rs ! 2) h"

fun psci_response :: "'e smccc_error \<Rightarrow> i32 + u64 \<Rightarrow> 'e HvcResult" where
  "psci_response E (Inr v) = Handled (Inr (Success [v, 0, 0, 0]))"
| "psci_response E (Inl code) = Handled (Inl (error_from_i32 E code))"

lemma psci_response_eq:
  "psci_response E out = Handled (case out of
     Inr v \<Rightarrow> Inr (response_from_u64 v) | Inl code \<Rightarrow> Inl (error_from_i32 E code))"
  by (cases out) (simp_all add: response_from_u64_def)

lemma psci_response_wf: "hvc_result_wf (psci_response E out)"
  by (cases out) simp_all

lemma handle_call_eq:
  "handle_call H rs h =
     (let answer = (\<lambda>r. modify_register_state (hd_smccc_error H) r rs)
      in if psci_id (call_id rs)
         then and_then (psci_outcome H rs h) (\<lambda>(out, h').
                Done (map_option (\<lambda>out. answer (psci_response (hd_smccc_error H) out)) out, h'))
         else Done (Some (answer (hd_handle_hvc H (call_id rs) (call_args rs))), h))"
  by (cases "psci_outcome H rs h")
    (auto simp: handle_call_def psci_id_def call_id_def call_args_def psci_outcome_def try_handle_psci_def
      Let_def psci_response_eq option.map_comp comp_def)

lemma handle_call_keeps:
  assumes "guest_regs_wf rs" and "handle_call H rs h = Done (Some rs', h')"
  shows "guest_regs_wf rs'" and "exception_return rs' = exception_return rs"
  using assms by (auto simp: handle_call_eq Let_def modify_register_state_keeps split: if_splits)

lemma pc_overflows_cong: "exception_return rs' = exception_return rs \<Longrightarrow> pc_overflows pr rs' = pc_overflows pr rs"
  by (simp add: pc_overflows_def)

section \<open>PSCI calls on the shared maps\<close>

lemma get_secondary_stack_Done:
  assumes "simple_map_inv cap m" and "get_secondary_stack k m = Done (i, m')"
  shows "simple_map_inv cap m'" and "simple_map_get_mut m' k = Some i"
    and "\<And>k' j. simple_map_get_mut m k' = Some j \<Longrightarrow> simple_map_get_mut m' k' = Some j"
    and "dom (simple_map_lookup m') = insert k (dom (simple_map_lookup m))"
proof -
  have "simple_map_inv cap m' \<and> simple_map_get_mut m' k = Some i \<and>
      (\<forall>k' j. simple_map_get_mut m k' = Some j \<longrightarrow> simple_map_get_mut m' k' = Some j) \<and>
      dom (simple_map_lookup m') = insert k (dom (simple_map_lookup m))"
  proof (cases "simple_map_get_mut m k")
    case None
    then have ins: "simple_map_insert m k () = Done (i, m')" using assms(2) by (simp add: get_secondary_stack_def)
    have "simple_map_lookup m k = None" using None simple_map.get_None_iff [OF assms(1)] by simp
    then show ?thesis
      using simple_map.ins_inv [OF assms(1) ins] simple_map.ins_get [OF assms(1) ins]
        simple_map.ins_look [OF assms(1) ins] simple_map.get_or_insert_stable [OF assms(1) ins] by auto
  next
    case (Some j)
    then have "k \<in> dom (simple_map_lookup m)" using simple_map.get_None_iff [OF assms(1), of k] by auto
    then show ?thesis using Some assms by (auto simp: get_secondary_stack_def)
  qed
  then show "simple_map_inv cap m'" "simple_map_get_mut m' k = Some i"
    "\<And>k' j. simple_map_get_mut m k' = Some j \<Longrightarrow> simple_map_get_mut m' k' = Some j"
    "dom (simple_map_lookup m') = insert k (dom (simple_map_lookup m))" by blast+
qed

text \<open>A map that cannot take the key: it is full and the key is new.\<close>

definition map_full :: "nat \<Rightarrow> ('k, 'v) SimpleMap \<Rightarrow> 'k \<Rightarrow> bool" where
  "map_full cap m k \<longleftrightarrow> simple_map_lookup m k = None \<and> card (dom (simple_map_lookup m)) = cap"

lemma get_secondary_stack_panics:
  assumes "simple_map_inv cap m"
  shows "get_secondary_stack k m = Panicked p \<longleftrightarrow> p = ''maximum capacity exceeded'' \<and> map_full cap m k"
proof (cases "simple_map_get_mut m k")
  case None
  then show ?thesis
    by (simp add: get_secondary_stack_def simple_map.ins_panics [OF assms] map_full_def)
next
  case (Some j)
  then have "simple_map_lookup m k \<noteq> None" using simple_map.get_None_iff [OF assms, of k] by auto
  then show ?thesis using Some by (simp add: get_secondary_stack_def map_full_def)
qed

text \<open>What a PSCI call leaves of the state: everything but the two maps and the world.\<close>

definition same_core_and_policy :: "('s, 'idmap, 'w) hyp \<Rightarrow> ('s, 'idmap, 'w) hyp \<Rightarrow> bool" where
  "same_core_and_policy h h' \<longleftrightarrow>
     hv_core h' = hv_core h \<and> hv_stage2_config h' = hv_stage2_config h \<and> hv_platform h' = hv_platform h"

lemma psci_cpu_on_keeps:
  assumes "hyp_inv cap h" and "psci_cpu_on H mpidr entry h = Done (r, h')"
  shows "hyp_inv cap h' \<and> same_core_and_policy h h'"
  using assms get_secondary_stack_Done(1) [of cap "hv_secondary_stacks h" mpidr]
  by (auto simp: psci_cpu_on_def start_core_def hyp_inv_def same_core_and_policy_def Let_def case_prod_beta)

lemma suspend_save_context_keeps:
  assumes "hyp_inv cap h" and "suspend_save_context entry h = Done h'"
  shows "hyp_inv cap h' \<and> same_core_and_policy h h'"
  using assms simple_map.ins_inv [of cap "hv_suspend_contexts h"]
  by (auto simp: suspend_save_context_def hyp_inv_def same_core_and_policy_def Let_def case_prod_beta)

lemma suspend_get_stack_keeps:
  assumes "hyp_inv cap h" and "suspend_get_stack H h = Done (stack, h')"
  shows "hyp_inv cap h' \<and> same_core_and_policy h h'"
  using assms get_secondary_stack_Done(1) [of cap "hv_secondary_stacks h"]
  by (auto simp: suspend_get_stack_def hyp_inv_def same_core_and_policy_def split: prod.splits)

lemma suspend_returned_keeps:
  "hyp_inv cap h \<Longrightarrow> hyp_inv cap (suspend_returned h) \<and> same_core_and_policy h (suspend_returned h)"
  using simple_map.del_inv [of cap "hv_suspend_contexts h"]
  by (simp add: suspend_returned_def hyp_inv_def same_core_and_policy_def)

lemma same_core_and_policy_trans:
  "same_core_and_policy h h1 \<Longrightarrow> same_core_and_policy h1 h2 \<Longrightarrow> same_core_and_policy h h2"
  by (simp add: same_core_and_policy_def)

lemma same_core_and_policy_world [simp]:
  "same_core_and_policy (h\<lparr>hv_world := w\<rparr>) h' = same_core_and_policy h h'"
  "same_core_and_policy h (h'\<lparr>hv_world := w\<rparr>) = same_core_and_policy h h'"
  by (simp_all add: same_core_and_policy_def)

text \<open>A call to the firmware changes the world and is recorded.\<close>

lemma start_core_eq:
  "\<exists>w. start_core H mpidr stack entry h =
     (fst (start_core H mpidr stack entry h),
      h\<lparr>hv_world := w, hv_core_calls := StartCore mpidr stack # hv_core_calls h\<rparr>)"
  by (auto simp: start_core_def case_prod_beta)

lemma suspend_core_Pair:
  assumes "suspend_core H st sp h = (r, h')"
  shows "\<exists>w. h' = h\<lparr>hv_world := w, hv_core_calls := SuspendCore (cr_mpidr_el1 (hv_core h)) sp # hv_core_calls h\<rparr>"
  using assms by (auto simp: suspend_core_def case_prod_beta)

lemma suspend_core_keeps:
  assumes "hyp_inv cap h" and "suspend_core H st sp h = (r, h')"
  shows "hyp_inv cap h' \<and> same_core_and_policy h h'"
  using suspend_core_Pair [OF assms(2)] assms(1) by (auto simp: hyp_inv_def same_core_and_policy_def)

lemma psci_cpu_suspend_keeps:
  assumes "hyp_inv cap h" and "psci_cpu_suspend H st entry h = Done (r, h')"
  shows "hyp_inv cap h' \<and> same_core_and_policy h h'"
proof -
  obtain h1 sp h2 r' h3 where h1: "suspend_save_context entry h = Done h1"
    and h2: "suspend_get_stack H h1 = Done (sp, h2)" and h3: "suspend_core H st sp h2 = (r', h3)"
    and h': "h' = h3 \<or> h' = suspend_returned h3"
    using assms(2) by (auto simp: psci_cpu_suspend_def Let_def case_prod_beta split: option.splits) (metis prod.collapse)+
  have "hyp_inv cap h2 \<and> same_core_and_policy h h2"
    using suspend_save_context_keeps [OF assms(1) h1] suspend_get_stack_keeps [OF _ h2]
      same_core_and_policy_trans by blast
  then have "hyp_inv cap h3 \<and> same_core_and_policy h h3"
    using suspend_core_keeps [OF _ h3] same_core_and_policy_trans by blast
  then show ?thesis
    using h' suspend_returned_keeps [of cap h3] by (auto intro: same_core_and_policy_trans)
qed

lemma handle_psci_keeps:
  assumes "hyp_inv cap h" and "handle_psci H f a0 a1 a2 h = Done (out, h')"
  shows "hyp_inv cap h' \<and> same_core_and_policy h h'"
proof (cases "hd_function_try_from H [f, a0, a1, a2]")
  case (Inr psci_fn)
  have "hyp_inv cap (snd (forward_psci H f a0 a1 a2 h)) \<and> same_core_and_policy h (snd (forward_psci H f a0 a1 a2 h))"
    using assms(1) by (simp add: forward_psci_def Let_def case_prod_beta same_core_and_policy_def)
  then show ?thesis
    using assms(2) Inr
    by (cases psci_fn)
      (auto simp: handle_psci_def case_prod_beta dest: psci_cpu_on_keeps [OF assms(1)] psci_cpu_suspend_keeps [OF assms(1)])
qed (use assms in \<open>simp add: handle_psci_def same_core_and_policy_def\<close>)

text \<open>When a PSCI call runs out of slots.\<close>

definition psci_over_capacity ::
  "('s, 'idmap, 'me, 'attr, 'e, 'w) hyp_deps \<Rightarrow> nat \<Rightarrow> GuestRegisterState \<Rightarrow> ('s, 'idmap, 'w) hyp \<Rightarrow> bool" where
  "psci_over_capacity H cap rs h \<longleftrightarrow>
     (case hd_function_try_from H (call_id rs # take 3 (call_args rs)) of
        Inr (CpuOn target entry) \<Rightarrow> map_full cap (hv_secondary_stacks h) target
      | Inr (CpuSuspend st entry) \<Rightarrow>
          map_full cap (hv_suspend_contexts h) (cr_mpidr_el1 (hv_core h)) \<or>
          map_full cap (hv_secondary_stacks h) (cr_mpidr_el1 (hv_core h))
      | _ \<Rightarrow> False)"

lemma psci_cpu_on_panics:
  assumes "hyp_inv cap h"
  shows "psci_cpu_on H t e h = Panicked p \<longleftrightarrow>
     p = ''maximum capacity exceeded'' \<and> map_full cap (hv_secondary_stacks h) t"
  using get_secondary_stack_panics [of cap "hv_secondary_stacks h" t p] assms
  by (auto simp: psci_cpu_on_def and_then_eq_Panicked hyp_inv_def Let_def case_prod_beta)

lemma psci_cpu_suspend_panics:
  assumes inv: "hyp_inv cap h"
  shows "psci_cpu_suspend H st e h = Panicked p \<longleftrightarrow>
     p = ''maximum capacity exceeded'' \<and>
     (map_full cap (hv_suspend_contexts h) (cr_mpidr_el1 (hv_core h)) \<or>
      map_full cap (hv_secondary_stacks h) (cr_mpidr_el1 (hv_core h)))"
proof -
  let ?k = "cr_mpidr_el1 (hv_core h)"
  have maps: "simple_map_inv cap (hv_suspend_contexts h)" "simple_map_inv cap (hv_secondary_stacks h)"
    using inv by (simp_all add: hyp_inv_def)
  show ?thesis
  proof (cases "map_full cap (hv_suspend_contexts h) ?k")
    case True
    then have "suspend_save_context e h = Panicked ''maximum capacity exceeded''"
      using simple_map.ins_panics [OF maps(1)]
      by (auto simp: suspend_save_context_def and_then_eq_Panicked map_full_def)
    then show ?thesis using True by (auto simp: psci_cpu_suspend_def)
  next
    case False
    then obtain h1 where h1: "suspend_save_context e h = Done h1"
      using simple_map.ins_panics [OF maps(1), of ?k]
      by (cases "simple_map_insert (hv_suspend_contexts h) ?k
           \<lparr>scd_entry_point = entry_point_address e, scd_context_id = context_id e\<rparr>")
        (auto simp: suspend_save_context_def map_full_def)
    then have "hv_secondary_stacks h1 = hv_secondary_stacks h" "hv_core h1 = hv_core h"
      by (auto simp: suspend_save_context_def Let_def case_prod_beta)
    then show ?thesis
      using False h1 get_secondary_stack_panics [OF maps(2), of ?k p]
      by (auto simp: psci_cpu_suspend_def suspend_get_stack_def and_then_eq_Panicked Let_def case_prod_beta
          split: option.splits)
  qed
qed

lemma call_args_3:
  assumes "guest_regs_wf rs"
  shows "take 3 (call_args rs) = [call_args rs ! 0, call_args rs ! 1, call_args rs ! 2]"
proof -
  have "length (call_args rs) = 17" using assms by (simp add: call_args_def volatile_gprs_def guest_regs_wf_def)
  then show ?thesis by (simp add: numeral_3_eq_3 numeral_2_eq_2 take_Suc_conv_app_nth)
qed

lemma psci_outcome_panics:
  assumes "hyp_inv cap h" and "guest_regs_wf rs"
  shows "psci_outcome H rs h = Panicked p \<longleftrightarrow> p = ''maximum capacity exceeded'' \<and> psci_over_capacity H cap rs h"
proof (cases "hd_function_try_from H (call_id rs # take 3 (call_args rs))")
  case (Inr psci_fn)
  then show ?thesis
    using call_args_3 [OF assms(2)]
    by (cases psci_fn)
      (auto simp: psci_outcome_def psci_over_capacity_def handle_psci_def case_prod_beta and_then_eq_Panicked
        psci_cpu_on_panics [OF assms(1)] psci_cpu_suspend_panics [OF assms(1)])
qed (use call_args_3 [OF assms(2)] in \<open>simp add: psci_outcome_def psci_over_capacity_def handle_psci_def\<close>)

section \<open>Running guests\<close>

text \<open>A guest only runs once stage 2 is configured.\<close>

definition guest_running :: "nat \<Rightarrow> ('s, 'idmap, 'w) hyp \<Rightarrow> GuestRegisterState \<Rightarrow> bool" where
  "guest_running cap h rs \<longleftrightarrow> hyp_inv cap h \<and> hv_stage2_config h \<noteq> None \<and> guest_regs_wf rs"

lemma guest_runningE:
  assumes "guest_running cap h rs"
  obtains config where "hv_stage2_config h = Some config" "registry_inv (sc_memory_access_handlers config)"
    "hyp_inv cap h" "guest_regs_wf rs"
  using assms by (auto simp: guest_running_def hyp_inv_def)

lemma handle_call_running:
  assumes "guest_running cap h rs" and "handle_call H rs h = Done (r, h')"
  shows "hyp_inv cap h' \<and> hv_stage2_config h' = hv_stage2_config h \<and> hv_core h' = hv_core h"
  using assms handle_psci_keeps
  by (fastforce simp: handle_call_eq Let_def psci_outcome_def guest_running_def same_core_and_policy_def split: if_splits)

lemma handle_sync_lower_running:
  assumes S: "arm_sysregs_ok (hd_sysregs H)" and run: "guest_running cap h rs"
    and trap: "handle_sync_lower H pr rs h = Done (r, h')"
  shows "hyp_inv cap h' \<and> hv_stage2_config h' = hv_stage2_config h \<and> (\<forall>rs'. r = Some rs' \<longrightarrow> guest_regs_wf rs')"
proof -
  obtain config where conf: "hv_stage2_config h = Some config" "registry_inv (sc_memory_access_handlers config)"
    and inv: "hyp_inv cap h" and wf: "guest_regs_wf rs"
    by (rule guest_runningE [OF run])
  note call = handle_call_running [OF run]
  show ?thesis
  proof (cases "exception_class_from (EsrEl2_ec (hd_sysregs H) (cr_esr_el2 (hv_core h)))")
    case HvcTrappedInAArch64
    then show ?thesis
      using trap call handle_call_keeps(1) [OF wf] by (auto simp: handle_sync_lower_hvc)
  next
    case SmcTrappedInAArch64
    then obtain r' where "handle_call H rs h = Done (r', h')" "r = map_option after_instruction r'"
      using trap by (rule handle_sync_lower_smc_Done)
    then show ?thesis
      using call handle_call_keeps(1) [OF wf] by auto
  next
    case DataAbortLowerEL
    obtain e s' where e: "emulation_of (sc_memory_access_handlers config)
        (trapped_access (hd_sysregs H) (hv_core h) rs) (hv_platform h) = (e, s')" by fastforce
    show ?thesis
      using trap inv wf unfolding handle_sync_lower_data_abort [OF S conf DataAbortLowerEL] Let_def e
      by (cases e) (auto simp: guest.valid_wr split: if_splits option.splits)
  qed (use trap in \<open>simp add: handle_sync_lower_unknown\<close>)
qed

end
