(* ===== verification/Qemu.thy ===== *)
theory Qemu
  imports Platform Strings
begin

text \<open>
  The QEMU platform (\<open>src/src/platform/qemu.rs\<close>): the guest's memory policy, the emulated test
  device, boot mode, device tree and initial page table.

  \<open>image_address\<close> stands for the generated constant \<open>RITM_IMAGE_ADDRESS\<close>, \<open>payload\<close> for
  \<open>PAYLOAD_ADDRESS\<close> and \<open>heap\<close> for the address the linker gave \<open>SHARED_HEAP\<close>. The device tree
  library (\<open>dtoolkit\<close>) is the record \<open>dt_api\<close>, and \<open>dt_api_ok\<close> states its documented effect on an
  abstract tree. The platform state of the emulated device
  is the value of \<open>FILTERED_MMIO_COUNTER\<close>.
\<close>

section \<open>Constants\<close>

definition UART_BASE_ADDRESS :: usize where "UART_BASE_ADDRESS = 0x9000000"
definition DRAM_START :: usize where "DRAM_START = 0x40000000"
definition DEFAULT_FDT_ADDRESS :: u64 where "DEFAULT_FDT_ADDRESS = DRAM_START"
definition FILTERED_MMIO_BASE :: usize where "FILTERED_MMIO_BASE = 0x0f000000"
definition FILTERED_MMIO_SIZE :: usize where "FILTERED_MMIO_SIZE = PAGE_SIZE"
definition RITM_START :: "usize \<Rightarrow> usize" where "RITM_START image_address = image_address"
definition RITM_END :: "usize \<Rightarrow> usize" where "RITM_END image_address = RITM_START image_address + 4 * 1024 * 1024"
definition QEMU_MAX_CORES :: nat where "QEMU_MAX_CORES = 8"

definition initial_idmap :: "el23_attributes \<Rightarrow> u64 list" where
  "initial_idmap A =
     (let idmap = replicate 512 0;
          idmap = idmap[0 := DEVICE_ATTRIBUTES A];
          idmap = idmap[1 := MEMORY_ATTRIBUTES A OR 0x40000000];
          idmap = idmap[2 := DEVICE_ATTRIBUTES A OR 0x80000000]
      in idmap)"

section \<open>The device tree\<close>

record ('fdt, 'node, 'prop, 'reg, 'dt, 'dnode, 'dprop, 'err) dt_api =
  fdt_child :: "'fdt \<Rightarrow> string \<Rightarrow> 'node option"
  node_property :: "'node \<Rightarrow> string \<Rightarrow> 'prop option"
  prop_as_str :: "'prop \<Rightarrow> 'err + string"
  node_reg :: "'node \<Rightarrow> 'err + 'reg list option"
  reg_address :: "'reg \<Rightarrow> 'err + u64"
  reg_size :: "'reg \<Rightarrow> 'err + u64"
  dt_from_fdt :: "'fdt \<Rightarrow> 'dt"
  dt_remove_child :: "'dt \<Rightarrow> string \<Rightarrow> 'dt option"
  dt_add_child :: "'dt \<Rightarrow> 'dnode \<Rightarrow> 'dt"
  dnode_builder :: "string \<Rightarrow> 'err + 'dnode"
  dprop_new :: "string \<Rightarrow> u8 list \<Rightarrow> 'err + 'dprop"
  dnode_property :: "'dnode \<Rightarrow> 'dprop \<Rightarrow> 'dnode"
  dt_to_dtb :: "'dt \<Rightarrow> u8 list"
  fdt_from_raw :: "u64 \<Rightarrow> u8 list \<Rightarrow> 'err + 'fdt"

text \<open>The loop over the words of the command line, with the warnings it logs.\<close>

fun boot_mode_arg :: "string list \<Rightarrow> BootMode option \<times> string list" where
  "boot_mode_arg [] = (None, [])"
| "boot_mode_arg (arg # args) =
     (case strip_prefix ''ritm.boot_mode='' arg of
        Some boot_mode \<Rightarrow>
          if boot_mode = ''el2'' then (Some El2, [])
          else if boot_mode = ''el1'' then (Some El1, [])
          else (let (mode, warnings) = boot_mode_arg args
                in (mode, (''Unknown boot mode specified: '' @ arg) # warnings))
      | None \<Rightarrow> boot_mode_arg args)"

definition read_boot_mode_from_cmd ::
  "('fdt, 'node, 'prop, 'reg, 'dt, 'dnode, 'dprop, 'err) dt_api \<Rightarrow> 'fdt \<Rightarrow> BootMode option \<times> string list" where
  "read_boot_mode_from_cmd T fdt =
     (case fdt_child T fdt ''chosen'' of
        None \<Rightarrow> (None, [])
      | Some chosen \<Rightarrow>
          (case node_property T chosen ''bootargs'' of
             None \<Rightarrow> (None, [])
           | Some bootargs \<Rightarrow>
               (case prop_as_str T bootargs of
                  Inl _ \<Rightarrow> (None, [])
                | Inr args \<Rightarrow> boot_mode_arg (split_whitespace args))))"

definition qemu_boot_mode ::
  "('fdt, 'node, 'prop, 'reg, 'dt, 'dnode, 'dprop, 'err) dt_api \<Rightarrow> 'fdt \<Rightarrow> BootMode \<times> string list" where
  "qemu_boot_mode T fdt =
     (let (mode, warnings) = read_boot_mode_from_cmd T fdt
      in (case mode of Some mode \<Rightarrow> mode | None \<Rightarrow> El1, warnings))"

definition qemu_payload_address :: "u64 \<Rightarrow> u64" where
  "qemu_payload_address payload = payload"

definition qemu_fdt_address :: "u64 \<Rightarrow> u64 \<times> string list" where
  "qemu_fdt_address boot_fdt_address =
     (if boot_fdt_address = 0
      then (DEFAULT_FDT_ADDRESS,
            [''No FDT address was passed in x0; falling back to QEMU virt default FDT address''])
      else (boot_fdt_address, []))"

definition memory_node_name :: "usize \<Rightarrow> string" where
  "memory_node_name address = ''memory@'' @ format_x (unat address)"

definition dram_range ::
  "('fdt, 'node, 'prop, 'reg, 'dt, 'dnode, 'dprop, 'err) dt_api \<Rightarrow> profile \<Rightarrow> 'fdt \<Rightarrow> (usize \<times> usize) outcome" where
  "dram_range T pr fdt =
     and_then (expect_some ''memory node not found'' (fdt_child T fdt (memory_node_name DRAM_START))) (\<lambda>memory.
     and_then (expect_ok ''memory reg property should be valid'' (node_reg T memory)) (\<lambda>regs.
     and_then (expect_some ''memory node should have a reg property'' regs) (\<lambda>regs.
     and_then (expect_some ''memory node should have at least one range''
                 (case regs of [] \<Rightarrow> None | reg # _ \<Rightarrow> Some reg)) (\<lambda>reg.
     and_then (expect_ok ''memory address should fit in u64'' (reg_address T reg)) (\<lambda>start.
     and_then (expect_ok ''memory size should fit in u64'' (reg_size T reg)) (\<lambda>sz.
     and_then (expect_some ''memory address should fit in usize'' (try_from_uint start)) (\<lambda>start'.
     and_then (add_int pr start sz) (\<lambda>end.
     and_then (expect_some ''memory end should fit in usize'' (try_from_uint end)) (\<lambda>end'.
     Done (start', end'))))))))))"

definition u64_to_be_bytes :: "u64 \<Rightarrow> u8 list" where
  "u64_to_be_bytes v = map (\<lambda>i. ucast (drop_bit (56 - 8 * i) v)) [0..<8]"

text \<open>The \<open>reg\<close> values of the memory below and above the RITM image.\<close>

definition memory_regs :: "profile \<Rightarrow> usize \<Rightarrow> usize \<Rightarrow> usize \<Rightarrow> (u8 list \<times> u8 list) outcome" where
  "memory_regs pr image_address dram_start dram_end =
     and_then (sub_int pr (RITM_START image_address) dram_start) (\<lambda>lower_size.
     and_then (sub_int pr dram_end (RITM_END image_address)) (\<lambda>upper_size.
     Done (u64_to_be_bytes dram_start @ u64_to_be_bytes lower_size,
           u64_to_be_bytes (RITM_END image_address) @ u64_to_be_bytes upper_size)))"

definition memory_node ::
  "('fdt, 'node, 'prop, 'reg, 'dt, 'dnode, 'dprop, 'err) dt_api \<Rightarrow> string \<Rightarrow> u8 list \<Rightarrow> 'dnode outcome" where
  "memory_node T name reg =
     and_then (expect_ok ''valid node name'' (dnode_builder T name)) (\<lambda>node.
     and_then (expect_ok ''fixed property name should be valid'' (dprop_new T ''reg'' reg)) (\<lambda>reg.
     and_then (expect_ok ''fixed property name should be valid''
                 (dprop_new T ''device_type'' (map of_char ''memory'' @ [0]))) (\<lambda>device_type.
     Done (dnode_property T (dnode_property T node reg) device_type))))"

text \<open>
  \<open>Layout::from_size_align\<close> rejects sizes that exceed \<open>isize::MAX\<close> once rounded up; the alignments
  the code uses are powers of two.
\<close>

record Layout =
  layout_size :: nat
  layout_align :: nat

definition layout_from_size_align :: "nat \<Rightarrow> nat \<Rightarrow> Layout option" where
  "layout_from_size_align sz align =
     (if sz + (align - 1) < 2 ^ 63 then Some \<lparr>layout_size = sz, layout_align = align\<rparr> else None)"

text \<open>
  \<open>shared_alloc\<close> in \<open>src/src/main.rs\<close>; \<open>alloc\<close> is the buddy allocator. The slice is its address
  and its length.
\<close>

definition shared_alloc :: "(Layout \<Rightarrow> u64 option) \<Rightarrow> Layout \<Rightarrow> (u64 \<times> nat) outcome" where
  "shared_alloc alloc layout =
     and_then (expect_some ''failed to allocate from shared heap'' (alloc layout)) (\<lambda>ptr.
     Done (ptr, layout_size layout))"

text \<open>\<open>copy_from_slice\<close> panics if the lengths differ; the result is the slice's contents.\<close>

definition copy_from_slice :: "nat \<Rightarrow> u8 list \<Rightarrow> u8 list outcome" where
  "copy_from_slice len src =
     (if length src = len then Done src
      else Panicked ''copy_from_slice: source slice length ('')"

definition qemu_modify_dt ::
  "('fdt, 'node, 'prop, 'reg, 'dt, 'dnode, 'dprop, 'err) dt_api \<Rightarrow> profile \<Rightarrow> (Layout \<Rightarrow> u64 option) \<Rightarrow> usize \<Rightarrow>
   'fdt \<Rightarrow> 'fdt outcome" where
  "qemu_modify_dt T pr alloc image_address fdt =
     and_then (dram_range T pr fdt) (\<lambda>(dram_start, dram_end).
     (let dt = dt_from_fdt T fdt in
     and_then (memory_regs pr image_address dram_start dram_end) (\<lambda>(lower_memory, upper_memory).
     and_then (expect_some ''memory node not found'' (dt_remove_child T dt (memory_node_name DRAM_START))) (\<lambda>dt.
     and_then (memory_node T (memory_node_name dram_start) lower_memory) (\<lambda>node.
     (let dt = dt_add_child T dt node in
     and_then (memory_node T (memory_node_name (RITM_END image_address)) upper_memory) (\<lambda>node.
     (let dt = dt_add_child T dt node;
          new_dtb = dt_to_dtb T dt in
     and_then (expect_some ''invalid layout'' (layout_from_size_align (length new_dtb) (unat FDT_ALIGNMENT))) (\<lambda>layout.
     and_then (shared_alloc alloc layout) (\<lambda>(fdt_address, len).
     and_then (copy_from_slice len new_dtb) (\<lambda>shared_dtb.
     expect_ok ''fdt_address is not a valid fdt'' (fdt_from_raw T fdt_address shared_dtb))))))))))))"

section \<open>The emulated device\<close>

definition read_filtered_mmio :: "u64 MemoryReadHandler" where
  "read_filtered_mmio access counter =
     (if mra_width access \<noteq> U64 then (ReadFault, counter)
      else if mra_offset access = 0 then (Value 0xfeedfacecafebeef, counter)
      else if mra_offset access = 16 then (Value counter, counter + 1)
      else if mra_offset access = 24 then (Value 0x1111222233334444, counter)
      else if mra_offset access = 32 then (Value 0x5555666677778888, counter)
      else if mra_offset access = 40 then (Value 0x9999aaaabbbbcccc, counter)
      else (ReadFault, counter))"

definition write_filtered_mmio :: "u64 MemoryWriteHandler" where
  "write_filtered_mmio access counter =
     (if mwa_offset access = 8 \<and> mwa_width access = U64 \<and> mwa_value access = 0x123456789abcdef0
      then (WriteHandled, counter) else (WriteFault, counter))"

section \<open>The memory policy\<close>

definition qemu_configure_memory_access ::
  "(u64, 'idmap, 'me, u64) stage2_deps \<Rightarrow> stage2_attributes \<Rightarrow> profile \<Rightarrow> usize \<Rightarrow> usize \<Rightarrow>
   (u64, 'idmap) Stage2Builder \<Rightarrow> (('me Stage2ConfigError + unit) \<times> (u64, 'idmap) Stage2Builder) outcome" where
  "qemu_configure_memory_access D A pr image_address heap builder =
     and_try (allow_range D builder 0 FILTERED_MMIO_BASE (STAGE2_DEVICE_ATTRIBUTES A)) (\<lambda>builder.
     and_then (to_ipa FILTERED_MMIO_BASE) (\<lambda>mmio_base.
     and_try (handle_range D builder mmio_base FILTERED_MMIO_SIZE
                (handler_read_write read_filtered_mmio write_filtered_mmio)) (\<lambda>builder.
     and_then (add_int pr FILTERED_MMIO_BASE FILTERED_MMIO_SIZE) (\<lambda>mmio_end.
     and_then (to_ipa mmio_end) (\<lambda>mmio_end_ipa.
     and_then (sub_int pr DRAM_START mmio_end) (\<lambda>above_mmio.
     and_try (allow_range D builder mmio_end_ipa above_mmio (STAGE2_DEVICE_ATTRIBUTES A)) (\<lambda>builder.
     and_then (sub_int pr (RITM_START image_address) DRAM_START) (\<lambda>below_image.
     and_try (allow_range D builder (ucast DRAM_START) below_image (STAGE2_MEMORY_ATTRIBUTES A)) (\<lambda>builder.
     and_then (sub_int pr 0x100000000 (RITM_END image_address)) (\<lambda>above_image.
     and_try (allow_range D builder (ucast (RITM_END image_address)) above_image (STAGE2_MEMORY_ATTRIBUTES A)) (\<lambda>builder.
     and_then (sub_int pr 0x4020000000 0x4010000000) (\<lambda>ecam_size.
     and_try (allow_range D builder 0x4010000000 ecam_size (STAGE2_DEVICE_ATTRIBUTES A)) (\<lambda>builder.
     and_then (sub_int pr 0x10000000000 0x8000000000) (\<lambda>high_size.
     and_try (allow_range D builder 0x8000000000 high_size (STAGE2_DEVICE_ATTRIBUTES A)) (\<lambda>builder.
     and_then (add_int pr heap default_SHARED_HEAP_SIZE) (\<lambda>shared_end.
     (let shared_start = align_down_to_page heap in
     and_then (align_up_to_page pr shared_end) (\<lambda>shared_end.
     and_then (sub_int pr shared_end shared_start) (\<lambda>shared_size.
     and_try (allow_range D builder (ucast shared_start) shared_size (STAGE2_MEMORY_ATTRIBUTES A)) (\<lambda>builder.
     Done (Inr (), builder)))))))))))))))))))))"

definition qemu_handle_hvc :: "u64 \<Rightarrow> u64 list \<Rightarrow> 'e HvcResult" where
  "qemu_handle_hvc function_id args =
     (if function_id = 0xFF000000 then Handled (Inr (response_from_u64 0x123456789ABCDEF0)) else Unhandled)"

text \<open>The platform object: \<open>create\<close> puts the UART in \<open>parts\<close> and \<open>parts\<close> takes it. The driver is a parameter.\<close>

record 'con Qemu =
  qemu_parts_field :: "'con PlatformParts option"

record 'con uart_api =
  uart_new :: "usize \<Rightarrow> 'con"
  uart_set_interrupt_masks_RXI :: "'con \<Rightarrow> 'con"

definition qemu_create :: "'con uart_api \<Rightarrow> 'con Qemu outcome" where
  "qemu_create U =
     and_then (expect_some ''UART_BASE_ADDRESS should not be null''
       (if UART_BASE_ADDRESS = 0 then None else Some UART_BASE_ADDRESS)) (\<lambda>base.
     (let uart = uart_new U base;
          uart = uart_set_interrupt_masks_RXI U uart
      in Done \<lparr>qemu_parts_field = Some \<lparr>pp_console = uart\<rparr>\<rparr>))"

definition qemu_parts :: "'con Qemu \<Rightarrow> 'con PlatformParts option \<times> 'con Qemu" where
  "qemu_parts self = (qemu_parts_field self, self\<lparr>qemu_parts_field := None\<rparr>)"

definition qemu_platform ::
  "('fdt, 'node, 'prop, 'reg, 'dt, 'dnode, 'dprop, 'err) dt_api \<Rightarrow> (u64, 'idmap, 'me, u64) stage2_deps \<Rightarrow>
   stage2_attributes \<Rightarrow> profile \<Rightarrow> (Layout \<Rightarrow> u64 option) \<Rightarrow> 'con uart_api \<Rightarrow> usize \<Rightarrow> u64 \<Rightarrow> usize \<Rightarrow>
   ('con Qemu, 'con, 'fdt, u64, 'idmap, 'me, u64, 'e) Platform" where
  "qemu_platform T D A pr alloc U image_address payload heap =
     \<lparr>plat_MAX_CORES = QEMU_MAX_CORES,
      plat_SHARED_HEAP_SIZE = default_SHARED_HEAP_SIZE,
      plat_create = qemu_create U,
      plat_parts = qemu_parts,
      plat_boot_mode = (\<lambda>self. qemu_boot_mode T),
      plat_payload_address = (\<lambda>self. qemu_payload_address payload),
      plat_fdt_address = (\<lambda>self. qemu_fdt_address),
      plat_modify_dt = (\<lambda>self. qemu_modify_dt T pr alloc image_address),
      plat_configure_memory_access = qemu_configure_memory_access D A pr image_address heap,
      plat_handle_hvc = qemu_handle_hvc\<rparr>"

section \<open>The contract of the platform\<close>

lemma allow_range_reachable:
  "allow_range D b base_ipa sz a = Done (Inr (), b') \<Longrightarrow> builder_reachable D b \<longrightarrow> builder_reachable D b'"
  by (blast intro: reach_allow)

lemma handle_range_reachable:
  "handle_range D b base_ipa sz h = Done (x, b') \<Longrightarrow> builder_reachable D b \<longrightarrow> builder_reachable D b'"
  by (blast intro: run_handle)

lemma qemu_configure_reachable:
  assumes "builder_reachable D b"
    and "qemu_configure_memory_access D A pr image_address heap b = Done (Inr (), b')"
  shows "builder_reachable D b'"
  using assms
  by (auto simp: qemu_configure_memory_access_def Let_def and_try_ok
      dest!: allow_range_reachable handle_range_reachable)

lemma qemu_handle_hvc_wf: "hvc_result_wf (qemu_handle_hvc function_id args)"
  by (simp add: qemu_handle_hvc_def response_from_u64_def)

interpretation qemu: platform_contract
  D "qemu_configure_memory_access D A pr image_address heap" qemu_handle_hvc
  for D :: "(u64, 'idmap, 'me, u64) stage2_deps" and A pr image_address heap
  by unfold_locales (auto intro: qemu_configure_reachable qemu_handle_hvc_wf)

section \<open>Lemmas for the other operations\<close>

abbreviation boot_mode_option :: "string \<Rightarrow> bool" where
  "boot_mode_option w \<equiv> w = ''ritm.boot_mode=el1'' \<or> w = ''ritm.boot_mode=el2''"

lemma boot_mode_arg_find:
  "boot_mode_arg args =
     (map_option (\<lambda>w. if w = ''ritm.boot_mode=el2'' then El2 else El1) (List.find boot_mode_option args),
      map ((@) ''Unknown boot mode specified: '')
        (filter (\<lambda>w. strip_prefix ''ritm.boot_mode='' w \<noteq> None) (takeWhile (\<lambda>w. \<not> boot_mode_option w) args)))"
proof (induction args)
  case Nil
  then show ?case by simp
next
  case (Cons arg args)
  show ?case
  proof (cases "strip_prefix ''ritm.boot_mode='' arg")
    case None
    then have "arg \<noteq> ''ritm.boot_mode=el1''" "arg \<noteq> ''ritm.boot_mode=el2''"
      using strip_prefix_None [of "''ritm.boot_mode=''" arg "''el1''"]
        strip_prefix_None [of "''ritm.boot_mode=''" arg "''el2''"] by simp_all
    then show ?thesis using Cons None by simp
  next
    case (Some m)
    then have "arg = ''ritm.boot_mode='' @ m" by (simp only: strip_prefix_Some)
    then show ?thesis using Cons Some by simp
  qed
qed

text \<open>Reading back a big-endian \<open>reg\<close> cell.\<close>

definition u64_from_be_bytes :: "u8 list \<Rightarrow> u64" where
  "u64_from_be_bytes bs = foldl (\<lambda>acc b. push_bit 8 acc OR ucast b) 0 bs"

lemma be_cell: "(k \<le> n \<and> n - k < 64 \<and> n - k < 8 \<and> P (k + (n - k))) = (k \<le> n \<and> n < k + 8 \<and> P (n :: nat))"
  by (cases "k \<le> n") auto

lemma u64_be_round_trip: "u64_from_be_bytes (u64_to_be_bytes v) = v"
proof (rule bit_word_eqI)
  fix n assume "n < LENGTH(64)"
  then have n: "n < 64" by simp
  have ub: "u64_to_be_bytes v = [ucast (drop_bit 56 v), ucast (drop_bit 48 v), ucast (drop_bit 40 v),
      ucast (drop_bit 32 v), ucast (drop_bit 24 v), ucast (drop_bit 16 v), ucast (drop_bit 8 v), ucast v]"
    by (simp add: u64_to_be_bytes_def upt_rec)
  have "bit (u64_from_be_bytes (u64_to_be_bytes v)) n \<longleftrightarrow>
      (56 \<le> n \<and> n < 64 \<or> 48 \<le> n \<and> n < 56 \<or> 40 \<le> n \<and> n < 48 \<or> 32 \<le> n \<and> n < 40 \<or>
       24 \<le> n \<and> n < 32 \<or> 16 \<le> n \<and> n < 24 \<or> 8 \<le> n \<and> n < 16 \<or> n < 8) \<and> bit v n"
    using n unfolding u64_from_be_bytes_def ub
    by (simp add: bit_or_iff bit_push_bit_iff bit_ucast_iff bit_drop_bit_eq be_cell) blast
  also have "\<dots> \<longleftrightarrow> bit v n" using n by auto
  finally show "bit (u64_from_be_bytes (u64_to_be_bytes v)) n = bit v n" .
qed
text \<open>The counter of the emulated device over a sequence of reads.\<close>

fun read_sequence :: "MemoryReadAccess list \<Rightarrow> u64 \<Rightarrow> MemoryReadResult list \<times> u64" where
  "read_sequence [] counter = ([], counter)"
| "read_sequence (a # as) counter =
     (let (r, counter) = read_filtered_mmio a counter; (rs, counter) = read_sequence as counter
      in (r # rs, counter))"

definition counter_read :: "MemoryReadAccess \<Rightarrow> bool" where
  "counter_read a \<longleftrightarrow> mra_width a = U64 \<and> mra_offset a = 16"

lemma read_filtered_mmio_counter:
  "snd (read_filtered_mmio a counter) = counter + (if counter_read a then 1 else 0)"
  "counter_read a \<Longrightarrow> fst (read_filtered_mmio a counter) = Value counter"
  by (auto simp: read_filtered_mmio_def counter_read_def)

lemma read_sequence_Cons:
  "read_sequence (a # as) counter =
     (fst (read_filtered_mmio a counter) # fst (read_sequence as (snd (read_filtered_mmio a counter))),
      snd (read_sequence as (snd (read_filtered_mmio a counter))))"
  by (simp add: case_prod_beta Let_def)

lemma read_sequence_counter:
  "snd (read_sequence as counter) = counter + of_nat (length (filter counter_read as))"
  by (induction as arbitrary: counter)
    (simp_all add: read_sequence_Cons read_filtered_mmio_counter del: read_sequence.simps(2))

lemma read_sequence_values:
  "map snd (filter (counter_read \<circ> fst) (zip as (fst (read_sequence as counter)))) =
     map (\<lambda>i. Value (counter + of_nat i)) [0..<length (filter counter_read as)]"
  by (induction as arbitrary: counter)
    (simp_all add: read_sequence_Cons read_filtered_mmio_counter upt_conv_Cons map_Suc_upt [symmetric]
      algebra_simps del: read_sequence.simps(2) upt_Suc)

section \<open>Properties\<close>

text \<open>
  C37: The boot mode is EL2 exactly when the first of the words \<open>ritm.boot_mode=el1\<close> and
  \<open>ritm.boot_mode=el2\<close> on the kernel command line is the latter; other values of the option are
  skipped, and a missing command line or option means EL1. There is a warning for every word
  before the decisive one that gives the option another value, and no other.
\<close>

theorem qemu_boot_mode_first_option:
  "qemu_boot_mode T fdt =
     (case Option.bind (fdt_child T fdt ''chosen'') (\<lambda>n. node_property T n ''bootargs'') of
        Some p \<Rightarrow>
          (case prop_as_str T p of
             Inr args \<Rightarrow>
               (if List.find boot_mode_option (split_whitespace args) = Some ''ritm.boot_mode=el2'' then El2 else El1,
                map ((@) ''Unknown boot mode specified: '')
                  (filter (\<lambda>w. strip_prefix ''ritm.boot_mode='' w \<noteq> None)
                    (takeWhile (\<lambda>w. \<not> boot_mode_option w) (split_whitespace args))))
           | Inl _ \<Rightarrow> (El1, []))
      | None \<Rightarrow> (El1, []))"
  by (auto simp: qemu_boot_mode_def read_boot_mode_from_cmd_def boot_mode_arg_find split: option.split sum.split)

text \<open>The addresses a \<open>reg\<close> value (address and size, 64 bits each) describes.\<close>

definition reg_covers :: "u8 list \<Rightarrow> nat \<Rightarrow> bool" where
  "reg_covers reg x \<longleftrightarrow>
     unat (u64_from_be_bytes (take 8 reg)) \<le> x \<and>
     x < unat (u64_from_be_bytes (take 8 reg)) + unat (u64_from_be_bytes (drop 8 reg))"

lemma length_u64_to_be_bytes [simp]: "length (u64_to_be_bytes v) = 8"
  by (simp add: u64_to_be_bytes_def)

lemma reg_covers_bytes:
  "reg_covers (u64_to_be_bytes a @ u64_to_be_bytes s) x \<longleftrightarrow> unat a \<le> x \<and> x < unat a + unat s"
  by (simp add: reg_covers_def u64_be_round_trip)

lemma memory_regs_cover:
  assumes "memory_regs pr image_address dram_start dram_end = Done (lower, upper)"
    and "unat image_address + 0x400000 < 2 ^ 64"
    and "pr = Dev \<or> dram_start \<le> image_address \<and> image_address + 0x400000 \<le> dram_end"
  shows "dram_start \<le> image_address"
    and "reg_covers lower x \<or> reg_covers upper x \<longleftrightarrow>
     unat dram_start \<le> x \<and> x < unat dram_end \<and> (x < unat image_address \<or> unat image_address + 0x400000 \<le> x)"
proof -
  have regs: "lower = u64_to_be_bytes dram_start @ u64_to_be_bytes (image_address - dram_start)"
    "upper = u64_to_be_bytes (image_address + 0x400000) @ u64_to_be_bytes (dram_end - (image_address + 0x400000))"
    and le: "dram_start \<le> image_address" "image_address + 0x400000 \<le> dram_end"
    using assms(1,3) by (auto simp: memory_regs_def sub_int_def RITM_START_def RITM_END_def not_less split: if_splits)
  show "dram_start \<le> image_address" by (rule le)
  have "unat image_address + unat (0x400000 :: usize) < 2 ^ LENGTH(64)" using assms(2) by simp
  from unat_plus_no_overflow [OF this]
  have stop: "unat (image_address + 0x400000) = unat image_address + 0x400000" by simp
  have "unat (image_address - dram_start) = unat image_address - unat dram_start"
    "unat (dram_end - (image_address + 0x400000)) = unat dram_end - (unat image_address + 0x400000)"
    using le by (simp_all add: unat_sub stop)
  moreover have "unat dram_start \<le> unat image_address" "unat image_address + 0x400000 \<le> unat dram_end"
    using le by (simp_all add: word_le_nat_alt stop)
  ultimately show "reg_covers lower x \<or> reg_covers upper x \<longleftrightarrow>
     unat dram_start \<le> x \<and> x < unat dram_end \<and> (x < unat image_address \<or> unat image_address + 0x400000 \<le> x)"
    unfolding regs reg_covers_bytes stop by auto
qed

lemma memory_node_name_inject:
  assumes "memory_node_name a = memory_node_name b"
  shows "a = b"
proof -
  have "parse_digits 16 0 (radix_string 16 (unat v)) = Some v" for v :: u64
    using parse_radix_string [of 16 "unat v"] unat_u64_less [of v] by simp
  moreover have "radix_string 16 (unat a) = radix_string 16 (unat b)"
    using assms by (simp only: memory_node_name_def format_x_def append_same_eq same_append_eq)
  ultimately show ?thesis by (metis option.inject)
qed

text \<open>
  What the owned trees of the library hold: the properties of the root's children by name.
  Documented behaviour: removing, adding and building nodes do that.
\<close>

record ('dt, 'dnode, 'dprop) dt_view =
  dt_nodes :: "'dt \<Rightarrow> string \<Rightarrow> (string \<Rightarrow> u8 list option) option"
  dnode_view :: "'dnode \<Rightarrow> string \<times> (string \<Rightarrow> u8 list option)"
  dprop_view :: "'dprop \<Rightarrow> string \<times> u8 list"

definition dt_api_ok ::
  "('fdt, 'node, 'prop, 'reg, 'dt, 'dnode, 'dprop, 'err) dt_api \<Rightarrow> ('dt, 'dnode, 'dprop) dt_view \<Rightarrow> bool" where
  "dt_api_ok T V \<longleftrightarrow>
     (\<forall>dt name dt'. dt_remove_child T dt name = Some dt' \<longrightarrow> dt_nodes V dt' = (dt_nodes V dt)(name := None)) \<and>
     (\<forall>dt node. dt_nodes V (dt_add_child T dt node) =
        (dt_nodes V dt)(fst (dnode_view V node) \<mapsto> snd (dnode_view V node))) \<and>
     (\<forall>name node. dnode_builder T name = Inr node \<longrightarrow> dnode_view V node = (name, Map.empty)) \<and>
     (\<forall>node prop. dnode_view V (dnode_property T node prop) =
        (fst (dnode_view V node), (snd (dnode_view V node))(fst (dprop_view V prop) \<mapsto> snd (dprop_view V prop)))) \<and>
     (\<forall>name value prop. dprop_new T name value = Inr prop \<longrightarrow> dprop_view V prop = (name, value))"

definition memory_properties :: "u8 list \<Rightarrow> string \<Rightarrow> u8 list option" where
  "memory_properties reg = [''reg'' \<mapsto> reg, ''device_type'' \<mapsto> map of_char ''memory'' @ [0]]"

lemma memory_node_view:
  assumes "dt_api_ok T V" and "memory_node T name reg = Done node"
  shows "dnode_view V node = (name, memory_properties reg)"
  using assms unfolding memory_node_def dt_api_ok_def memory_properties_def
  by auto


text \<open>A device tree that is a map of maps, for the example; its serialisation is left out.\<close>

type_synonym map_tree = "string \<Rightarrow> (string \<Rightarrow> u8 list option) option"

definition map_dt ::
  "(map_tree, string \<Rightarrow> u8 list option, u8 list, u8 list, map_tree, string \<times> (string \<Rightarrow> u8 list option), string \<times> u8 list, unit) dt_api" where
  "map_dt =
     \<lparr>fdt_child = (\<lambda>fdt. fdt), node_property = (\<lambda>node. node), prop_as_str = (\<lambda>bytes. Inr (map (\<lambda>b. char_of (unat b)) bytes)),
      node_reg = (\<lambda>node. Inr (map_option (\<lambda>reg. [reg]) (node ''reg''))),
      reg_address = (\<lambda>reg. Inr (u64_from_be_bytes (take 8 reg))), reg_size = (\<lambda>reg. Inr (u64_from_be_bytes (drop 8 reg))),
      dt_from_fdt = (\<lambda>fdt. fdt), dt_remove_child = (\<lambda>dt name. if dt name = None then None else Some (dt(name := None))),
      dt_add_child = (\<lambda>dt (name, props). dt(name \<mapsto> props)), dnode_builder = (\<lambda>name. Inr (name, Map.empty)),
      dprop_new = (\<lambda>name value. Inr (name, value)), dnode_property = (\<lambda>(name, props) (p, v). (name, props(p \<mapsto> v))),
      dt_to_dtb = (\<lambda>dt. []), fdt_from_raw = (\<lambda>address bytes. Inr Map.empty)\<rparr>"

lemma map_dt_ok: "dt_api_ok map_dt \<lparr>dt_nodes = (\<lambda>dt. dt), dnode_view = (\<lambda>node. node), dprop_view = (\<lambda>prop. prop)\<rparr>"
  by (auto simp: dt_api_ok_def map_dt_def split: if_splits)


text \<open>
  The counter of the emulated device counts exactly the 64-bit reads of offset 16, modulo
  2^64, whatever other reads come in between, and the \<open>i\<close>-th such read returns the start value
  plus \<open>i\<close>.
\<close>

theorem filtered_mmio_counter_counts:
  "snd (read_sequence as counter) = counter + of_nat (length (filter counter_read as)) \<and>
   map snd (filter (counter_read \<circ> fst) (zip as (fst (read_sequence as counter)))) =
     map (\<lambda>i. Value (counter + of_nat i)) [0..<length (filter counter_read as)]"
  using read_sequence_counter read_sequence_values by blast

end
