(* ===== verification/Qemu_Policy.thy ===== *)
theory Qemu_Policy
  imports Qemu
begin

text \<open>
  What the QEMU platform's \<open>configure_memory_access\<close> (\<open>src/src/platform/qemu.rs\<close>) builds: the
  calls are followed one by one with the sizes the code computes, for any image address and
  shared heap the linker may choose, up to the policy \<open>qemu_guest_map\<close>.
\<close>

section \<open>The policy the configuration builds\<close>

text \<open>
  Documented behaviour of the page table (\<open>aarch64_paging::idmap::IdMap\<close> with root level 0, which
  spans 48 address bits): mapping a non-empty, page-aligned range inside that space, none of
  whose addresses is mapped yet, succeeds. Nothing is assumed about other ranges.
\<close>

definition map_range_succeeds ::
  "('s, 'idmap, 'me, 'attr) stage2_deps \<Rightarrow> ('idmap \<Rightarrow> u64 \<Rightarrow> 'attr option) \<Rightarrow> bool" where
  "map_range_succeeds D maps \<longleftrightarrow>
     (\<forall>m s e a. page_aligned s \<longrightarrow> page_aligned e \<longrightarrow> s < e \<longrightarrow> unat e \<le> 2 ^ 48 \<longrightarrow>
        (\<forall>x\<in>{s..<e}. maps m x = None) \<longrightarrow> fst (idmap_map_range D m s e a) = Inr ())"

text \<open>A builder with \<open>n\<close> allowed ranges, handlers \<open>R\<close> and page table contents \<open>M\<close>.\<close>

definition builder_at ::
  "('idmap \<Rightarrow> u64 \<Rightarrow> 'attr option) \<Rightarrow> ('s, 'idmap) Stage2Builder \<Rightarrow> nat \<Rightarrow> 's MemoryAccessHandlerRegistry \<Rightarrow>
   (u64 \<Rightarrow> 'attr option) \<Rightarrow> bool" where
  "builder_at maps b n R M \<longleftrightarrow>
     builder_inv maps b \<and> length (sb_allowed_ranges b) = n \<and> sb_memory_access_handlers b = R \<and> maps (sb_idmap b) = M"

lemma word_range_unat:
  "unat base + unat sz < 2 ^ 64 \<Longrightarrow>
   x \<in> {base ..< base + sz} \<longleftrightarrow> unat base \<le> unat x \<and> unat x < unat base + unat (sz :: u64)"
  by (simp add: word_le_nat_alt word_less_nat_alt unat_plus_no_overflow)

text \<open>A call that succeeds adds its range to the page table.\<close>

lemma allow_range_at:
  fixes D :: "('s, 'idmap, 'me, 'attr) stage2_deps"
  assumes ok: "stage2_deps_ok D maps" and at: "builder_at maps b n R M"
    and call: "allow_range D b base sz a = Done (Inr (), b')"
  shows "builder_at maps b' (n + 1) R (\<lambda>x. if unat base \<le> unat x \<and> unat x < unat base + unat sz then Some a else M x)"
proof -
  have inv: "builder_inv maps b" and n: "length (sb_allowed_ranges b) = n"
    and R: "sb_memory_access_handlers b = R" and M: "maps (sb_idmap b) = M"
    using at by (simp_all add: builder_at_def)
  obtain r where new: "stage2_range_new base sz = (Inr r :: 'me Stage2ConfigError + Stage2Range)"
    and b': "sb_allowed_ranges b' = sb_allowed_ranges b @ [r]"
      "sb_memory_access_handlers b' = sb_memory_access_handlers b"
      "maps (sb_idmap b') = (\<lambda>x. if x \<in> covers r then Some a else maps (sb_idmap b) x)"
    by (rule allow_range_ok [OF ok builder_inv_wf [OF inv] call])
  have fits: "unat base + unat sz < 2 ^ 64" using new by (simp add: stage2_range_new_eq split: if_splits)
  have "covers r = {base ..< base + sz}" using stage2_range_new_Inr [OF new] by (simp add: covers_def)
  then show ?thesis
    using allow_range_inv [OF ok inv call] n R
    by (simp add: builder_at_def b' word_range_unat [OF fits] M del: atLeastLessThan_iff cong: if_cong)
qed

lemma builder_at_allow:
  fixes D :: "('s, 'idmap, 'me, 'attr) stage2_deps"
  assumes ok: "stage2_deps_ok D maps" and total: "map_range_succeeds D maps"
    and at: "builder_at maps b n R M"
    and args: "unat base mod 4096 = 0" "unat sz mod 4096 = 0" "0 < unat sz" "unat base + unat sz \<le> 2 ^ 48" "n < 32"
    and free: "\<And>x. unat base \<le> unat x \<Longrightarrow> unat x < unat base + unat sz \<Longrightarrow> M x = None \<and> x \<notin> handled_by R"
  shows "\<exists>b'. allow_range D b base sz a = Done (Inr (), b') \<and>
     builder_at maps b' (n + 1) R (\<lambda>x. if unat base \<le> unat x \<and> unat x < unat base + unat sz then Some a else M x)"
proof -
  have inv: "builder_inv maps b" and n: "length (sb_allowed_ranges b) = n"
    and R: "sb_memory_access_handlers b = R" and M: "maps (sb_idmap b) = M"
    using at by (simp_all add: builder_at_def)
  have fits: "unat base + unat sz < 2 ^ 64" using args(4) by simp
  note range_iff = word_range_unat [OF fits]
  let ?r = "\<lparr>s2r_base_ipa = base, s2r_size = sz, s2r_end_ipa = base + sz\<rparr>"
  have new: "stage2_range_new base sz = Inr ?r"
    using args fits unat_eq_zero [of sz] by (simp add: stage2_range_new_eq page_aligned_unat)
  have covers: "covers ?r = {base ..< base + sz}" by (simp add: covers_def)
  have unmapped: "\<forall>x\<in>{base ..< base + sz}. maps (sb_idmap b) x = None"
    using free M by (auto dest!: range_iff [THEN iffD1] simp del: atLeastLessThan_iff)
  have "{base ..< base + sz} \<inter> allowed_set b = {}" "{base ..< base + sz} \<inter> handled_by R = {}"
    using free inv by (auto simp: builder_inv_def M R simp flip: M dest!: range_iff [THEN iffD1])
  then have checks: "(allow_range_checks b base sz :: 'me Stage2ConfigError + _) = Inr (?r, base, base + sz)"
    using args(5) by (simp add: allow_range_checks_eq [OF builder_inv_wf [OF inv]] new covers n R MAX_ALLOWED_RANGES_def)
  have stop: "unat (base + sz) = unat base + unat sz" using fits by (simp add: unat_plus_no_overflow)
  then have "page_aligned base" "page_aligned (base + sz)" "base < base + sz" "unat (base + sz) \<le> 2 ^ 48"
    using args by (simp_all add: page_aligned_unat word_less_nat_alt mod_add_eq [symmetric])
  then have "fst (idmap_map_range D (sb_idmap b) base (base + sz) a) = Inr ()"
    using total unmapped unfolding map_range_succeeds_def by blast
  then obtain m where m: "idmap_map_range D (sb_idmap b) base (base + sz) a = (Inr (), m)"
    by (metis prod.collapse)
  have call: "allow_range D b base sz a =
      Done (Inr (), b\<lparr>sb_idmap := m, sb_allowed_ranges := sb_allowed_ranges b @ [?r]\<rparr>)"
    using checks m stage2_deps_okD(3) [OF ok, of "sb_allowed_ranges b"] args(5) n
    by (simp add: allow_range_def track_allowed_range_def MAX_ALLOWED_RANGES_def)
  then show ?thesis using allow_range_at [OF ok at call] by blast
qed

text \<open>Where the image and the shared heap may be: the heap is a static of the image.\<close>

definition qemu_layout_ok :: "usize \<Rightarrow> usize \<Rightarrow> bool" where
  "qemu_layout_ok image_address heap \<longleftrightarrow>
     unat image_address mod 4096 = 0 \<and> unat DRAM_START < unat image_address \<and>
     unat image_address + 0x400000 < 2 ^ 32 \<and>
     unat image_address \<le> unat heap \<and> unat heap + 0x10000 \<le> unat image_address + 0x400000"

text \<open>What the guest may access directly, and with which attributes.\<close>

definition qemu_guest_map :: "stage2_attributes \<Rightarrow> usize \<Rightarrow> usize \<Rightarrow> u64 \<Rightarrow> u64 option" where
  "qemu_guest_map A image_address heap ipa =
     (let x = unat ipa; start = unat image_address;
          heap_start = 4096 * (unat heap div 4096); heap_end = 4096 * ((unat heap + 0x10000 + 4095) div 4096) in
      if x < 0x0f000000 then Some (STAGE2_DEVICE_ATTRIBUTES A)
      else if x < 0x0f001000 then None
      else if x < 0x40000000 then Some (STAGE2_DEVICE_ATTRIBUTES A)
      else if x < start then Some (STAGE2_MEMORY_ATTRIBUTES A)
      else if x < start + 0x400000
        then (if heap_start \<le> x \<and> x < heap_end then Some (STAGE2_MEMORY_ATTRIBUTES A) else None)
      else if x < 0x100000000 then Some (STAGE2_MEMORY_ATTRIBUTES A)
      else if 0x4010000000 \<le> x \<and> x < 0x4020000000 then Some (STAGE2_DEVICE_ATTRIBUTES A)
      else if 0x8000000000 \<le> x \<and> x < 0x10000000000 then Some (STAGE2_DEVICE_ATTRIBUTES A)
      else None)"

definition filtered_mmio_region :: "u64 MemoryAccessRegion" where
  "filtered_mmio_region =
     \<lparr>mar_base_ipa = 0x0f000000, mar_size = 0x1000,
      mar_handler = handler_read_write read_filtered_mmio write_filtered_mmio, mar_end_ipa = 0x0f001000\<rparr>"

lemma handled_by_filtered:
  "x \<in> handled_by \<lparr>reg_regions = [filtered_mmio_region]\<rparr> \<longleftrightarrow> 0x0f000000 \<le> unat x \<and> unat x < 0x0f001000"
  by (simp add: handled_by_def covers_def filtered_mmio_region_def word_le_nat_alt word_less_nat_alt)

lemma filtered_register:
  assumes "stage2_deps_ok D maps"
  shows "registry_register D registry_new filtered_mmio_region = Done (Inr (), \<lparr>reg_regions = [filtered_mmio_region]\<rparr>)"
  by (simp add: registry_register_def registry_new_def MAX_MEMORY_ACCESS_HANDLERS_def Let_def
      partition_point_def binary_search_by_def stage2_deps_okD(4) [OF assms])

lemma handle_filtered_eq:
  assumes ok: "stage2_deps_ok D maps" and at: "builder_at maps b n registry_new M"
  shows "handle_range D b 0x0f000000 0x1000 (handler_read_write read_filtered_mmio write_filtered_mmio) =
     (if {0x0f000000 ..< 0x0f001000} \<inter> allowed_set b \<noteq> {} then Done (Inl AllowedRangeOverlap, b)
      else Done (Inr (), b\<lparr>sb_memory_access_handlers := \<lparr>reg_regions = [filtered_mmio_region]\<rparr>\<rparr>))"
proof -
  have wf: "builder_wf b" and R: "sb_memory_access_handlers b = registry_new"
    using at by (simp_all add: builder_at_def builder_inv_def)
  let ?r = "\<lparr>s2r_base_ipa = 0x0f000000, s2r_size = 0x1000, s2r_end_ipa = 0x0f001000\<rparr>"
  let ?h = "handler_read_write read_filtered_mmio write_filtered_mmio"
  have new: "stage2_range_new 0x0f000000 0x1000 = Inr ?r"
    by (simp add: stage2_range_new_eq page_aligned_def)
  have "region_new ?r ?h = filtered_mmio_region" "covers ?r = {0x0f000000 ..< 0x0f001000}"
    by (simp_all add: region_new_def filtered_mmio_region_def covers_def)
  then show ?thesis
    using handle_range_valid_range [OF wf new, of D ?h] R filtered_register [OF ok] by simp
qed

lemma handle_filtered_at:
  assumes ok: "stage2_deps_ok D maps" and at: "builder_at maps b n registry_new M"
    and call: "handle_range D b 0x0f000000 0x1000 (handler_read_write read_filtered_mmio write_filtered_mmio) =
      Done (Inr (), b')"
  shows "builder_at maps b' n \<lparr>reg_regions = [filtered_mmio_region]\<rparr> M"
proof -
  have "b' = b\<lparr>sb_memory_access_handlers := \<lparr>reg_regions = [filtered_mmio_region]\<rparr>\<rparr>"
    using call unfolding handle_filtered_eq [OF ok at] by (simp split: if_splits)
  moreover have "builder_inv maps b" using at by (simp add: builder_at_def)
  ultimately show ?thesis
    using handle_range_inv [OF ok _ call] at by (simp add: builder_at_def)
qed

lemma builder_at_handle:
  assumes ok: "stage2_deps_ok D maps" and at: "builder_at maps b n registry_new M"
    and free: "\<And>x. 0x0f000000 \<le> unat x \<Longrightarrow> unat x < 0x0f001000 \<Longrightarrow> M x = None"
  shows "\<exists>b'. handle_range D b 0x0f000000 0x1000 (handler_read_write read_filtered_mmio write_filtered_mmio) =
       Done (Inr (), b') \<and> builder_at maps b' n \<lparr>reg_regions = [filtered_mmio_region]\<rparr> M"
proof -
  have "x \<notin> allowed_set b" if "x \<in> {0x0f000000 ..< 0x0f001000}" for x
  proof -
    have "M x = None" using that free [of x] by (simp add: word_le_nat_alt word_less_nat_alt)
    moreover have "dom M = allowed_set b" using at by (auto simp: builder_at_def builder_inv_def)
    ultimately show ?thesis by (metis domIff)
  qed
  then have "{0x0f000000 ..< 0x0f001000} \<inter> allowed_set b = {}" by blast
  then have call: "handle_range D b 0x0f000000 0x1000 (handler_read_write read_filtered_mmio write_filtered_mmio) =
      Done (Inr (), b\<lparr>sb_memory_access_handlers := \<lparr>reg_regions = [filtered_mmio_region]\<rparr>\<rparr>)"
    by (simp add: handle_filtered_eq [OF ok at])
  then show ?thesis using handle_filtered_at [OF ok at call] by blast
qed

text \<open>The rounded bounds of the shared heap stay inside the image.\<close>

lemma heap_hull:
  fixes h i :: nat
  assumes "i mod 4096 = 0" and "i \<le> h" and "h + 0x10000 \<le> i + 0x400000"
  shows "i \<le> 4096 * (h div 4096)" and "4096 * (h div 4096) < 4096 * ((h + 0x10000 + 4095) div 4096)"
    and "4096 * ((h + 0x10000 + 4095) div 4096) \<le> i + 0x400000"
proof -
  obtain k where k: "i = 4096 * k" using assms(1) by (auto simp: mod_eq_0_iff_dvd)
  have "k \<le> h div 4096" using assms(2) k by (simp add: less_eq_div_iff_mult_less_eq mult.commute)
  then show "i \<le> 4096 * (h div 4096)" using k by simp
  have "(h + 0x10000 + 4095) div 4096 \<le> (4096 * (k + 1024) + 4095) div 4096"
    using assms(3) k by (intro div_le_mono) simp
  also have "\<dots> = k + 1024" by simp
  finally show "4096 * ((h + 0x10000 + 4095) div 4096) \<le> i + 0x400000" using k by simp
  have "(h + 16 * 4096) div 4096 = 16 + h div 4096" by (rule div_mult_self1) simp
  moreover have "(h + 16 * 4096) div 4096 \<le> (h + 0x10000 + 4095) div 4096" by (intro div_le_mono) simp
  ultimately show "4096 * (h div 4096) < 4096 * ((h + 0x10000 + 4095) div 4096)" by simp
qed

text \<open>The steps of the configuration, with the sizes the code computes.\<close>

lemma qemu_configures_below_image:
  fixes D :: "(u64, 'idmap, 'me, u64) stage2_deps"
  assumes ok: "stage2_deps_ok D maps" and total: "map_range_succeeds D maps"
  obtains b1 b2 b3 where
    "allow_range D (builder_new D) 0 0x0f000000 (STAGE2_DEVICE_ATTRIBUTES A) = Done (Inr (), b1)"
    "handle_range D b1 0x0f000000 0x1000 (handler_read_write read_filtered_mmio write_filtered_mmio) =
       Done (Inr (), b2)"
    "allow_range D b2 0x0f001000 0x30fff000 (STAGE2_DEVICE_ATTRIBUTES A) = Done (Inr (), b3)"
    "builder_at maps b3 (Suc 1) \<lparr>reg_regions = [filtered_mmio_region]\<rparr>
       (\<lambda>x. if 0x0f001000 \<le> unat x \<and> unat x < 0x40000000 then Some (STAGE2_DEVICE_ATTRIBUTES A)
            else if unat x < 0x0f000000 then Some (STAGE2_DEVICE_ATTRIBUTES A) else None)"
proof -
  let ?dev = "STAGE2_DEVICE_ATTRIBUTES A" and ?R = "\<lparr>reg_regions = [filtered_mmio_region]\<rparr>"
  note step = builder_at_allow [OF ok total]
  have "builder_at maps (builder_new D) 0 registry_new Map.empty"
    using builder_new_inv [OF ok] stage2_deps_okD(1) [OF ok] by (simp add: builder_at_def builder_new_def)
  from step [OF this, of 0 "0x0f000000" ?dev]
  obtain b1 where c1: "allow_range D (builder_new D) 0 0x0f000000 ?dev = Done (Inr (), b1)"
    and b1: "builder_at maps b1 1 registry_new (\<lambda>x. if unat x < 0x0f000000 then Some ?dev else None)"
    by auto
  from builder_at_handle [OF ok b1]
  obtain b2 where c2: "handle_range D b1 0x0f000000 0x1000
      (handler_read_write read_filtered_mmio write_filtered_mmio) = Done (Inr (), b2)"
    and b2: "builder_at maps b2 1 ?R (\<lambda>x. if unat x < 0x0f000000 then Some ?dev else None)" by auto
  from step [OF b2, of "0x0f001000" "0x30fff000" ?dev]
  obtain b3 where "allow_range D b2 0x0f001000 0x30fff000 ?dev = Done (Inr (), b3)"
    and "builder_at maps b3 (Suc 1) ?R (\<lambda>x. if 0x0f001000 \<le> unat x \<and> unat x < 0x40000000 then Some ?dev
      else if unat x < 0x0f000000 then Some ?dev else None)"
    by (auto simp: handled_by_filtered)
  with c1 c2 show thesis by (rule that)
qed

lemma qemu_configures_dram:
  fixes D :: "(u64, 'idmap, 'me, u64) stage2_deps"
  assumes ok: "stage2_deps_ok D maps" and total: "map_range_succeeds D maps"
    and at: "builder_at maps b n R M" "n < 31" "R = \<lparr>reg_regions = [filtered_mmio_region]\<rparr>"
    and image: "unat image_address mod 4096 = 0" "0x40000000 < unat image_address"
      "unat image_address + 0x400000 < 0x100000000"
    and free: "\<And>x. 0x40000000 \<le> unat x \<Longrightarrow> M x = None"
  obtains b1 b2 where
    "allow_range D b 0x40000000 (image_address - 0x40000000) a = Done (Inr (), b1)"
    "allow_range D b1 (image_address + 0x400000) (0x100000000 - (image_address + 0x400000)) a = Done (Inr (), b2)"
    "builder_at maps b2 (n + 2) R
       (\<lambda>x. if unat image_address + 0x400000 \<le> unat x \<and> unat x < 0x100000000 then Some a
            else if 0x40000000 \<le> unat x \<and> unat x < unat image_address then Some a else M x)"
proof -
  note step = builder_at_allow [OF ok total]
  have low: "unat (image_address - 0x40000000) = unat image_address - 0x40000000"
    using image by (simp add: unat_sub word_le_nat_alt)
  have stop: "unat (image_address + 0x400000) = unat image_address + 0x400000"
    using image by (simp add: unat_word_ariths)
  have high: "unat (0xffc00000 - image_address) = 0xffc00000 - unat image_address"
    using image by (simp add: unat_sub word_le_nat_alt)
  have mods: "(unat image_address - 0x40000000) mod 4096 = 0" "(unat image_address + 0x400000) mod 4096 = 0"
      "(0xffc00000 - unat image_address) mod 4096 = 0"
    using image by (auto simp: mod_eq_0_iff_dvd intro!: dvd_diff_nat dvd_add)
  obtain b1 where c1: "allow_range D b 0x40000000 (image_address - 0x40000000) a = Done (Inr (), b1)"
    and b1: "builder_at maps b1 (n + 1) R
       (\<lambda>x. if 0x40000000 \<le> unat x \<and> unat x < unat image_address then Some a else M x)"
    using step [OF at(1), of "0x40000000" "image_address - 0x40000000" a] image at(2,3) mods free
    by (auto simp: low handled_by_filtered)
  obtain b2 where "allow_range D b1 (image_address + 0x400000) (0x100000000 - (image_address + 0x400000)) a = Done (Inr (), b2)"
    and "builder_at maps b2 (n + 2) R
       (\<lambda>x. if unat image_address + 0x400000 \<le> unat x \<and> unat x < 0x100000000 then Some a
            else if 0x40000000 \<le> unat x \<and> unat x < unat image_address then Some a else M x)"
    using step [OF b1, of "image_address + 0x400000" "0x100000000 - (image_address + 0x400000)" a] image at(2,3) mods free
    by (auto simp: stop high handled_by_filtered)
  with c1 show thesis by (rule that)
qed

lemma qemu_configures_high_and_heap:
  fixes D :: "(u64, 'idmap, 'me, u64) stage2_deps"
  assumes ok: "stage2_deps_ok D maps" and total: "map_range_succeeds D maps"
    and at: "builder_at maps b n R M" "n < 29" "R = \<lparr>reg_regions = [filtered_mmio_region]\<rparr>"
    and heap: "unat start mod 4096 = 0" "unat sz mod 4096 = 0" "0 < unat sz" "0x40000000 \<le> unat start"
      "unat start + unat sz < 0x100000000"
    and high: "\<And>x. 0x100000000 \<le> unat x \<Longrightarrow> M x = None"
    and heap_free: "\<And>x. unat start \<le> unat x \<Longrightarrow> unat x < unat start + unat sz \<Longrightarrow> M x = None"
  obtains b1 b2 b3 where
    "allow_range D b 0x4010000000 0x10000000 d = Done (Inr (), b1)"
    "allow_range D b1 0x8000000000 0x8000000000 d = Done (Inr (), b2)"
    "allow_range D b2 start sz a = Done (Inr (), b3)"
    "builder_at maps b3 (n + 3) R
       (\<lambda>x. if unat start \<le> unat x \<and> unat x < unat start + unat sz then Some a
            else if 0x8000000000 \<le> unat x \<and> unat x < 0x10000000000 then Some d
            else if 0x4010000000 \<le> unat x \<and> unat x < 0x4020000000 then Some d else M x)"
proof -
  note step = builder_at_allow [OF ok total]
  obtain b1 where c1: "allow_range D b 0x4010000000 0x10000000 d = Done (Inr (), b1)"
    and b1: "builder_at maps b1 (n + 1) R
      (\<lambda>x. if 0x4010000000 \<le> unat x \<and> unat x < 0x4020000000 then Some d else M x)"
    using step [OF at(1), of "0x4010000000" "0x10000000" d] at(2,3) high by (auto simp: handled_by_filtered)
  obtain b2 where c2: "allow_range D b1 0x8000000000 0x8000000000 d = Done (Inr (), b2)"
    and b2: "builder_at maps b2 (n + 1 + 1) R
      (\<lambda>x. if 0x8000000000 \<le> unat x \<and> unat x < 0x10000000000 then Some d
           else if 0x4010000000 \<le> unat x \<and> unat x < 0x4020000000 then Some d else M x)"
    using step [OF b1, of "0x8000000000" "0x8000000000" d] at(2,3) high by (auto simp: handled_by_filtered)
  obtain b3 where "allow_range D b2 start sz a = Done (Inr (), b3)"
    and b3: "builder_at maps b3 (n + 1 + 1 + 1) R
      (\<lambda>x. if unat start \<le> unat x \<and> unat x < unat start + unat sz then Some a
           else if 0x8000000000 \<le> unat x \<and> unat x < 0x10000000000 then Some d
           else if 0x4010000000 \<le> unat x \<and> unat x < 0x4020000000 then Some d else M x)"
    using step [OF b2, of start sz a] at(2,3) heap heap_free by (auto simp: handled_by_filtered)
  then show thesis using that c1 c2 by (simp add: numeral_3_eq_3)
qed

lemma shared_heap_bounds:
  assumes layout: "qemu_layout_ok image_address heap"
  obtains up where "add_int pr heap default_SHARED_HEAP_SIZE = Done (heap + 0x10000)"
    and "align_up_to_page pr (heap + 0x10000) = Done up"
    and "unat up = 4096 * ((unat heap + 0x10000 + 4095) div 4096)"
    and "align_down_to_page heap \<le> up"
    and "unat (up - align_down_to_page heap) = unat up - unat (align_down_to_page heap)"
    and "unat (align_down_to_page heap) + unat (up - align_down_to_page heap) = unat up"
proof -
  let ?h = "unat heap" and ?start = "align_down_to_page heap"
  have bound: "?h + 0x10000 + 4095 < 2 ^ 64" using layout by (auto simp: qemu_layout_ok_def)
  then have fits: "unat heap + unat (0x10000 :: usize) < 2 ^ LENGTH(64)" by simp
  have heap_end: "unat (heap + 0x10000) = ?h + 0x10000" using unat_plus_no_overflow [OF fits] by simp
  obtain up where up: "align_up_to_page pr (heap + 0x10000) = Done up"
    "unat up = 4096 * ((?h + 0x10000 + 4095) div 4096)"
    using align_up_to_page_eq [of "heap + 0x10000" pr] bound by (auto simp: heap_end)
  have "unat ?start < unat up"
    using layout heap_hull(2) [of "unat image_address" ?h]
    by (simp add: qemu_layout_ok_def up(2) align_down_to_page_eq)
  then have le: "?start \<le> up" by (simp add: word_le_nat_alt)
  then have sz: "unat (up - ?start) = unat up - unat ?start" by (simp add: unat_sub)
  have "unat ?start + unat (up - ?start) = unat up" using le by (simp add: sz word_le_nat_alt)
  moreover have "add_int pr heap default_SHARED_HEAP_SIZE = Done (heap + 0x10000)"
    using add_int_no_overflow [OF fits] by (simp add: default_SHARED_HEAP_SIZE_def PAGE_SIZE_def)
  ultimately show thesis using that up le sz by blast
qed

text \<open>The nested cases of the last page table are the policy.\<close>

lemma qemu_guest_map_eq:
  assumes "unat start = 4096 * (unat heap div 4096)"
    and "unat up = 4096 * ((unat heap + 0x10000 + 4095) div 4096)"
    and "0x40000000 < unat image_address" "unat image_address + 0x400000 < 0x100000000"
    and "unat image_address \<le> unat start" "unat up \<le> unat image_address + 0x400000"
  shows "(\<lambda>x. if unat start \<le> unat x \<and> unat x < unat up then Some (STAGE2_MEMORY_ATTRIBUTES A)
            else if 0x8000000000 \<le> unat x \<and> unat x < 0x10000000000 then Some (STAGE2_DEVICE_ATTRIBUTES A)
            else if 0x4010000000 \<le> unat x \<and> unat x < 0x4020000000 then Some (STAGE2_DEVICE_ATTRIBUTES A)
            else if unat image_address + 0x400000 \<le> unat x \<and> unat x < 0x100000000
              then Some (STAGE2_MEMORY_ATTRIBUTES A)
            else if 0x40000000 \<le> unat x \<and> unat x < unat image_address then Some (STAGE2_MEMORY_ATTRIBUTES A)
            else if 0x0f001000 \<le> unat x \<and> unat x < 0x40000000 then Some (STAGE2_DEVICE_ATTRIBUTES A)
            else if unat x < 0x0f000000 then Some (STAGE2_DEVICE_ATTRIBUTES A) else None) =
         qemu_guest_map A image_address heap" (is "?M = _")
proof (rule ext)
  fix ipa
  show "?M ipa = qemu_guest_map A image_address heap ipa"
    unfolding qemu_guest_map_def Let_def assms(1,2) [symmetric] using assms(3-6) by auto
qed

lemma qemu_configures:
  fixes D :: "(u64, 'idmap, 'me, u64) stage2_deps"
  assumes ok: "stage2_deps_ok D maps" and total: "map_range_succeeds D maps"
    and layout: "qemu_layout_ok image_address heap"
  shows "\<exists>b n. qemu_configure_memory_access D A pr image_address heap (builder_new D) = Done (Inr (), b) \<and>
     builder_at maps b n \<lparr>reg_regions = [filtered_mmio_region]\<rparr> (qemu_guest_map A image_address heap)"
proof -
  let ?dev = "STAGE2_DEVICE_ATTRIBUTES A" and ?mem = "STAGE2_MEMORY_ATTRIBUTES A"
  let ?i = "unat image_address" and ?R = "\<lparr>reg_regions = [filtered_mmio_region]\<rparr>"
  let ?start = "align_down_to_page heap"
  have i: "?i mod 4096 = 0" "0x40000000 < ?i" "?i + 0x400000 < 0x100000000"
    and h: "?i \<le> unat heap" "unat heap + 0x10000 \<le> ?i + 0x400000"
    using layout by (simp_all add: qemu_layout_ok_def DRAM_START_def)
  note hull = heap_hull [OF i(1) h] and start = align_down_to_page_eq [of heap]
  obtain up where up: "add_int pr heap default_SHARED_HEAP_SIZE = Done (heap + 0x10000)"
    "align_up_to_page pr (heap + 0x10000) = Done up"
    "unat up = 4096 * ((unat heap + 0x10000 + 4095) div 4096)" "?start \<le> up"
    and sz: "unat (up - ?start) = unat up - unat ?start" and sum: "unat ?start + unat (up - ?start) = unat up"
    by (rule shared_heap_bounds [OF layout])
  obtain b1 b2 b3 where c: "allow_range D (builder_new D) 0 0x0f000000 ?dev = Done (Inr (), b1)"
    "handle_range D b1 0x0f000000 0x1000 (handler_read_write read_filtered_mmio write_filtered_mmio) = Done (Inr (), b2)"
    "allow_range D b2 0x0f001000 0x30fff000 ?dev = Done (Inr (), b3)"
    and b3: "builder_at maps b3 (Suc 1) ?R
       (\<lambda>x. if 0x0f001000 \<le> unat x \<and> unat x < 0x40000000 then Some ?dev
            else if unat x < 0x0f000000 then Some ?dev else None)"
    by (rule qemu_configures_below_image [OF ok total])
  obtain b4 b5 where c': "allow_range D b3 0x40000000 (image_address - 0x40000000) ?mem = Done (Inr (), b4)"
    "allow_range D b4 (image_address + 0x400000) (0x100000000 - (image_address + 0x400000)) ?mem = Done (Inr (), b5)"
    and b5: "builder_at maps b5 (Suc 1 + 2) ?R
       (\<lambda>x. if ?i + 0x400000 \<le> unat x \<and> unat x < 0x100000000 then Some ?mem
            else if 0x40000000 \<le> unat x \<and> unat x < ?i then Some ?mem
            else if 0x0f001000 \<le> unat x \<and> unat x < 0x40000000 then Some ?dev
            else if unat x < 0x0f000000 then Some ?dev else None)"
    by (rule qemu_configures_dram [OF ok total b3 _ refl i, of ?mem]) auto
  obtain b6 b7 b8 where c'': "allow_range D b5 0x4010000000 0x10000000 ?dev = Done (Inr (), b6)"
    "allow_range D b6 0x8000000000 0x8000000000 ?dev = Done (Inr (), b7)"
    "allow_range D b7 ?start (up - ?start) ?mem = Done (Inr (), b8)"
    and b8: "builder_at maps b8 (Suc 1 + 2 + 3) ?R
       (\<lambda>x. if unat ?start \<le> unat x \<and> unat x < unat up then Some ?mem
            else if 0x8000000000 \<le> unat x \<and> unat x < 0x10000000000 then Some ?dev
            else if 0x4010000000 \<le> unat x \<and> unat x < 0x4020000000 then Some ?dev
            else if ?i + 0x400000 \<le> unat x \<and> unat x < 0x100000000 then Some ?mem
            else if 0x40000000 \<le> unat x \<and> unat x < ?i then Some ?mem
            else if 0x0f001000 \<le> unat x \<and> unat x < 0x40000000 then Some ?dev
            else if unat x < 0x0f000000 then Some ?dev else None)"
  proof (rule qemu_configures_high_and_heap [OF ok total b5 _ refl, of ?start "up - ?start" ?dev ?mem, unfolded sum])
  qed (use i hull in \<open>auto simp: start up(3) sz mod_eq_0_iff_dvd\<close>)
  have sizes: "image_address + 0x400000 \<le> 0x100000000" "0x40000000 \<le> image_address"
    using i by (simp_all add: word_le_nat_alt unat_word_ariths)
  have "qemu_configure_memory_access D A pr image_address heap (builder_new D) = Done (Inr (), b8)"
    using c c' c'' up sizes
    by (simp add: qemu_configure_memory_access_def FILTERED_MMIO_BASE_def FILTERED_MMIO_SIZE_def PAGE_SIZE_def
        to_ipa_def DRAM_START_def RITM_START_def RITM_END_def Let_def)
  then show ?thesis
    using b8 qemu_guest_map_eq [OF start up(3) i(2,3)] hull by (auto simp: start up(3))
qed

text \<open>
  A configuration that succeeds, whatever the page table does in general, has built the policy:
  its calls succeeded one after the other.
\<close>

lemma qemu_calls_policy:
  fixes D :: "(u64, 'idmap, 'me, u64) stage2_deps"
  assumes ok: "stage2_deps_ok D maps"
    and calls: "allow_range D (builder_new D) 0 0x0f000000 d = Done (Inr (), b1)"
      "handle_range D b1 0x0f000000 0x1000 (handler_read_write read_filtered_mmio write_filtered_mmio) = Done (Inr (), b2)"
      "allow_range D b2 0x0f001000 0x30fff000 d = Done (Inr (), b3)"
      "allow_range D b3 0x40000000 low a = Done (Inr (), b4)"
      "allow_range D b4 stop high a = Done (Inr (), b5)"
      "allow_range D b5 0x4010000000 0x10000000 d = Done (Inr (), b6)"
      "allow_range D b6 0x8000000000 0x8000000000 d = Done (Inr (), b7)"
      "allow_range D b7 start sz a = Done (Inr (), b8)"
  shows "\<exists>n. builder_at maps b8 n \<lparr>reg_regions = [filtered_mmio_region]\<rparr>
     (\<lambda>x. if unat start \<le> unat x \<and> unat x < unat start + unat sz then Some a
          else if 0x8000000000 \<le> unat x \<and> unat x < 0x10000000000 then Some d
          else if 0x4010000000 \<le> unat x \<and> unat x < 0x4020000000 then Some d
          else if unat stop \<le> unat x \<and> unat x < unat stop + unat high then Some a
          else if 0x40000000 \<le> unat x \<and> unat x < 0x40000000 + unat low then Some a
          else if 0x0f001000 \<le> unat x \<and> unat x < 0x40000000 then Some d
          else if unat x < 0x0f000000 then Some d else None)"
proof -
  note step = allow_range_at [OF ok]
  have "builder_at maps (builder_new D) 0 registry_new Map.empty"
    using builder_new_inv [OF ok] stage2_deps_okD(1) [OF ok] by (simp add: builder_at_def builder_new_def)
  note b1 = step [OF this calls(1)]
  note b3 = step [OF handle_filtered_at [OF ok b1 calls(2)] calls(3)]
  note b5 = step [OF step [OF b3 calls(4)] calls(5)]
  note b8 = step [OF step [OF step [OF b5 calls(6)] calls(7)] calls(8)]
  show ?thesis using b8 by (intro exI [of _ "Suc (Suc (Suc (Suc (Suc (Suc (Suc 0))))))"]) (simp cong: if_cong)
qed

lemma qemu_configured:
  fixes D :: "(u64, 'idmap, 'me, u64) stage2_deps"
  assumes ok: "stage2_deps_ok D maps" and layout: "qemu_layout_ok image_address heap"
    and conf: "qemu_configure_memory_access D A pr image_address heap (builder_new D) = Done (Inr (), b)"
  shows "\<exists>n. builder_at maps b n \<lparr>reg_regions = [filtered_mmio_region]\<rparr> (qemu_guest_map A image_address heap)"
proof -
  let ?i = "unat image_address" and ?start = "align_down_to_page heap"
  have i: "?i mod 4096 = 0" "0x40000000 < ?i" "?i + 0x400000 < 0x100000000"
    and h: "?i \<le> unat heap" "unat heap + 0x10000 \<le> ?i + 0x400000"
    using layout by (simp_all add: qemu_layout_ok_def DRAM_START_def)
  note hull = heap_hull [OF i(1) h] and start = align_down_to_page_eq [of heap]
  obtain up where up: "add_int pr heap default_SHARED_HEAP_SIZE = Done (heap + 0x10000)"
    "align_up_to_page pr (heap + 0x10000) = Done up"
    "unat up = 4096 * ((unat heap + 0x10000 + 4095) div 4096)" "?start \<le> up"
    and sum: "unat ?start + unat (up - ?start) = unat up"
    by (rule shared_heap_bounds [OF layout])
  have sizes: "image_address + 0x400000 \<le> 0x100000000" "0x40000000 \<le> image_address"
    using i by (simp_all add: word_le_nat_alt unat_word_ariths)
  have ends: "unat (image_address + 0x400000) = ?i + 0x400000"
    "?i + 0x400000 + unat (0xffc00000 - image_address) = 0x100000000"
    "0x40000000 + unat (image_address - 0x40000000) = ?i"
    using i by (simp_all add: unat_word_ariths unat_sub word_le_nat_alt)
  obtain b1 b2 b3 b4 b5 b6 b7 where
      "allow_range D (builder_new D) 0 0x0f000000 (STAGE2_DEVICE_ATTRIBUTES A) = Done (Inr (), b1)"
      "handle_range D b1 0x0f000000 0x1000 (handler_read_write read_filtered_mmio write_filtered_mmio) = Done (Inr (), b2)"
      "allow_range D b2 0x0f001000 0x30fff000 (STAGE2_DEVICE_ATTRIBUTES A) = Done (Inr (), b3)"
      "allow_range D b3 0x40000000 (image_address - 0x40000000) (STAGE2_MEMORY_ATTRIBUTES A) = Done (Inr (), b4)"
      "allow_range D b4 (image_address + 0x400000) (0xffc00000 - image_address) (STAGE2_MEMORY_ATTRIBUTES A) = Done (Inr (), b5)"
      "allow_range D b5 0x4010000000 0x10000000 (STAGE2_DEVICE_ATTRIBUTES A) = Done (Inr (), b6)"
      "allow_range D b6 0x8000000000 0x8000000000 (STAGE2_DEVICE_ATTRIBUTES A) = Done (Inr (), b7)"
      "allow_range D b7 ?start (up - ?start) (STAGE2_MEMORY_ATTRIBUTES A) = Done (Inr (), b)"
    using conf up sizes
    by (simp add: qemu_configure_memory_access_def FILTERED_MMIO_BASE_def FILTERED_MMIO_SIZE_def PAGE_SIZE_def
        to_ipa_def DRAM_START_def RITM_START_def RITM_END_def Let_def and_try_ok) blast
  from qemu_calls_policy [OF ok this, unfolded sum ends] show ?thesis
    using qemu_guest_map_eq [OF start up(3) i(2,3)] hull by (auto simp: start up(3))
qed

lemma filtered_registry_inv: "registry_inv \<lparr>reg_regions = [filtered_mmio_region]\<rparr>"
  by (simp add: registry_inv_def range_wf_def filtered_mmio_region_def page_aligned_def MAX_MEMORY_ACCESS_HANDLERS_def)

lemma filtered_registry_find:
  "registry_find pr \<lparr>reg_regions = [filtered_mmio_region]\<rparr> ipa =
     Done (if 0x0f000000 \<le> unat ipa \<and> unat ipa < 0x0f001000
           then Some \<lparr>mhm_region = filtered_mmio_region, mhm_offset = ipa - 0x0f000000\<rparr> else None)"
proof -
  have "registry_find pr \<lparr>reg_regions = [filtered_mmio_region]\<rparr> ipa =
      Done (map_option (\<lambda>R. \<lparr>mhm_region = R, mhm_offset = ipa - mar_base_ipa R\<rparr>)
        (region_covering \<lparr>reg_regions = [filtered_mmio_region]\<rparr> ipa))"
    by (rule registry_find_eq [OF filtered_registry_inv])
  then show ?thesis
    by (simp add: region_covering_def filtered_mmio_region_def word_le_nat_alt word_less_nat_alt)
qed

section \<open>Properties\<close>

text \<open>
  C17: The policy the QEMU platform builds. For every image address and shared heap laid out as
  the linker does, and a page table that accepts fresh page-aligned ranges below 48 bits
  (\<open>map_range_succeeds\<close>), configuration succeeds without a panic in either build profile, the
  page table maps exactly the documented ranges with the documented attributes, and the handler
  registry answers exactly for the filtered test page, with the offset into it.
\<close>

theorem qemu_memory_policy:
  assumes "stage2_deps_ok D maps" and "map_range_succeeds D maps" and "qemu_layout_ok image_address heap"
  shows "\<exists>b. qemu_configure_memory_access D A pr image_address heap (builder_new D) = Done (Inr (), b) \<and>
     maps (sc_idmap (builder_build b)) = qemu_guest_map A image_address heap \<and>
     (\<forall>ipa. registry_find pr' (sc_memory_access_handlers (builder_build b)) ipa =
        Done (if 0x0f000000 \<le> unat ipa \<and> unat ipa < 0x0f001000
              then Some \<lparr>mhm_region = filtered_mmio_region, mhm_offset = ipa - 0x0f000000\<rparr> else None))"
proof -
  obtain b n where b: "qemu_configure_memory_access D A pr image_address heap (builder_new D) = Done (Inr (), b)"
    and at: "builder_at maps b n \<lparr>reg_regions = [filtered_mmio_region]\<rparr> (qemu_guest_map A image_address heap)"
    using qemu_configures [OF assms] by blast
  show ?thesis
    using b at by (auto simp: builder_at_def builder_build_def filtered_registry_find)
qed

text \<open>The shipped image address with a heap that is not page-aligned, for the examples.\<close>

definition example_attrs :: stage2_attributes where
  "example_attrs =
     \<lparr>S2_VALID = 1, S2_MEMATTR_DEVICE_nGnRnE = 0, S2_MEMATTR_NORMAL_OUTER_WB = 0x30,
      S2_MEMATTR_NORMAL_INNER_WB = 0xc, S2_S2AP_ACCESS_RW = 0xc0, S2_ACCESS_FLAG = 0x400, S2_SH_NONE = 0,
      S2_SH_INNER = 0x300\<rparr>"

abbreviation example_deps :: "(u64, u64 range_table, unit, u64) stage2_deps" where
  "example_deps \<equiv> range_table_deps"

lemma example_layout: "qemu_layout_ok 0x47000000 0x47100800"
  by (simp add: qemu_layout_ok_def DRAM_START_def)

lemma range_table_succeeds: "map_range_succeeds range_table_deps range_table_maps"
  by (simp add: map_range_succeeds_def range_table_deps_def)

theorem qemu_memory_policy_witness:
  "\<exists>b. qemu_configure_memory_access example_deps example_attrs Dev 0x47000000 0x47100800 (builder_new example_deps) = Done (Inr (), b) \<and>
      range_table_maps (sb_idmap b) 0x47000000 = None \<and>
      range_table_maps (sb_idmap b) 0x47100000 = Some 0x7fd"
proof -
  obtain b where "qemu_configure_memory_access example_deps example_attrs Dev 0x47000000 0x47100800 (builder_new example_deps) =
      Done (Inr (), b)"
    and "range_table_maps (sc_idmap (builder_build b)) = qemu_guest_map example_attrs 0x47000000 0x47100800"
    using qemu_memory_policy [OF range_table_deps_ok range_table_succeeds example_layout] by blast
  moreover have "qemu_guest_map example_attrs 0x47000000 0x47100800 0x47000000 = None"
    "qemu_guest_map example_attrs 0x47000000 0x47100800 0x47100000 = Some 0x7fd"
    by (simp_all add: qemu_guest_map_def example_attrs_def STAGE2_MEMORY_ATTRIBUTES_def)
  ultimately show ?thesis by (simp add: builder_build_def)
qed

text \<open>
  C4: The guest cannot reach the hypervisor: whenever the QEMU platform's configuration succeeds,
  no address of RITM's image, outside the pages that the shared heap touches, is mapped or
  emulated in it. The image is at any page-aligned address above the start of DRAM and below
  4 GiB, and the shared heap inside it (\<open>qemu_layout_ok\<close>).
\<close>

theorem qemu_image_isolated:
  assumes "stage2_deps_ok D maps" and "qemu_layout_ok image_address heap"
    and "qemu_configure_memory_access D A pr image_address heap (builder_new D) = Done (Inr (), b)"
    and "unat image_address \<le> unat ipa" and "unat ipa < unat image_address + 0x400000"
    and "unat ipa div 4096 < unat heap div 4096 \<or> (unat heap + 0x10000 + 4095) div 4096 \<le> unat ipa div 4096"
  shows "maps (sc_idmap (builder_build b)) ipa = None \<and>
     registry_find pr' (sc_memory_access_handlers (builder_build b)) ipa = Done None"
proof -
  obtain n where at: "builder_at maps b n \<lparr>reg_regions = [filtered_mmio_region]\<rparr>
      (qemu_guest_map A image_address heap)"
    using qemu_configured [OF assms(1-3)] by blast
  have layout: "0x40000000 < unat image_address" "unat image_address + 0x400000 < 0x100000000"
    using assms(2) by (simp_all add: qemu_layout_ok_def DRAM_START_def)
  have "\<not> (4096 * (unat heap div 4096) \<le> unat ipa \<and>
           unat ipa < 4096 * ((unat heap + 0x10000 + 4095) div 4096))"
    using assms(6) by (auto simp: less_mult_imp_div_less mult.commute not_le div_less_iff_less_mult
        less_eq_div_iff_mult_less_eq)
  then have "qemu_guest_map A image_address heap ipa = None"
    using assms(4,5) layout by (auto simp: qemu_guest_map_def Let_def)
  then show ?thesis
    using at assms(4) layout by (simp add: builder_at_def builder_build_def filtered_registry_find)
qed

theorem qemu_image_isolated_witness:
  "\<exists>b. qemu_configure_memory_access example_deps example_attrs Dev 0x47000000 0x47100800 (builder_new example_deps) = Done (Inr (), b) \<and>
      range_table_maps (sc_idmap (builder_build b)) 0x47200000 = None"
proof -
  obtain b where b: "qemu_configure_memory_access example_deps example_attrs Dev 0x47000000 0x47100800 (builder_new example_deps) =
      Done (Inr (), b)"
    using qemu_configures [OF range_table_deps_ok range_table_succeeds example_layout] by blast
  then have "range_table_maps (sc_idmap (builder_build b)) 0x47200000 = None"
    using qemu_image_isolated [OF range_table_deps_ok example_layout b, of "0x47200000" Dev]
    by simp
  then show ?thesis using b by blast
qed

text \<open>
  C31: Sharing works on whole pages. If the linker places the shared heap off a page boundary, then
  whenever the QEMU platform's configuration succeeds, every byte of the image between the start
  of the heap's first page and the heap, the byte right before the heap in particular, is mapped
  for the guest with the attributes of normal memory although it is not part of the heap.
\<close>

theorem unaligned_shared_heap_exposes_image:
  assumes "stage2_deps_ok D maps" and "qemu_layout_ok image_address heap"
    and "qemu_configure_memory_access D A pr image_address heap (builder_new D) = Done (Inr (), b)"
    and "unat heap mod 4096 \<noteq> 0"
  shows "unat image_address \<le> unat (heap - 1) \<and> unat (heap - 1) + 1 = unat heap \<and>
     maps (sc_idmap (builder_build b)) (heap - 1) = Some (STAGE2_MEMORY_ATTRIBUTES A) \<and>
     (\<forall>ipa. unat ipa div 4096 = unat heap div 4096 \<longrightarrow>
        maps (sc_idmap (builder_build b)) ipa = Some (STAGE2_MEMORY_ATTRIBUTES A))"
proof -
  have map: "maps (sc_idmap (builder_build b)) = qemu_guest_map A image_address heap"
    using qemu_configured [OF assms(1-3)] by (auto simp: builder_at_def builder_build_def)
  have layout: "unat image_address mod 4096 = 0" "0x40000000 < unat image_address"
    "unat image_address + 0x400000 < 0x100000000" "unat image_address \<le> unat heap"
    "unat heap + 0x10000 \<le> unat image_address + 0x400000"
    using assms(2) by (simp_all add: qemu_layout_ok_def DRAM_START_def)
  note hull = heap_hull [OF layout(1,4,5)]
  have page: "qemu_guest_map A image_address heap ipa = Some (STAGE2_MEMORY_ATTRIBUTES A)"
    if same: "unat ipa div 4096 = unat heap div 4096" for ipa
  proof -
    have first: "4096 * (unat heap div 4096) \<le> unat ipa" using same by (metis times_div_less_eq_dividend)
    have "unat ipa < 4096 * (unat heap div 4096) + 4096"
      using same by (metis div_mult_mod_eq mod_less_divisor mult.commute nat_add_left_cancel_less zero_less_numeral)
    also have "\<dots> \<le> 4096 * ((unat heap + 0x10000 + 4095) div 4096)"
      using div_le_mono [of "unat heap + 1 * 4096" "unat heap + 0x10000 + 4095" 4096]
      unfolding div_mult_self1 [of 4096 "unat heap" 1, simplified] by simp
    finally show ?thesis
      using first hull layout by (auto simp: qemu_guest_map_def Let_def)
  qed
  have "heap \<noteq> 0" using assms(4) by auto
  then have before: "unat (heap - 1) = unat heap - 1" "0 < unat heap" by (simp_all add: unat_minus_one unat_gt_0)
  moreover have "unat image_address \<noteq> unat heap" using layout(1) assms(4) by auto
  moreover have "(unat heap - 1) div 4096 = unat heap div 4096"
    using assms(4) by (metis One_nat_def Suc_pred before(2) div_Suc)
  ultimately show ?thesis
    unfolding map using page layout(4) by simp
qed

theorem unaligned_shared_heap_exposes_image_witness:
  "\<exists>b. qemu_configure_memory_access example_deps example_attrs Dev 0x47000000 0x47100800 (builder_new example_deps) = Done (Inr (), b) \<and>
     range_table_maps (sc_idmap (builder_build b)) 0x471007ff = Some (STAGE2_MEMORY_ATTRIBUTES example_attrs)"
proof -
  obtain b where b: "qemu_configure_memory_access example_deps example_attrs Dev 0x47000000 0x47100800 (builder_new example_deps) =
      Done (Inr (), b)"
    using qemu_configures [OF range_table_deps_ok range_table_succeeds example_layout] by blast
  show ?thesis
    using unaligned_shared_heap_exposes_image [OF range_table_deps_ok example_layout b] b by simp
qed

end
