(* ===== verification/Guest.thy ===== *)
theory Guest
  imports Trap Qemu_Policy
begin

text \<open>
  What the guest sees of the hypervisor: the state in which it is entered, the effect of its
  memory accesses and calls, and when a trap stops the machine. The examples link the
  hypervisor with the QEMU platform.
\<close>

section \<open>The hypervisor on QEMU\<close>

text \<open>The platform chosen at build time is QEMU; the other parameters stay as they are.\<close>

definition qemu_hypervisor ::
  "(u64, 'idmap, 'me, u64, 'e, 'w) hyp_deps \<Rightarrow> stage2_attributes \<Rightarrow> profile \<Rightarrow> usize \<Rightarrow> usize \<Rightarrow>
   (u64, 'idmap, 'me, u64, 'e, 'w) hyp_deps" where
  "qemu_hypervisor H A pr image_address heap =
     H\<lparr>hd_configure_memory_access := qemu_configure_memory_access (hd_stage2 H) A pr image_address heap,
       hd_handle_hvc := qemu_handle_hvc\<rparr>"

lemma qemu_hypervisor_sel [simp]:
  "hd_sysregs (qemu_hypervisor H A pr i p) = hd_sysregs H" "hd_stage2 (qemu_hypervisor H A pr i p) = hd_stage2 H"
  "hd_smccc_error (qemu_hypervisor H A pr i p) = hd_smccc_error H"
  by (simp_all add: qemu_hypervisor_def)

lemma qemu_hypervisor_platform: "hyp_platform_ok (qemu_hypervisor H A pr image_address heap)"
  using qemu.platform_contract_axioms by (simp add: qemu_hypervisor_def)

text \<open>Activating the page table does not change what it maps.\<close>

definition activate_keeps ::
  "('s, 'idmap, 'me, 'attr, 'e, 'w) hyp_deps \<Rightarrow> ('idmap \<Rightarrow> u64 \<Rightarrow> 'attr option) \<Rightarrow> bool" where
  "activate_keeps H maps \<longleftrightarrow> (\<forall>m c. maps (fst (hd_idmap_activate H m c)) = maps m)"

text \<open>Firmware for the examples: it decodes four PSCI calls and agrees to everything.\<close>

definition example_hyp_deps :: "(u64, u64 range_table, unit, u64, i32, unit) hyp_deps" where
  "example_hyp_deps =
     \<lparr>hd_sysregs = armv8_sysregs, hd_stage2 = example_deps,
      hd_idmap_activate = (\<lambda>m c. (m, c\<lparr>cr_vttbr_el2 := 0x47050000\<rparr>)),
      hd_configure_memory_access = qemu_configure_memory_access example_deps example_attrs Dev 0x47000000 0x47100800,
      hd_handle_hvc = qemu_handle_hvc,
      hd_smccc_error = code_error,
      hd_function_try_from = (\<lambda>args.
        if args ! 0 = 0x84000000 then Inr Version
        else if args ! 0 = 0xC4000003
        then Inr (CpuOn (args ! 1) \<lparr>entry_point_address = args ! 2, context_id = args ! 3\<rparr>)
        else if args ! 0 = 0xC4000001
        then Inr (CpuSuspend (ucast (args ! 1)) \<lparr>entry_point_address = args ! 2, context_id = args ! 3\<rparr>)
        else Inl (-1)),
      hd_ReturnCode_Success = 0,
      hd_smc64 = (\<lambda>f args w. (Some (0x10001 # replicate 17 0), w)),
      hd_stack_address = (\<lambda>slot. 0x47301000 + 0x5000 * of_nat slot),
      hd_start_core = (\<lambda>mpidr stack entry w. (Inr (), w)),
      hd_suspend_core = (\<lambda>state stack_ptr w. (if bit state 16 then None else Some (Inr ()), w))\<rparr>"

lemma example_hyp_deps_ok:
  "arm_sysregs_ok (hd_sysregs example_hyp_deps)" "stage2_deps_ok (hd_stage2 example_hyp_deps) range_table_maps"
  "smccc_error_ok (hd_smccc_error example_hyp_deps)" "hyp_platform_ok example_hyp_deps"
  "activate_ok example_hyp_deps (\<lambda>_. 0x47050000)" "hd_smccc_error example_hyp_deps = code_error"
  "activate_keeps example_hyp_deps maps"
  using qemu.platform_contract_axioms
  by (auto simp: example_hyp_deps_def armv8_sysregs_ok range_table_deps_ok code_error_ok activate_ok_def
      activate_keeps_def intro: exI [of _ "[]"])

definition example_core :: core where
  "example_core =
     \<lparr>cr_cpu = \<lparr>cpu_x = of_nat, cpu_v = (\<lambda>_. 1), cpu_sp = 0x47080000, cpu_pc = 0, cpu_mem = (\<lambda>_. 0),
                cpu_sctlr_el2 = 0, cpu_events = []\<rparr>,
      cr_mpidr_el1 = 0x80000000, cr_esr_el2 = 0, cr_far_el2 = 0, cr_hpfar_el2 = 0, cr_hcr_el2 = 0, cr_cntvoff_el2 = 7,
      cr_cnthctl_el2 = 0, cr_icc_sre_el2 = 0, cr_spsr_el2 = 0x3c9, cr_elr_el2 = 0, cr_vtcr_el2 = 0,
      cr_vttbr_el2 = 0, cr_ttbr0_el1 = 1, cr_tcr_el1 = 1, cr_vbar_el1 = 0x40081000, cr_mair_el1 = 1, cr_sp_el1 = 1,
      cr_sctlr_el1 = 1, cr_elr_el1 = 0, cr_spsr_el1 = 0, cr_far_el1 = 0, cr_esr_el1 = 0\<rparr>"

lemma example_configures:
  obtains config where "stage2_config example_hyp_deps h = Done (config, h\<lparr>hv_stage2_config := Some config\<rparr>)"
proof (cases "hv_stage2_config h")
  case None
  obtain b where "qemu_configure_memory_access example_deps example_attrs Dev 0x47000000 0x47100800 (builder_new example_deps) =
      Done (Inr (), b)"
    using qemu_configures [OF range_table_deps_ok range_table_succeeds example_layout] by blast
  then have "stage2_config example_hyp_deps h =
      Done (builder_build b, h\<lparr>hv_stage2_config := Some (builder_build b)\<rparr>)"
    by (intro stage2_config_first [OF None]) (simp add: example_hyp_deps_def)
  then show ?thesis by (rule that)
next
  case (Some c)
  then have "stage2_config example_hyp_deps h = Done (c, h)" by (rule stage2_config_configured)
  then show ?thesis using that stage2_config_state by metis
qed

section \<open>The exception class\<close>

lemma ucast_field_eq:
  assumes "unat (x :: u64) < 256"
  shows "(ucast x :: u8) = k \<longleftrightarrow> x = ucast k"
proof -
  have "unat (ucast x :: u8) = unat x" using assms by (simp add: unsigned_ucast_eq take_bit_nat_eq_self)
  moreover have "unat (ucast k :: u64) = unat k" using unsigned_less [of k, where 'a = nat] by (simp add: unsigned_ucast_eq take_bit_nat_eq_self)
  ultimately show ?thesis by (simp add: word_unat_eq_iff)
qed

lemma exception_class_eq:
  assumes "arm_sysregs_ok S"
  shows "exception_class_from (EsrEl2_ec S v) =
     (let ec = get_field 26 6 v
      in if ec = 0x16 then HvcTrappedInAArch64 else if ec = 0x17 then SmcTrappedInAArch64
         else if ec = 0x24 then DataAbortLowerEL else Unknown (ucast ec))"
proof -
  have "unat (get_field 26 6 v) < 256"
    using take_bit_nat_less_exp [of 6 "unat (drop_bit 26 v)"] by (simp add: get_field_def unsigned_take_bit_eq)
  note ec = ucast_field_eq [OF this]
  have "EsrEl2_ec S v = ucast (get_field 26 6 v)" using assms by (simp add: arm_sysregs_ok_def)
  then show ?thesis by (simp add: exception_class_from_def EC_DATA_ABORT_LOWER_EL_def ec)
qed

section \<open>Entering the guest\<close>

lemma spsr_entry_bits:
  "bit (set_field 0 4 v 5 OR 0x3c0) n \<longleftrightarrow>
     n < 64 \<and> (if n < 4 then n = 0 \<or> n = 2 else 6 \<le> n \<and> n \<le> 9 \<or> bit v n)"
proof -
  have "(5 :: u64) = 1 OR push_bit 2 1" by simp
  then have five: "bit (5 :: u64) n \<longleftrightarrow> n = 0 \<or> n = 2" for n by (simp only: bit_simps) auto
  have "(0x3c0 :: u64) = push_bit 6 (mask 4)" by (simp add: mask_eq_exp_minus_1)
  then have "bit (0x3c0 :: u64) n \<longleftrightarrow> 6 \<le> n \<and> n \<le> 9" by (simp only: bit_simps) auto
  then show ?thesis
    using bit_imp_le_length [of v n] five [of n] by (auto simp: set_field_def bit_simps)
qed

lemma guest_entry:
  assumes "arm_sysregs_ok (hd_sysregs H)" and "activate_ok H root" and "stage2_config H h = Done (config, h1)"
  shows "\<exists>h' evs. entry_point_el1 H a0 a1 a2 a3 e h = Done (ExceptionReturn, h') \<and>
    (let c = hv_core h; c' = hv_core h' in
      cr_elr_el2 c' = e \<and>
      (\<forall>n. bit (cr_spsr_el2 c') n \<longleftrightarrow>
         n < 64 \<and> (if n < 4 then n = 0 \<or> n = 2 else 6 \<le> n \<and> n \<le> 9 \<or> bit (cr_spsr_el2 c) n)) \<and>
      cr_hcr_el2 c' = push_bit 31 1 OR push_bit 19 1 OR push_bit 0 1 \<and>
      cr_vtcr_el2 c' = 0x23598 \<and> cr_vttbr_el2 c' = root (sc_idmap config) \<and>
      cpu_events (cr_cpu c') = cpu_events (cr_cpu c) @ evs @ [Msr_vtcr_el2 0x23598, Tlbi_vmalls12e1, Dsb_sy, Isb] \<and>
      cr_ttbr0_el1 c' = 0 \<and> cr_tcr_el1 c' = 0 \<and> cr_vbar_el1 c' = 0 \<and> cr_mair_el1 c' = 0 \<and> cr_sp_el1 c' = 0 \<and>
      cr_sctlr_el1 c' = 0x30D00800 \<and> cr_cntvoff_el2 c' = 0 \<and>
      cpu_x (cr_cpu c') 0 = a0 \<and> cpu_x (cr_cpu c') 1 = a1 \<and> cpu_x (cr_cpu c') 2 = a2 \<and> cpu_x (cr_cpu c') 3 = a3 \<and>
      (\<forall>r. 4 \<le> r \<and> r \<le> 30 \<longrightarrow> cpu_x (cr_cpu c') r = 0) \<and> (\<forall>r<32. cpu_v (cr_cpu c') r = 0)) \<and>
    map_option sc_memory_access_handlers (hv_stage2_config h') = Some (sc_memory_access_handlers config)"
proof -
  have core: "hv_core h1 = hv_core h" using stage2_config_state [OF assms(3)] by simp
  obtain evs h2 where h2: "setup_stage2 H h = Done h2"
    and c2: "hv_core h2 = (hv_core h)\<lparr>cr_cpu := (cr_cpu (hv_core h))\<lparr>cpu_events := cpu_events (cr_cpu (hv_core h)) @ evs @
          [Msr_vtcr_el2 0x23598, Tlbi_vmalls12e1, Dsb_sy, Isb]\<rparr>,
       cr_vtcr_el2 := 0x23598, cr_vttbr_el2 := root (sc_idmap config)\<rparr>"
    and conf: "map_option sc_memory_access_handlers (hv_stage2_config h2) = Some (sc_memory_access_handlers config)"
    using setup_stage2_eq [OF assms] core by auto
  let ?c = "setup_el1 (hd_sysregs H) e (hv_core h2)"
  obtain s' where run: "run (\<lambda>_ cpu. cpu) eret_to_el1 ((cr_cpu ?c)\<lparr>cpu_x := (cpu_x (cr_cpu ?c))
        (0 := a0, 1 := a1, 2 := a2, 3 := a3)\<rparr>) = (ExceptionReturn, s')"
    and x: "\<And>r. cpu_x s' r = (if 4 \<le> r \<and> r \<le> 30 then 0
              else ((cpu_x (cr_cpu ?c))(0 := a0, 1 := a1, 2 := a2, 3 := a3)) r)"
    and v: "\<And>r. cpu_v s' r = (if r < 32 then 0 else cpu_v (cr_cpu ?c) r)"
    and ev: "cpu_events s' = cpu_events (cr_cpu ?c)"
    by (rule run_eret_to_el1 [of "\<lambda>_ cpu. cpu" "(cr_cpu ?c)\<lparr>cpu_x := (cpu_x (cr_cpu ?c))
        (0 := a0, 1 := a1, 2 := a2, 3 := a3)\<rparr>"]) auto
  let ?h' = "h2\<lparr>hv_core := ?c\<lparr>cr_cpu := s'\<rparr>\<rparr>"
  have "entry_point_el1 H a0 a1 a2 a3 e h = Done (ExceptionReturn, ?h')"
    by (simp only: entry_point_el1_def h2 and_then.simps Let_def run case_prod_conv)
  then show ?thesis
    using conf
    by (intro exI [of _ ?h'] exI [of _ evs])
      (simp add: Let_def setup_el1_fixed [OF assms(1)] setup_el1_reset c2 ev x v spsr_entry_bits)
qed

text \<open>
  C7: Entering the guest. If stage 2 can be configured, \<open>entry_point_el1\<close> ends in an exception
  return to the given address at EL1h with all interrupts masked; stage 2 translation and SMC
  trapping are on and the page table is the configured one, with 40-bit addresses; the TLB is
  invalidated after the last stage-2 register write and before the return; EL1's own registers
  are reset; the guest gets the four arguments and otherwise only zeros in its registers.
\<close>

theorem guest_entry_state:
  assumes "arm_sysregs_ok (hd_sysregs H)" and "activate_ok H root" and "stage2_config H h = Done (config, h1)"
  shows "\<exists>h' evs. entry_point_el1 H a0 a1 a2 a3 e h = Done (ExceptionReturn, h') \<and>
    (let c = hv_core h; c' = hv_core h' in
      cr_elr_el2 c' = e \<and>
      (\<forall>n. bit (cr_spsr_el2 c') n \<longleftrightarrow>
         n < 64 \<and> (if n < 4 then n = 0 \<or> n = 2 else 6 \<le> n \<and> n \<le> 9 \<or> bit (cr_spsr_el2 c) n)) \<and>
      cr_hcr_el2 c' = push_bit 31 1 OR push_bit 19 1 OR push_bit 0 1 \<and>
      cr_vtcr_el2 c' = 0x23598 \<and> cr_vttbr_el2 c' = root (sc_idmap config) \<and>
      cpu_events (cr_cpu c') = cpu_events (cr_cpu c) @ evs @ [Msr_vtcr_el2 0x23598, Tlbi_vmalls12e1, Dsb_sy, Isb] \<and>
      cr_ttbr0_el1 c' = 0 \<and> cr_tcr_el1 c' = 0 \<and> cr_vbar_el1 c' = 0 \<and> cr_mair_el1 c' = 0 \<and> cr_sp_el1 c' = 0 \<and>
      cr_sctlr_el1 c' = 0x30D00800 \<and> cr_cntvoff_el2 c' = 0 \<and>
      cpu_x (cr_cpu c') 0 = a0 \<and> cpu_x (cr_cpu c') 1 = a1 \<and> cpu_x (cr_cpu c') 2 = a2 \<and> cpu_x (cr_cpu c') 3 = a3 \<and>
      (\<forall>r. 4 \<le> r \<and> r \<le> 30 \<longrightarrow> cpu_x (cr_cpu c') r = 0) \<and> (\<forall>r<32. cpu_v (cr_cpu c') r = 0)) \<and>
    map_option sc_memory_access_handlers (hv_stage2_config h') = Some (sc_memory_access_handlers config)"
  by (rule guest_entry [OF assms])

theorem guest_entry_state_witness:
  "\<exists>h'. entry_point_el1 example_hyp_deps 0x48000000 0 0 0 0x40200000 (hyp_init 8 example_core 0 ()) =
        Done (ExceptionReturn, h') \<and> cr_elr_el2 (hv_core h') = 0x40200000 \<and> cr_vttbr_el2 (hv_core h') = 0x47050000"
proof -
  obtain config h1 where "stage2_config example_hyp_deps (hyp_init 8 example_core 0 ()) = Done (config, h1)"
    by (rule example_configures)
  from guest_entry_state [OF example_hyp_deps_ok(1,5) this, of "0x48000000" 0 0 0 "0x40200000"] show ?thesis by (auto simp: Let_def)
qed

section \<open>Memory accesses\<close>

text \<open>A guest load or store that traps, for the examples: the registers hold a data abort syndrome.\<close>

definition example_abort :: "u64 \<Rightarrow> u64 \<Rightarrow> core" where
  "example_abort iss ipa =
     example_core\<lparr>cr_esr_el2 := 0x92000000 OR iss, cr_far_el2 := ipa, cr_hpfar_el2 := drop_bit 8 ipa AND NOT 0xf\<rparr>"

lemma data_abort_trap:
  assumes "arm_sysregs_ok (hd_sysregs H)" and "guest_running cap h rs"
    and "hv_stage2_config h = Some config"
    and "get_field 26 6 (cr_esr_el2 (hv_core h)) = 0x24"
    and "emulation_of (sc_memory_access_handlers config) (trapped_access (hd_sysregs H) (hv_core h) rs)
           (hv_platform h) = (e, s')"
    and "e = Faulted \<or> pr = Release \<or> unat (fst (exception_return rs)) + 4 < 2 ^ 64"
    and "e \<noteq> Faulted \<or> cr_vbar_el1 (hv_core h) \<noteq> 0 \<and> (pr = Release \<or> unat (cr_vbar_el1 (hv_core h)) + 0x200 < 2 ^ 64)"
  shows "\<exists>rs' c'. handle_sync_lower H pr rs h = Done (Some rs', h\<lparr>hv_platform := s', hv_core := c'\<rparr>) \<and>
    (case e of
       Loaded v \<Rightarrow> c' = hv_core h \<and>
         exception_return rs' = (fst (exception_return rs) + 4, snd (exception_return rs)) \<and>
         (\<forall>j. read_gpr rs' j =
            (if j \<noteq> 31 \<and> j = dma_register_index (the (trapped_access (hd_sysregs H) (hv_core h) rs))
             then Some v else read_gpr rs j))
     | Stored \<Rightarrow> c' = hv_core h \<and>
         exception_return rs' = (fst (exception_return rs) + 4, snd (exception_return rs)) \<and>
         read_gpr rs' = read_gpr rs
     | Faulted \<Rightarrow>
         c' = (hv_core h)\<lparr>cr_elr_el1 := fst (exception_return rs), cr_spsr_el1 := snd (exception_return rs),
                cr_far_el1 := cr_far_el2 (hv_core h), cr_esr_el1 := set_field 26 6 (cr_esr_el2 (hv_core h)) 0x25\<rparr> \<and>
         exception_return rs' = (cr_vbar_el1 (hv_core h) + 0x200, 0x3c5) \<and> read_gpr rs' = read_gpr rs)"
proof -
  let ?d = "trapped_access (hd_sysregs H) (hv_core h) rs"
  have inv: "registry_inv (sc_memory_access_handlers config)" and wf: "guest_regs_wf rs"
    using assms(2,3) by (simp_all add: guest_running_def hyp_inv_def)
  have ec: "exception_class_from (EsrEl2_ec (hd_sysregs H) (cr_esr_el2 (hv_core h))) = DataAbortLowerEL"
    using assms(1,4) by (simp add: exception_class_from_def arm_sysregs_ok_def EC_DATA_ABORT_LOWER_EL_def)
  have no: "e \<noteq> Faulted \<Longrightarrow> \<not> pc_overflows pr rs" "e = Faulted \<Longrightarrow> injection_panic pr (hv_core h) = None"
    using assms(6,7) by (auto simp: pc_overflows_def injection_panic_def)
  have core: "h\<lparr>hv_platform := s', hv_core := hv_core h\<rparr> = h\<lparr>hv_platform := s'\<rparr>" by (cases h) simp
  note trap = handle_sync_lower_data_abort [OF assms(1,3) inv ec, of pr rs, unfolded Let_def assms(5) case_prod_conv]
  show ?thesis
  proof (cases e)
    case (Loaded v)
    then obtain a where a: "?d = Some a" using assms(5) by (auto simp: emulation_of_def split: option.splits)
    let ?i = "dma_register_index a"
    have le: "?i \<le> 31" by (rule trapped_access_register [OF a])
    have "read_gpr (snd (write_gpr rs ?i v)) j = (if j \<noteq> 31 \<and> j = ?i then Some v else read_gpr rs j)" for j
      using guest.rd_wr [OF wf, of ?i v j] guest.wr_zero [of rs v] le word_le_30_31 [of ?i]
      by (cases "?i = 31") auto
    then show ?thesis
      using trap Loaded no core by (simp add: a guest.rest_wr exI [of _ "hv_core h"])
  next
    case Stored
    then show ?thesis using trap no core by (auto intro: exI [of _ "hv_core h"])
  next
    case Faulted
    then show ?thesis using trap no by (auto simp: faulted_core_def)
  qed
qed

text \<open>
  C2: Guest memory accesses that trap follow the reference \<open>emulation_of\<close>. A handled load puts
  the widened value in the target register and nothing else, a handled store changes no
  register; both continue with the next instruction, if computing its address does not overflow
  (which only the development profile checks). Any other access is injected into the guest, if
  its \<open>VBAR_EL1\<close> is set and adding \<open>0x200\<close> to it does not overflow (again only checked in the
  development profile): it continues at \<open>VBAR_EL1 + 0x200\<close>, the vector for EL1 with its own stack
  pointer, at EL1h with interrupts masked, with the registers it had; \<open>ELR_EL1\<close> and \<open>SPSR_EL1\<close> hold
  where it was, \<open>FAR_EL1\<close> and \<open>ESR_EL1\<close> the fault, reported as a data abort taken from EL1. The
  vector and the class are the same when the access came from EL0. The platform's device state
  changes as the handler says, nothing else of the hypervisor does.
\<close>

theorem data_abort_emulated_or_injected:
  assumes "arm_sysregs_ok (hd_sysregs H)" and "guest_running cap h rs"
    and "hv_stage2_config h = Some config"
    and "get_field 26 6 (cr_esr_el2 (hv_core h)) = 0x24"
    and "emulation_of (sc_memory_access_handlers config) (trapped_access (hd_sysregs H) (hv_core h) rs)
           (hv_platform h) = (e, s')"
    and "e = Faulted \<or> pr = Release \<or> unat (fst (exception_return rs)) + 4 < 2 ^ 64"
    and "e \<noteq> Faulted \<or> cr_vbar_el1 (hv_core h) \<noteq> 0 \<and> (pr = Release \<or> unat (cr_vbar_el1 (hv_core h)) + 0x200 < 2 ^ 64)"
  shows "\<exists>rs' c'. handle_sync_lower H pr rs h = Done (Some rs', h\<lparr>hv_platform := s', hv_core := c'\<rparr>) \<and>
    (case e of
       Loaded v \<Rightarrow> c' = hv_core h \<and>
         exception_return rs' = (fst (exception_return rs) + 4, snd (exception_return rs)) \<and>
         (\<forall>j. read_gpr rs' j =
            (if j \<noteq> 31 \<and> j = dma_register_index (the (trapped_access (hd_sysregs H) (hv_core h) rs))
             then Some v else read_gpr rs j))
     | Stored \<Rightarrow> c' = hv_core h \<and>
         exception_return rs' = (fst (exception_return rs) + 4, snd (exception_return rs)) \<and>
         read_gpr rs' = read_gpr rs
     | Faulted \<Rightarrow>
         c' = (hv_core h)\<lparr>cr_elr_el1 := fst (exception_return rs), cr_spsr_el1 := snd (exception_return rs),
                cr_far_el1 := cr_far_el2 (hv_core h), cr_esr_el1 := set_field 26 6 (cr_esr_el2 (hv_core h)) 0x25\<rparr> \<and>
         exception_return rs' = (cr_vbar_el1 (hv_core h) + 0x200, 0x3c5) \<and> read_gpr rs' = read_gpr rs)"
  by (rule data_abort_trap [OF assms])

text \<open>A running guest on QEMU, for the examples.\<close>

definition example_running :: "core \<Rightarrow> u64 \<Rightarrow> (u64, u64 range_table, unit) hyp" where
  "example_running c s =
     (hyp_init 8 c s ())\<lparr>hv_stage2_config := Some \<lparr>sc_idmap = [],
        sc_memory_access_handlers = \<lparr>reg_regions = [filtered_mmio_region]\<rparr>\<rparr>\<rparr>"

lemma example_guest_running: "guest_regs_wf rs \<Longrightarrow> guest_running 8 (example_running c s) rs"
  using filtered_registry_inv
  by (simp add: guest_running_def hyp_inv_def example_running_def hyp_init_def simple_map_new_inv)

lemma example_running_sel [simp]:
  "hv_core (example_running c s) = c" "hv_platform (example_running c s) = s"
  "hv_stage2_config (example_running c s) =
     Some \<lparr>sc_idmap = [], sc_memory_access_handlers = \<lparr>reg_regions = [filtered_mmio_region]\<rparr>\<rparr>"
  by (simp_all add: example_running_def hyp_init_def)

lemma example_load:
  "trapped_access armv8_sysregs (example_abort 0x1C58000 0x0f000010) numbered_regs =
     Some \<lparr>dma_ipa = 0x0f000010, dma_width = U64, dma_kind = Read, dma_register_index = 5,
       dma_sign_extend = False, dma_register_width_64 = True\<rparr>"
  by (simp add: trapped_access_def armv8_sysregs_def example_abort_def example_core_def decode_memory_access_eq
      get_field_def decode_fault_ipa_def iss_field_defs bit_simps decode_memory_access_kind_def decode_memory_access_is_write_def)

lemma example_abort_sel:
  "hd_sysregs example_hyp_deps = armv8_sysregs" "exception_return numbered_regs = (0x80000, 0x3c5)"
  "cr_vbar_el1 (example_abort iss ipa) = 0x40081000" "cr_esr_el2 (example_abort iss ipa) = 0x92000000 OR iss"
  by (simp_all add: example_hyp_deps_def numbered_regs_def exception_return_def example_abort_def example_core_def)

theorem data_abort_emulated_or_injected_witness:
  "\<exists>rs' h'. handle_sync_lower example_hyp_deps Dev numbered_regs (example_running (example_abort 0x1C58000 0x0f000010) 41) =
      Done (Some rs', h') \<and> read_gpr rs' 5 = Some 41 \<and> fst (exception_return rs') = 0x80004 \<and> hv_platform h' = 42"
proof -
  have "emulation_of \<lparr>reg_regions = [filtered_mmio_region]\<rparr>
      (trapped_access armv8_sysregs (example_abort 0x1C58000 0x0f000010) numbered_regs) 41 = (Loaded 41, 42)"
    unfolding example_load
    by (simp add: emulation_of_def region_covering_def filtered_mmio_region_def handler_read_write_def
        read_filtered_mmio_def register_load_def)
  then show ?thesis
    using data_abort_emulated_or_injected [OF example_hyp_deps_ok(1) example_guest_running [OF numbered_regs_wf],
        of "example_abort 0x1C58000 0x0f000010" 41 _ "Loaded 41" 42 Dev]
    by (auto simp: example_load example_abort_sel get_field_def)
qed

section \<open>Calls\<close>

lemma unat_lt_4: "unat j < Suc (Suc (Suc (Suc 0))) \<longleftrightarrow> j \<le> (3 :: usize)"
  by (auto simp: word_le_nat_alt)

lemma nth_response: "j \<le> 3 \<Longrightarrow> [0, 0, 0 :: u64] ! (unat (j :: usize) - Suc 0) = 0"
  by (simp add: word_le_nat_alt nth_Cons')

lemma read_psci_response:
  assumes "guest_regs_wf rs" and "smccc_error_ok E"
  shows "read_gpr (modify_register_state E (psci_response E out) rs) j =
    (case out of
       Inr v \<Rightarrow> if j = 0 then Some v else if j \<le> 3 then Some 0 else read_gpr rs j
     | Inl code \<Rightarrow> if j = 0 then Some (word_of_int (sint code)) else read_gpr rs j)"
proof -
  have "unat j < Suc 0 \<longleftrightarrow> j = 0" by (simp add: word_unat_eq_iff)
  then show ?thesis
    using assms(2) unfolding read_modify_register_state [OF assms(1) psci_response_wf]
    by (cases out) (auto simp: unat_lt_4 nth_response error_to_u64_def smccc_error_ok_def)
qed

text \<open>
  C11: Results of calls. \<open>HVC\<close> resumes after the instruction, where the architecture left the return
  address, and \<open>SMC\<close>, which traps before it, is skipped. A PSCI call that returns puts its value in
  \<open>x0\<close> and clears \<open>x1\<close>--\<open>x3\<close>, or puts the sign-extended error code in \<open>x0\<close>; any other call gets
  the platform's answer and changes nothing of the hypervisor. All other registers are kept.
\<close>

theorem hypercall_results:
  assumes "arm_sysregs_ok (hd_sysregs H)" and "smccc_error_ok (hd_smccc_error H)" and "hyp_platform_ok H"
    and "guest_running cap h rs"
    and "ec = get_field 26 6 (cr_esr_el2 (hv_core h))" and "ec = 0x16 \<or> ec = 0x17"
    and "handle_sync_lower H pr rs h = Done (Some rs', h')"
  shows "exception_return rs' =
      (fst (exception_return rs) + (if ec = 0x17 then 4 else 0), snd (exception_return rs)) \<and>
    (if psci_id (call_id rs)
     then \<exists>out. psci_outcome H rs h = Done (Some out, h') \<and>
       (\<forall>j. read_gpr rs' j =
          (case out of
             Inr v \<Rightarrow> if j = 0 then Some v else if j \<le> 3 then Some 0 else read_gpr rs j
           | Inl code \<Rightarrow> if j = 0 then Some (word_of_int (sint code)) else read_gpr rs j))
     else h' = h \<and>
       (\<forall>j. read_gpr rs' j =
          (let vs = returned_values (hd_smccc_error H) (hd_handle_hvc H (call_id rs) (call_args rs))
           in if unat j < length vs then Some (vs ! unat j) else read_gpr rs j)))"
proof -
  have wf: "guest_regs_wf rs" using assms(4) by (simp add: guest_running_def)
  have cls: "exception_class_from (EsrEl2_ec (hd_sysregs H) (cr_esr_el2 (hv_core h))) =
      (if ec = 0x17 then SmcTrappedInAArch64 else HvcTrappedInAArch64)"
    using assms(5,6) by (auto simp: exception_class_eq [OF assms(1)])
  obtain rs1 where call: "handle_call H rs h = Done (Some rs1, h')"
    and rs': "rs' = (if ec = 0x17 then after_instruction rs1 else rs1)"
  proof (cases "ec = 0x17")
    case True
    then show ?thesis
      using handle_sync_lower_smc_Done [OF _ assms(7)] cls that by (metis map_option_eq_Some)
  next
    case False
    then show ?thesis using that assms(7) handle_sync_lower_hvc [of H h pr rs] cls by simp
  qed
  have "exception_return rs1 = exception_return rs" by (rule handle_call_keeps [OF wf call])
  then have er: "exception_return rs' =
      (fst (exception_return rs) + (if ec = 0x17 then 4 else 0), snd (exception_return rs))"
    and rd: "\<And>j. read_gpr rs' j = read_gpr rs1 j"
    by (simp_all add: rs')
  have "hvc_result_wf (hd_handle_hvc H f args)" for f args
    using platform_contract.hvc_wf [OF assms(3)] .
  then show ?thesis
    using call er
    by (auto simp: rd handle_call_eq Let_def read_psci_response [OF wf assms(2)] read_modify_register_state [OF wf]
        split: if_splits)
qed

text \<open>The trap of a call, for the examples: \<open>x0\<close>--\<open>x3\<close> as given.\<close>

definition example_call :: "u64 list \<Rightarrow> GuestRegisterState" where
  "example_call xs =
     numbered_regs\<lparr>grs_volatile := (grs_volatile numbered_regs)
       \<lparr>vr_registers := take 19 (xs @ map of_nat [100..<119])\<rparr>\<rparr>"

lemma example_call_wf: "guest_regs_wf (example_call xs)"
  by (simp add: example_call_def guest_regs_wf_def numbered_regs_def)

theorem hypercall_results_witness:
  "\<exists>rs'. handle_sync_lower example_hyp_deps Dev (example_call [0x84000000])
        (example_running (example_core\<lparr>cr_esr_el2 := 0x5e000000\<rparr>) 0) =
      Done (Some rs', example_running (example_core\<lparr>cr_esr_el2 := 0x5e000000\<rparr>) 0) \<and>
     fst (exception_return rs') = 0x80004 \<and> read_gpr rs' 0 = Some 0x10001"
proof -
  let ?rs = "example_call [0x84000000]" and ?h = "example_running (example_core\<lparr>cr_esr_el2 := 0x5e000000\<rparr>) 0"
  have world: "?h\<lparr>hv_world := ()\<rparr> = ?h" by (cases ?h) simp
  have id: "call_id ?rs = 0x84000000" "psci_id 0x84000000"
    by (simp_all add: call_id_def example_call_def numbered_regs_def volatile_gprs_def psci_id_def)
  have out: "psci_outcome example_hyp_deps ?rs ?h = Done (Some (Inr 0x10001), ?h)"
    by (simp add: psci_outcome_def id handle_psci_def example_hyp_deps_def forward_psci_def world Let_def)
  let ?rs1 = "modify_register_state code_error (psci_response code_error (Inr 0x10001)) ?rs"
  have call: "handle_call example_hyp_deps ?rs ?h = Done (Some ?rs1, ?h)"
    by (simp add: handle_call_eq id out Let_def example_hyp_deps_ok(6))
  have "exception_return ?rs1 = (0x80000, 0x3c5)"
    unfolding handle_call_keeps(2) [OF example_call_wf call]
    by (simp add: example_call_def exception_return_def numbered_regs_def)
  then have "\<not> pc_overflows Dev ?rs1" by (simp add: pc_overflows_def)
  then have trap: "handle_sync_lower example_hyp_deps Dev ?rs ?h = Done (Some (after_instruction ?rs1), ?h)"
    by (subst handle_sync_lower_smc) (simp_all add: call exception_class_eq [OF example_hyp_deps_ok(1)] get_field_def)
  show ?thesis
    using hypercall_results [OF example_hyp_deps_ok(1,3,4) example_guest_running [OF example_call_wf] refl _ trap]
      trap id out
    by (auto simp: get_field_def example_call_def exception_return_def numbered_regs_def)
qed

section \<open>The policy over a guest's lifetime\<close>

text \<open>What entering the guest does to the statics: the configured handlers are in place.\<close>

lemma entry_point_el1_statics:
  assumes "hyp_platform_ok H" and "stage2_deps_ok (hd_stage2 H) maps" and "hyp_inv cap h"
    and "entry_point_el1 H a0 a1 a2 a3 e h = Done (x, h')"
  obtains config config' h1 where "stage2_config H h = Done (config, h1)" and "hyp_inv cap h'"
    and "hv_stage2_config h' = Some config'" and "sc_memory_access_handlers config' = sc_memory_access_handlers config"
    and "hv_suspend_contexts h' = hv_suspend_contexts h" and "hv_secondary_stacks h' = hv_secondary_stacks h"
    and "hv_core_calls h' = hv_core_calls h"
    and "sc_idmap config' = fst (hd_idmap_activate H (sc_idmap config) (hv_core h1))"
proof -
  obtain config h1 where c: "stage2_config H h = Done (config, h1)"
    using assms(4) by (cases "stage2_config H h") (auto simp: entry_point_el1_def setup_stage2_def)
  note conf = stage2_config_Done [OF assms(1-3) c]
  from assms(4) c have h': "hv_stage2_config h' =
      Some (config\<lparr>sc_idmap := fst (hd_idmap_activate H (sc_idmap config) (hv_core h1))\<rparr>)"
    "hv_suspend_contexts h' = hv_suspend_contexts h1" "hv_secondary_stacks h' = hv_secondary_stacks h1"
    "hv_core_calls h' = hv_core_calls h1"
    by (auto simp: entry_point_el1_def setup_stage2_def Let_def case_prod_beta)
  then have "hyp_inv cap h'" using conf by (simp add: hyp_inv_def)
  then show thesis by (rule that [OF c _ h'(1)]) (use h' conf(2) in simp_all)
qed

text \<open>
  One core's history: RITM enters the guest, the guest runs, changing registers at will, and
  traps are handled. \<open>c\<close> is whatever the guest made of the core's registers.
\<close>

inductive served ::
  "('s, 'idmap, 'me, 'attr, 'e, 'w) hyp_deps \<Rightarrow> profile \<Rightarrow> nat \<Rightarrow> ('s, 'idmap, 'w) hyp \<Rightarrow> GuestRegisterState \<Rightarrow> bool"
  for H pr cap where
  served_enter: "entry_point_el1 H a0 a1 a2 a3 e (hyp_init cap c s w) = Done (x, h) \<Longrightarrow> guest_regs_wf rs \<Longrightarrow>
    served H pr cap h rs"
| served_guest: "served H pr cap h rs \<Longrightarrow> guest_regs_wf rs' \<Longrightarrow> served H pr cap (h\<lparr>hv_core := c\<rparr>) rs'"
| served_trap: "served H pr cap h rs \<Longrightarrow> handle_sync_lower H pr rs h = Done (Some rs', h') \<Longrightarrow>
    served H pr cap h' rs'"

lemma served_policy:
  assumes "served H pr cap h rs" and "hyp_platform_ok H" and "stage2_deps_ok (hd_stage2 H) maps"
    and "arm_sysregs_ok (hd_sysregs H)" and "activate_keeps H maps"
  shows "guest_running cap h rs \<and>
    (\<exists>b config. hd_configure_memory_access H (builder_new (hd_stage2 H)) = Done (Inr (), b) \<and>
       builder_inv maps b \<and> hv_stage2_config h = Some config \<and>
       maps (sc_idmap config) = maps (sc_idmap (builder_build b)) \<and>
       sc_memory_access_handlers config = sc_memory_access_handlers (builder_build b))"
  using assms(1)
proof induction
  case (served_enter a0 a1 a2 a3 e c s w x h rs)
  obtain config config' h1 where c: "stage2_config H (hyp_init cap c s w) = Done (config, h1)"
    and h: "hyp_inv cap h" "hv_stage2_config h = Some config'"
      "sc_memory_access_handlers config' = sc_memory_access_handlers config"
      "sc_idmap config' = fst (hd_idmap_activate H (sc_idmap config) (hv_core h1))"
    by (rule entry_point_el1_statics [OF assms(2,3) hyp_init_inv served_enter(1)])
  then obtain b where b: "hd_configure_memory_access H (builder_new (hd_stage2 H)) = Done (Inr (), b)"
    and "config = builder_build b"
    by (auto simp: stage2_config_def hyp_init_def Let_def)
  moreover have "builder_inv maps b" by (rule platform_contract.configured_inv [OF assms(2,3) b])
  moreover have "maps (sc_idmap config') = maps (sc_idmap config)" using assms(5) h(4) by (simp add: activate_keeps_def)
  ultimately show ?case using h(1-3) served_enter(2) by (auto simp: guest_running_def)
next
  case (served_guest h rs rs' c)
  then show ?case by (auto simp: guest_running_def)
next
  case (served_trap h rs rs' h')
  then have "hyp_inv cap h' \<and> hv_stage2_config h' = hv_stage2_config h \<and> guest_regs_wf rs'"
    using handle_sync_lower_running [OF assms(4) _ served_trap(2)] by blast
  then show ?case using served_trap(3) by (auto simp: guest_running_def)
qed

text \<open>
  C8: The policy is fixed once and for all. However a guest runs and whatever it traps on, the
  pages the page table maps and the emulated regions are exactly those of the platform's one
  successful configuration, the hypervisor's maps stay well formed, and so do the saved registers.
\<close>

theorem policy_is_fixed:
  assumes "served H pr cap h rs" and "hyp_platform_ok H" and "stage2_deps_ok (hd_stage2 H) maps"
    and "arm_sysregs_ok (hd_sysregs H)" and "activate_keeps H maps"
  shows "guest_running cap h rs \<and>
    (\<exists>b config. hd_configure_memory_access H (builder_new (hd_stage2 H)) = Done (Inr (), b) \<and>
       builder_inv maps b \<and> hv_stage2_config h = Some config \<and>
       maps (sc_idmap config) = maps (sc_idmap (builder_build b)) \<and>
       sc_memory_access_handlers config = sc_memory_access_handlers (builder_build b))"
  by (rule served_policy [OF assms])

text \<open>The example hypervisor enters its guest.\<close>

lemma example_enters:
  "\<exists>h. entry_point_el1 example_hyp_deps 0 0 0 0 0x40200000 (hyp_init 8 example_core 0 ()) = Done (ExceptionReturn, h)"
proof -
  let ?h = "hyp_init 8 example_core 0 () :: (u64, u64 range_table, unit) hyp"
  obtain config where "stage2_config example_hyp_deps ?h = Done (config, ?h\<lparr>hv_stage2_config := Some config\<rparr>)"
    by (rule example_configures)
  from guest_entry [OF example_hyp_deps_ok(1,5) this] show ?thesis by blast
qed

lemma example_served: "\<exists>h. served example_hyp_deps Dev 8 h numbered_regs"
proof -
  obtain h where "entry_point_el1 example_hyp_deps 0 0 0 0 0x40200000 (hyp_init 8 example_core 0 ()) =
      Done (ExceptionReturn, h)"
    using example_enters ..
  then have "served example_hyp_deps Dev 8 h numbered_regs" using numbered_regs_wf by (rule served_enter)
  then show ?thesis ..
qed

theorem policy_is_fixed_witness:
  "\<exists>h. served example_hyp_deps Dev 8 h numbered_regs \<and> guest_running 8 h numbered_regs"
  using example_served policy_is_fixed [OF _ example_hyp_deps_ok(4,2,1,7)] by blast

lemma entered_well_formed:
  assumes "hyp_platform_ok H" and "stage2_deps_ok (hd_stage2 H) maps" and "hyp_inv cap h"
    and enters: "(\<exists>a0 a1 a2 a3 e. entry_point_el1 H a0 a1 a2 a3 e h = Done (x, h')) \<or>
      (\<exists>entry. started_core H entry h = Done (x, h')) \<or> restore_from_suspend H h = Done (x, h')"
  shows "hyp_inv cap h'" and "guest_regs_wf rs \<Longrightarrow> guest_running cap h' rs"
proof -
  obtain h0 a0 a1 a2 a3 e where h0: "hyp_inv cap h0" and enter: "entry_point_el1 H a0 a1 a2 a3 e h0 = Done (x, h')"
  proof -
    consider a0 a1 a2 a3 e where "entry_point_el1 H a0 a1 a2 a3 e h = Done (x, h')"
      | entry where "started_core H entry h = Done (x, h')" | "restore_from_suspend H h = Done (x, h')"
      using enters by blast
    then show thesis
    proof cases
      case 3
      then obtain ctx :: SuspendCoreData where "entry_point_el1 H (scd_context_id ctx) 0 0 0 (scd_entry_point ctx) (suspend_returned h) =
          Done (x, h')"
        by (auto simp: restore_from_suspend_def suspend_returned_def Let_def case_prod_beta)
      then show thesis using that suspend_returned_keeps [OF assms(3)] by blast
    qed (use that assms(3) in \<open>auto simp: started_core_def Let_def\<close>)
  qed
  obtain config' where "hyp_inv cap h'" "hv_stage2_config h' = Some config'"
    by (rule entry_point_el1_statics [OF assms(1,2) h0 enter])
  then show "hyp_inv cap h'" "guest_regs_wf rs \<Longrightarrow> guest_running cap h' rs"
    by (simp_all add: guest_running_def)
qed

text \<open>
  C9: Well-formedness. The two maps with their fixed capacity, the sorted and disjoint handler
  registry and the saved registers are well formed when the machine starts, and every way into the
  hypervisor keeps them so: entering a guest on the boot core, on a core that was started or on one
  that resumes, after which any guest registers make a running guest, and every trap of a running
  guest, whatever its result.
\<close>

theorem hypervisor_stays_well_formed:
  assumes "hyp_platform_ok H" and "stage2_deps_ok (hd_stage2 H) maps" and "arm_sysregs_ok (hd_sysregs H)"
  shows "hyp_inv cap (hyp_init cap c s w) \<and>
    (\<forall>h h' x. hyp_inv cap h \<and>
       ((\<exists>a0 a1 a2 a3 e. entry_point_el1 H a0 a1 a2 a3 e h = Done (x, h')) \<or>
        (\<exists>entry. started_core H entry h = Done (x, h')) \<or> restore_from_suspend H h = Done (x, h')) \<longrightarrow>
       hyp_inv cap h' \<and> (\<forall>rs. guest_regs_wf rs \<longrightarrow> guest_running cap h' rs)) \<and>
    (\<forall>h h' rs r. guest_running cap h rs \<and> handle_sync_lower H pr rs h = Done (r, h') \<longrightarrow>
       hyp_inv cap h' \<and> (\<forall>rs'. r = Some rs' \<longrightarrow> guest_running cap h' rs'))"
proof (intro conjI allI impI, goal_cases)
  case (2 h h' x)
  then show ?case by (elim conjE) (rule entered_well_formed(1) [OF assms(1,2)])
next
  case (3 h h' x rs)
  from 3(1) show ?case by (elim conjE) (rule entered_well_formed(2) [OF assms(1,2) _ _ 3(2)])
next
  case (4 h h' rs r)
  then show ?case by (elim conjE) (rule handle_sync_lower_running [OF assms(3), THEN conjunct1])
next
  case (5 h h' rs r rs')
  then have run: "guest_running cap h rs" and trap: "handle_sync_lower H pr rs h = Done (r, h')" by simp_all
  from handle_sync_lower_running [OF assms(3) run trap] run 5(2) show ?case by (simp add: guest_running_def)
qed (rule hyp_init_inv)

theorem hypervisor_stays_well_formed_witness:
  "\<exists>h. entry_point_el1 example_hyp_deps 0 0 0 0 0x40200000 (hyp_init 8 example_core 0 ()) = Done (ExceptionReturn, h) \<and>
     hyp_inv 8 h \<and> guest_running 8 h numbered_regs"
proof -
  obtain h where enter: "entry_point_el1 example_hyp_deps 0 0 0 0 0x40200000 (hyp_init 8 example_core 0 ()) = Done (ExceptionReturn, h)"
    using example_enters ..
  note all = hypervisor_stays_well_formed [OF example_hyp_deps_ok(4,2,1), of 8 example_core 0 "()" Dev]
  have "hyp_inv 8 h \<and> (\<forall>rs. guest_regs_wf rs \<longrightarrow> guest_running 8 h rs)"
    by (rule all [THEN conjunct2, THEN conjunct1, rule_format]) (use enter all [THEN conjunct1] in blast)
  then show ?thesis using enter numbered_regs_wf by blast
qed

section \<open>Panics\<close>

text \<open>
  C10: When a trap of a running guest panics, and so powers the machine off. Exactly: on an
  exception class other than \<open>HVC\<close>, \<open>SMC\<close> and data aborts from a lower level; on a fault to be
  injected while the guest has no vector table; in builds with overflow checks, when the next
  instruction or the vector lies beyond the address space; and when \<open>CPU_ON\<close> or \<open>CPU_SUSPEND\<close>
  needs a slot for a new core in a full map. In particular a guest can stop the machine with
  \<open>CPU_ON\<close> calls for more distinct targets than there are slots.
\<close>

theorem trap_panics_exactly:
  assumes S: "arm_sysregs_ok (hd_sysregs H)" and run: "guest_running cap h rs"
    and conf: "hv_stage2_config h = Some config"
  shows "handle_sync_lower H pr rs h = Panicked p \<longleftrightarrow>
    (let ec = get_field 26 6 (cr_esr_el2 (hv_core h));
         e = fst (emulation_of (sc_memory_access_handlers config)
               (trapped_access (hd_sysregs H) (hv_core h) rs) (hv_platform h));
         vbar = cr_vbar_el1 (hv_core h);
         elr = fst (exception_return rs)
     in p = ''Unexpected sync_lower'' \<and> ec \<noteq> 0x16 \<and> ec \<noteq> 0x17 \<and> ec \<noteq> 0x24 \<or>
        p = ''Guest VBAR_EL1 is 0, cannot inject data abort'' \<and> ec = 0x24 \<and> e = Faulted \<and> vbar = 0 \<or>
        p = ''attempt to add with overflow'' \<and> pr = Dev \<and>
          (ec = 0x24 \<and> e = Faulted \<and> vbar \<noteq> 0 \<and> 2 ^ 64 \<le> unat vbar + 0x200 \<or>
           ec = 0x24 \<and> e \<noteq> Faulted \<and> 2 ^ 64 \<le> unat elr + 4 \<or>
           ec = 0x17 \<and> 2 ^ 64 \<le> unat elr + 4 \<and> (\<exists>rs' h'. handle_call H rs h = Done (Some rs', h'))) \<or>
        p = ''maximum capacity exceeded'' \<and> (ec = 0x16 \<or> ec = 0x17) \<and> psci_id (call_id rs) \<and>
          psci_over_capacity H cap rs h)"
proof -
  have inv: "registry_inv (sc_memory_access_handlers config)" "hyp_inv cap h" and wf: "guest_regs_wf rs"
    using run conf by (auto simp: guest_running_def hyp_inv_def)
  note cls = exception_class_eq [OF S, of "cr_esr_el2 (hv_core h)"]
  have call: "handle_call H rs h = Panicked p \<longleftrightarrow>
      p = ''maximum capacity exceeded'' \<and> psci_id (call_id rs) \<and> psci_over_capacity H cap rs h"
    using psci_outcome_panics [OF inv(2) wf, of H p]
    by (auto simp: handle_call_eq Let_def and_then_eq_Panicked case_prod_beta)
  have pc: "pc_overflows pr rs' \<longleftrightarrow> pr = Dev \<and> 2 ^ 64 \<le> unat (fst (exception_return rs)) + 4"
    if "handle_call H rs h = Done (Some rs', h')" for rs' h'
    using handle_call_keeps(2) [OF wf that] by (simp add: pc_overflows_def)
  let ?ec = "get_field 26 6 (cr_esr_el2 (hv_core h))"
  consider "?ec = 0x16" | "?ec = 0x17" | "?ec = 0x24" | "?ec \<noteq> 0x16" "?ec \<noteq> 0x17" "?ec \<noteq> 0x24" by blast
  then show ?thesis
  proof cases
    case 1
    then show ?thesis using call handle_sync_lower_hvc [of H h pr rs] cls by simp
  next
    case 2
    then have trap: "handle_sync_lower H pr rs h = Panicked p \<longleftrightarrow>
        handle_call H rs h = Panicked p \<or>
        (\<exists>rs' h'. handle_call H rs h = Done (Some rs', h') \<and> pc_overflows pr rs' \<and> p = ''attempt to add with overflow'')"
      using handle_sync_lower_smc [of H h pr rs] cls
      by (auto simp: and_then_eq_Panicked split: option.splits if_splits)
    show ?thesis unfolding trap call Let_def using 2 pc by auto
  next
    case 3
    obtain e s' where e: "emulation_of (sc_memory_access_handlers config)
        (trapped_access (hd_sysregs H) (hv_core h) rs) (hv_platform h) = (e, s')" by fastforce
    note trap = handle_sync_lower_data_abort [OF S conf inv(1), of pr rs, unfolded Let_def e case_prod_conv]
    show ?thesis
      using 3 cls trap
      by (cases e) (auto simp: e Let_def injection_panic_def pc_overflows_def guest.rest_wr split: if_splits)
  next
    case 4
    then show ?thesis using handle_sync_lower_unknown [of H h _ pr rs] cls by (auto simp: Let_def)
  qed
qed

text \<open>Eight cores have stacks; the guest starts a ninth.\<close>

definition full_stacks :: "(u64, unit) SimpleMap" where
  "full_stacks = \<lparr>items = map (\<lambda>k. Some \<lparr>item_key = of_nat k, item_value = ()\<rparr>) [0..<8]\<rparr>"

lemma full_stacks_inv: "simple_map_inv 8 full_stacks"
proof (rule simple_map_invI)
  fix i j :: nat and a b
  assume "i < 8" "j < 8" "items full_stacks ! i = Some a" "items full_stacks ! j = Some b" "item_key a = item_key b"
  then have "(of_nat i :: u64) = of_nat j" by (auto simp: full_stacks_def simp del: upt_rec_numeral)
  then show "i = j" using \<open>i < 8\<close> \<open>j < 8\<close>
    by (simp add: word_unat_eq_iff unat_of_nat)
qed (simp add: full_stacks_def)

lemma full_stacks_full: "map_full 8 full_stacks 8"
proof -
  have "free_slot (items full_stacks) = None" "key_slot 8 (items full_stacks) = None"
    by (simp_all add: full_stacks_def upt_rec)
  then show ?thesis
    using simple_map_full_iff [OF full_stacks_inv]
    by (simp add: map_full_def simple_map_lookup_def simple_map_get_mut_def)
qed

theorem trap_panics_exactly_witness:
  "handle_sync_lower example_hyp_deps Dev (example_call [0xC4000003, 8, 0x40200000, 0])
     ((example_running (example_core\<lparr>cr_esr_el2 := 0x5e000000\<rparr>) 0)\<lparr>hv_secondary_stacks := full_stacks\<rparr>) =
   Panicked ''maximum capacity exceeded''"
proof -
  let ?rs = "example_call [0xC4000003, 8, 0x40200000, 0]"
    and ?h = "(example_running (example_core\<lparr>cr_esr_el2 := 0x5e000000\<rparr>) 0)\<lparr>hv_secondary_stacks := full_stacks\<rparr>"
  have run: "guest_running 8 ?h ?rs"
    using example_guest_running [OF example_call_wf, of "example_core\<lparr>cr_esr_el2 := 0x5e000000\<rparr>" 0] full_stacks_inv
    by (simp add: guest_running_def hyp_inv_def example_call_wf)
  have "call_id ?rs # take 3 (call_args ?rs) = [0xC4000003, 8, 0x40200000, 0]"
    by (simp add: call_id_def call_args_def example_call_def numbered_regs_def volatile_gprs_def)
  then have "psci_over_capacity example_hyp_deps 8 ?rs ?h" "psci_id (call_id ?rs)"
    using full_stacks_full by (auto simp: psci_over_capacity_def example_hyp_deps_def psci_id_def)
  then show ?thesis
    using trap_panics_exactly [OF example_hyp_deps_ok(1) run, of _ Dev "''maximum capacity exceeded''"]
    by (simp add: Let_def get_field_def)
qed

section \<open>The filtered page of QEMU\<close>

text \<open>The test device of the QEMU platform, as its guest should see it: 64-bit registers at fixed offsets.\<close>

definition filtered_page :: "DecodedMemoryAccess \<Rightarrow> u64 \<Rightarrow> emulation \<times> u64" where
  "filtered_page a counter =
     (let load = (\<lambda>v. Loaded (register_load U64 (dma_sign_extend a) (dma_register_width_64 a) v)) in
      if dma_width a \<noteq> U64 then (Faulted, counter)
      else case dma_kind a of
        Read \<Rightarrow>
          if dma_ipa a = 0x0f000000 then (load 0xfeedfacecafebeef, counter)
          else if dma_ipa a = 0x0f000010 then (load counter, counter + 1)
          else if dma_ipa a = 0x0f000018 then (load 0x1111222233334444, counter)
          else if dma_ipa a = 0x0f000020 then (load 0x5555666677778888, counter)
          else if dma_ipa a = 0x0f000028 then (load 0x9999aaaabbbbcccc, counter)
          else (Faulted, counter)
      | Write v \<Rightarrow>
          if dma_ipa a = 0x0f000008 \<and> v = 0x123456789abcdef0 then (Stored, counter) else (Faulted, counter))"

lemma emulation_of_filtered:
  "emulation_of \<lparr>reg_regions = [filtered_mmio_region]\<rparr> (Some a) counter = filtered_page a counter"
proof (cases "0x0f000000 \<le> dma_ipa a \<and> dma_ipa a < 0x0f001000")
  case True
  have off: "dma_ipa a - 0x0f000000 = k \<longleftrightarrow> dma_ipa a = 0x0f000000 + k" for k by (auto simp: algebra_simps)
  show ?thesis
    using True
    by (auto simp: emulation_of_def region_covering_def filtered_mmio_region_def handler_read_write_def off
        read_filtered_mmio_def write_filtered_mmio_def filtered_page_def Let_def split: DecodedMemoryAccessKind.split)
next
  case False
  then show ?thesis
    by (auto simp: emulation_of_def region_covering_def filtered_mmio_region_def filtered_page_def Let_def
        split: DecodedMemoryAccessKind.split)
qed

lemma qemu_served_handlers:
  assumes "served (qemu_hypervisor H A pr image_address heap) pr' cap h rs"
    and "stage2_deps_ok (hd_stage2 H) maps"
    and "qemu_layout_ok image_address heap" and "arm_sysregs_ok (hd_sysregs H)" and "activate_keeps H maps"
  obtains config where "guest_running cap h rs" and "hv_stage2_config h = Some config"
    and "maps (sc_idmap config) = qemu_guest_map A image_address heap"
    and "sc_memory_access_handlers config = \<lparr>reg_regions = [filtered_mmio_region]\<rparr>"
proof -
  obtain b config where run: "guest_running cap h rs"
    and b: "qemu_configure_memory_access (hd_stage2 H) A pr image_address heap (builder_new (hd_stage2 H)) = Done (Inr (), b)"
    and conf: "hv_stage2_config h = Some config"
      "maps (sc_idmap config) = maps (sc_idmap (builder_build b))"
      "sc_memory_access_handlers config = sc_memory_access_handlers (builder_build b)"
    using served_policy [OF assms(1) qemu_hypervisor_platform, of maps] assms(2,4,5)
    by (auto simp: qemu_hypervisor_def activate_keeps_def)
  have "sb_memory_access_handlers b = \<lparr>reg_regions = [filtered_mmio_region]\<rparr>"
    "maps (sb_idmap b) = qemu_guest_map A image_address heap"
    using qemu_configured [OF assms(2,3) b] by (auto simp: builder_at_def)
  then show thesis using that run conf by (simp add: builder_build_def)
qed

text \<open>
  A trap of a guest on QEMU. Whatever the guest did since it was entered, an access of its
  that traps with a valid syndrome reads or writes the filtered test device exactly at the
  device's registers and otherwise, the RITM image included, becomes a data abort in the guest's
  own vector; the device's counter changes as the device says.
\<close>

theorem qemu_guest_accesses:
  assumes "served (qemu_hypervisor H A pr image_address heap) pr' cap h rs"
    and "stage2_deps_ok (hd_stage2 H) maps"
    and "qemu_layout_ok image_address heap" and "arm_sysregs_ok (hd_sysregs H)" and "activate_keeps H maps"
    and "get_field 26 6 (cr_esr_el2 (hv_core h)) = 0x24"
    and "trapped_access (hd_sysregs H) (hv_core h) rs = Some a"
    and "unat (fst (exception_return rs)) + 4 < 2 ^ 64"
    and "cr_vbar_el1 (hv_core h) \<noteq> 0" and "unat (cr_vbar_el1 (hv_core h)) + 0x200 < 2 ^ 64"
    and "filtered_page a (hv_platform h) = (e, s')"
  shows "\<exists>rs' h'. handle_sync_lower (qemu_hypervisor H A pr image_address heap) pr' rs h = Done (Some rs', h') \<and>
    hv_platform h' = s' \<and>
    exception_return rs' =
      (if e = Faulted then (cr_vbar_el1 (hv_core h) + 0x200, 0x3c5)
       else (fst (exception_return rs) + 4, snd (exception_return rs))) \<and>
    (\<forall>j. read_gpr rs' j =
       (case e of Loaded v \<Rightarrow> if j \<noteq> 31 \<and> j = dma_register_index a then Some v else read_gpr rs j
        | _ \<Rightarrow> read_gpr rs j))"
proof -
  obtain config where "guest_running cap h rs" "hv_stage2_config h = Some config"
    and "sc_memory_access_handlers config = \<lparr>reg_regions = [filtered_mmio_region]\<rparr>"
    by (rule qemu_served_handlers [OF assms(1-5)])
  then show ?thesis
    using data_abort_trap [of "qemu_hypervisor H A pr image_address heap" cap h rs config e s' pr'] assms(4-11)
    by (cases e) (auto simp: emulation_of_filtered)
qed

text \<open>The example hypervisor is QEMU's; the guest then loads the counter.\<close>

lemma example_is_qemu: "qemu_hypervisor example_hyp_deps example_attrs Dev 0x47000000 0x47100800 = example_hyp_deps"
  by (simp add: qemu_hypervisor_def example_hyp_deps_def)

theorem qemu_guest_accesses_witness:
  "\<exists>h rs' h'. handle_sync_lower example_hyp_deps Dev numbered_regs h = Done (Some rs', h') \<and>
     read_gpr rs' 5 = Some (hv_platform h) \<and> fst (exception_return rs') = 0x80004"
proof -
  obtain h0 where "served example_hyp_deps Dev 8 h0 numbered_regs" using example_served ..
  then have "served example_hyp_deps Dev 8 (h0\<lparr>hv_core := example_abort 0x1C58000 0x0f000010\<rparr>) numbered_regs"
    using numbered_regs_wf by (rule served_guest)
  then have "served (qemu_hypervisor example_hyp_deps example_attrs Dev 0x47000000 0x47100800) Dev 8
      (h0\<lparr>hv_core := example_abort 0x1C58000 0x0f000010\<rparr>) numbered_regs"
    unfolding example_is_qemu .
  note trap = qemu_guest_accesses [OF this example_hyp_deps_ok(2) example_layout example_hyp_deps_ok(1,7)]
  show ?thesis
    using trap [of _ "Loaded (hv_platform h0)" "hv_platform h0 + 1", unfolded example_is_qemu]
    by (fastforce simp: example_load example_abort_sel get_field_def filtered_page_def register_load_def Let_def)
qed

end
