(* ===== verification/Machine.thy ===== *)
theory Machine
  imports Guest
begin

text \<open>
  Several cores sharing RITM's statics. Each core runs the code of \<open>src/src/hypervisor.rs\<close>; the
  steps of different cores interleave at the points where the code holds no lock: \<open>CPU_SUSPEND\<close>
  may run without interruption or as four steps (the context is saved, the stack is looked up,
  \<open>suspend_core\<close> is called, and the context is removed if that returns), and a core that went
  down comes back through \<open>restore_from_suspend\<close>.

  Core \<open>i\<close> reads \<open>mpidr i\<close> from \<open>MPIDR_EL1\<close>. The registers \<open>c\<close> of the stepping core are arbitrary
  otherwise: the guest and the firmware may have changed them. \<open>K\<close> is the set of identifiers that
  \<open>CPU_ON\<close> is called with, together with those of the cores themselves. What the cores were given
  as stacks is read off the trace \<open>hv_core_calls\<close>; \<open>stack_layout_ok\<close> says that the stacks of the slots
  do not overlap in memory.
\<close>

section \<open>The machine\<close>

datatype phase =
    Off                        \<comment> \<open>not started, or switched off\<close>
  | InGuest
  | Saved EntryPoint           \<comment> \<open>in \<open>psci_cpu_suspend\<close>, after saving the context\<close>
  | HasStack EntryPoint usize  \<comment> \<open>about to call \<open>suspend_core\<close> with this stack pointer\<close>
  | Returned EntryPoint        \<comment> \<open>\<open>suspend_core\<close> has returned\<close>
  | Down EntryPoint            \<comment> \<open>powered down\<close>

record ('s, 'idmap, 'w) machine =
  m_hyp :: "('s, 'idmap, 'w) hyp"
  m_phase :: "nat \<Rightarrow> phase"

text \<open>A trap that is neither \<open>CPU_ON\<close> nor \<open>CPU_SUSPEND\<close>.\<close>

definition plain_trap :: "('s, 'idmap, 'me, 'attr, 'e, 'w) hyp_deps \<Rightarrow> core \<Rightarrow> GuestRegisterState \<Rightarrow> bool" where
  "plain_trap H c rs \<longleftrightarrow>
     get_field 26 6 (cr_esr_el2 c) = 0x24 \<or> \<not> psci_id (call_id rs) \<or>
     (case hd_function_try_from H (call_id rs # take 3 (call_args rs)) of
        Inr (CpuOn _ _) \<Rightarrow> False | Inr (CpuSuspend _ _) \<Rightarrow> False | _ \<Rightarrow> True)"

inductive core_step ::
  "('s, 'idmap, 'me, 'attr, 'e, 'w) hyp_deps \<Rightarrow> profile \<Rightarrow> nat \<Rightarrow> (nat \<Rightarrow> u64) \<Rightarrow> u64 set \<Rightarrow>
   nat \<Rightarrow> ('s, 'idmap, 'w) machine \<Rightarrow> ('s, 'idmap, 'w) machine \<Rightarrow> bool"
  for H pr n mpidr K i m where
  step_trap: "\<lbrakk>i < n; m_phase m i = InGuest; cr_mpidr_el1 c = mpidr i; guest_regs_wf rs; plain_trap H c rs;
      handle_sync_lower H pr rs ((m_hyp m)\<lparr>hv_core := c\<rparr>) = Done (r, h)\<rbrakk> \<Longrightarrow>
    core_step H pr n mpidr K i m
      (m\<lparr>m_hyp := h, m_phase := (m_phase m)(i := if r = None then Off else InGuest)\<rparr>)"
| step_cpu_on: "\<lbrakk>i < n; m_phase m i = InGuest; cr_mpidr_el1 c = mpidr i; target \<in> K;
      psci_cpu_on H target entry ((m_hyp m)\<lparr>hv_core := c\<rparr>) = Done (r, h)\<rbrakk> \<Longrightarrow>
    core_step H pr n mpidr K i m (m\<lparr>m_hyp := h\<rparr>)"
| step_suspend: "\<lbrakk>i < n; m_phase m i = InGuest; cr_mpidr_el1 c = mpidr i;
      psci_cpu_suspend H st entry ((m_hyp m)\<lparr>hv_core := c\<rparr>) = Done (r, h)\<rbrakk> \<Longrightarrow>
    core_step H pr n mpidr K i m
      (m\<lparr>m_hyp := h, m_phase := (m_phase m)(i := if r = None then Down entry else InGuest)\<rparr>)"
| step_start: "\<lbrakk>i < n; m_phase m i = Off; cr_mpidr_el1 c = mpidr i;
      started_core H entry ((m_hyp m)\<lparr>hv_core := c\<rparr>) = Done (x, h)\<rbrakk> \<Longrightarrow>
    core_step H pr n mpidr K i m (m\<lparr>m_hyp := h, m_phase := (m_phase m)(i := InGuest)\<rparr>)"
| step_save: "\<lbrakk>i < n; m_phase m i = InGuest; cr_mpidr_el1 c = mpidr i;
      suspend_save_context entry ((m_hyp m)\<lparr>hv_core := c\<rparr>) = Done h\<rbrakk> \<Longrightarrow>
    core_step H pr n mpidr K i m (m\<lparr>m_hyp := h, m_phase := (m_phase m)(i := Saved entry)\<rparr>)"
| step_stack: "\<lbrakk>i < n; m_phase m i = Saved entry; cr_mpidr_el1 c = mpidr i;
      suspend_get_stack H ((m_hyp m)\<lparr>hv_core := c\<rparr>) = Done (stack_ptr, h)\<rbrakk> \<Longrightarrow>
    core_step H pr n mpidr K i m (m\<lparr>m_hyp := h, m_phase := (m_phase m)(i := HasStack entry stack_ptr)\<rparr>)"
| step_call: "\<lbrakk>i < n; m_phase m i = HasStack entry stack_ptr; cr_mpidr_el1 c = mpidr i;
      suspend_core H st stack_ptr ((m_hyp m)\<lparr>hv_core := c\<rparr>) = (r, h)\<rbrakk> \<Longrightarrow>
    core_step H pr n mpidr K i m
      (m\<lparr>m_hyp := h, m_phase := (m_phase m)(i := if r = None then Down entry else Returned entry)\<rparr>)"
| step_return: "\<lbrakk>i < n; m_phase m i = Returned entry; cr_mpidr_el1 c = mpidr i\<rbrakk> \<Longrightarrow>
    core_step H pr n mpidr K i m
      (m\<lparr>m_hyp := suspend_returned ((m_hyp m)\<lparr>hv_core := c\<rparr>), m_phase := (m_phase m)(i := InGuest)\<rparr>)"
| step_resume: "\<lbrakk>i < n; m_phase m i = Down entry; cr_mpidr_el1 c = mpidr i;
      restore_from_suspend H ((m_hyp m)\<lparr>hv_core := c\<rparr>) = Done (x, h)\<rbrakk> \<Longrightarrow>
    core_step H pr n mpidr K i m (m\<lparr>m_hyp := h, m_phase := (m_phase m)(i := InGuest)\<rparr>)"

text \<open>Core 0 boots into the guest with \<open>cap\<close> slots in both maps; the other cores are off.\<close>

inductive machine_reachable ::
  "('s, 'idmap, 'me, 'attr, 'e, 'w) hyp_deps \<Rightarrow> profile \<Rightarrow> nat \<Rightarrow> nat \<Rightarrow> (nat \<Rightarrow> u64) \<Rightarrow> u64 set \<Rightarrow>
   ('s, 'idmap, 'w) machine \<Rightarrow> bool"
  for H pr cap n mpidr K where
  reach_boot: "entry_point_el1 H a0 a1 a2 a3 e (hyp_init cap c s w) = Done (x, h) \<Longrightarrow>
    machine_reachable H pr cap n mpidr K
      \<lparr>m_hyp = h, m_phase = (\<lambda>_. Off)(0 := InGuest)\<rparr>"
| reach_core: "machine_reachable H pr cap n mpidr K m \<Longrightarrow> core_step H pr n mpidr K i m m' \<Longrightarrow>
    machine_reachable H pr cap n mpidr K m'"

section \<open>The invariant\<close>

definition saved_context :: "EntryPoint \<Rightarrow> SuspendCoreData" where
  "saved_context entry = \<lparr>scd_entry_point = entry_point_address entry, scd_context_id = context_id entry\<rparr>"

fun pending :: "phase \<Rightarrow> EntryPoint option" where
  "pending (Saved entry) = Some entry"
| "pending (HasStack entry _) = Some entry"
| "pending (Returned entry) = Some entry"
| "pending (Down entry) = Some entry"
| "pending _ = None"

text \<open>The call passes the stack of its core: its start to \<open>start_core\<close>, its end to \<open>suspend_core\<close>.\<close>

fun owns_stack ::
  "('s, 'idmap, 'me, 'attr, 'e, 'w) hyp_deps \<Rightarrow> (u64, unit) SimpleMap \<Rightarrow> core_call \<Rightarrow> bool" where
  "owns_stack H stacks (StartCore k stack) \<longleftrightarrow>
     (\<exists>slot. simple_map_get_mut stacks k = Some slot \<and> stack = hd_stack_address H slot)"
| "owns_stack H stacks (SuspendCore k stack_ptr) \<longleftrightarrow>
     (\<exists>slot. simple_map_get_mut stacks k = Some slot \<and> stack_ptr = stack_wrapping_add (hd_stack_address H slot) 1)"

lemma owns_stack_mono:
  assumes "owns_stack H stacks call"
    and "\<And>k slot. simple_map_get_mut stacks k = Some slot \<Longrightarrow> simple_map_get_mut stacks' k = Some slot"
  shows "owns_stack H stacks' call"
  using assms by (cases call) auto

text \<open>
  Exactly the cores in \<open>psci_cpu_suspend\<close> or down have a context, and every stack handed out
  belongs to the core it was handed out for.
\<close>

definition machine_inv ::
  "('s, 'idmap, 'me, 'attr, 'e, 'w) hyp_deps \<Rightarrow> nat \<Rightarrow> nat \<Rightarrow> (nat \<Rightarrow> u64) \<Rightarrow> u64 set \<Rightarrow> ('s, 'idmap, 'w) machine \<Rightarrow> bool" where
  "machine_inv H cap n mpidr K m \<longleftrightarrow>
     hyp_inv cap (m_hyp m) \<and> hv_stage2_config (m_hyp m) \<noteq> None \<and>
     (\<forall>i<n. simple_map_lookup (hv_suspend_contexts (m_hyp m)) (mpidr i) = map_option saved_context (pending (m_phase m i))) \<and>
     dom (simple_map_lookup (hv_suspend_contexts (m_hyp m))) \<subseteq> mpidr ` {..<n} \<and>
     dom (simple_map_lookup (hv_secondary_stacks (m_hyp m))) \<subseteq> K \<and>
     (\<forall>i<n. \<forall>entry stack_ptr. m_phase m i = HasStack entry stack_ptr \<longrightarrow>
        owns_stack H (hv_secondary_stacks (m_hyp m)) (SuspendCore (mpidr i) stack_ptr)) \<and>
     (\<forall>call\<in>set (hv_core_calls (m_hyp m)). owns_stack H (hv_secondary_stacks (m_hyp m)) call)"

text \<open>Distinct cores have distinct identifiers, all in \<open>K\<close>.\<close>

definition topology :: "nat \<Rightarrow> (nat \<Rightarrow> u64) \<Rightarrow> u64 set \<Rightarrow> bool" where
  "topology n mpidr K \<longleftrightarrow> inj_on mpidr {..<n} \<and> mpidr ` {..<n} \<subseteq> K"

lemma machine_invD:
  assumes "machine_inv H cap n mpidr K m"
  shows "hyp_inv cap (m_hyp m)" and "hv_stage2_config (m_hyp m) \<noteq> None"
    and "i < n \<Longrightarrow> simple_map_lookup (hv_suspend_contexts (m_hyp m)) (mpidr i) =
      map_option saved_context (pending (m_phase m i))"
    and "dom (simple_map_lookup (hv_suspend_contexts (m_hyp m))) \<subseteq> mpidr ` {..<n}"
    and "dom (simple_map_lookup (hv_secondary_stacks (m_hyp m))) \<subseteq> K"
    and "i < n \<Longrightarrow> m_phase m i = HasStack entry stack_ptr \<Longrightarrow>
      owns_stack H (hv_secondary_stacks (m_hyp m)) (SuspendCore (mpidr i) stack_ptr)"
    and "call \<in> set (hv_core_calls (m_hyp m)) \<Longrightarrow> owns_stack H (hv_secondary_stacks (m_hyp m)) call"
  using assms unfolding machine_inv_def by blast+

lemma machine_inv_step:
  assumes inv: "machine_inv H cap n mpidr K m" and top: "topology n mpidr K" and i: "i < n"
    and h': "hyp_inv cap h'" "hv_stage2_config h' \<noteq> None"
    and ctx: "simple_map_lookup (hv_suspend_contexts h') =
      (simple_map_lookup (hv_suspend_contexts (m_hyp m)))(mpidr i := map_option saved_context (pending p))"
    and dom: "dom (simple_map_lookup (hv_secondary_stacks h')) \<subseteq> K"
    and old: "\<And>k s. simple_map_get_mut (hv_secondary_stacks (m_hyp m)) k = Some s \<Longrightarrow>
      simple_map_get_mut (hv_secondary_stacks h') k = Some s"
    and new: "\<And>entry sp. p = HasStack entry sp \<Longrightarrow> owns_stack H (hv_secondary_stacks h') (SuspendCore (mpidr i) sp)"
    and calls: "\<And>call. call \<in> set (hv_core_calls h') \<Longrightarrow>
      call \<in> set (hv_core_calls (m_hyp m)) \<or> owns_stack H (hv_secondary_stacks h') call"
  shows "machine_inv H cap n mpidr K (m\<lparr>m_hyp := h', m_phase := (m_phase m)(i := p)\<rparr>)"
proof -
  have eq: "mpidr j = mpidr i \<longleftrightarrow> j = i" if "j < n" for j
    using top i that by (auto simp: topology_def inj_on_def)
  have "dom (simple_map_lookup (hv_suspend_contexts h')) \<subseteq> insert (mpidr i) (dom (simple_map_lookup (hv_suspend_contexts (m_hyp m))))"
    unfolding ctx by (auto split: if_splits)
  then have "dom (simple_map_lookup (hv_suspend_contexts h')) \<subseteq> mpidr ` {..<n}"
    using machine_invD(4) [OF inv] i by blast
  moreover have "\<forall>call\<in>set (hv_core_calls h'). owns_stack H (hv_secondary_stacks h') call"
    using calls owns_stack_mono [OF machine_invD(7) [OF inv] old] by blast
  moreover have "owns_stack H (hv_secondary_stacks h') (SuspendCore (mpidr j) sp)"
    if "j < n" "((m_phase m)(i := p)) j = HasStack entry sp" for j entry sp
    using that new owns_stack_mono [OF machine_invD(6) [OF inv that(1)] old] by (cases "j = i") simp_all
  ultimately show ?thesis
    using h' dom eq machine_invD(3) [OF inv] unfolding machine_inv_def by (simp add: ctx)
qed

text \<open>Steps that leave both maps alone.\<close>

lemma machine_inv_same_maps:
  assumes inv: "machine_inv H cap n mpidr K m" and top: "topology n mpidr K" and i: "i < n"
    and h': "hyp_inv cap h'" "hv_stage2_config h' \<noteq> None"
    and maps: "hv_suspend_contexts h' = hv_suspend_contexts (m_hyp m)"
      "hv_secondary_stacks h' = hv_secondary_stacks (m_hyp m)"
    and calls: "\<And>call. call \<in> set (hv_core_calls h') \<Longrightarrow>
      call \<in> set (hv_core_calls (m_hyp m)) \<or> owns_stack H (hv_secondary_stacks (m_hyp m)) call"
    and p: "pending p = pending (m_phase m i)" "\<And>entry sp. p \<noteq> HasStack entry sp"
  shows "machine_inv H cap n mpidr K (m\<lparr>m_hyp := h', m_phase := (m_phase m)(i := p)\<rparr>)"
proof (rule machine_inv_step [OF inv top i h'])
  show "simple_map_lookup (hv_suspend_contexts h') =
      (simple_map_lookup (hv_suspend_contexts (m_hyp m)))(mpidr i := map_option saved_context (pending p))"
    using machine_invD(3) [OF inv i] by (auto simp: maps p)
qed (use machine_invD(5) [OF inv] calls p(2) in \<open>auto simp: maps\<close>)

lemma plain_call_keeps:
  assumes S: "arm_sysregs_ok (hd_sysregs H)" and run: "guest_running cap h rs" and plain: "plain_trap H (hv_core h) rs"
    and call: "handle_call H rs h = Done (r, h')"
    and cls: "exception_class_from (EsrEl2_ec (hd_sysregs H) (cr_esr_el2 (hv_core h))) \<noteq> DataAbortLowerEL"
  shows "hv_suspend_contexts h' = hv_suspend_contexts h \<and> hv_secondary_stacks h' = hv_secondary_stacks h \<and>
    hv_core_calls h' = hv_core_calls h"
proof (cases "psci_id (call_id rs)")
  case True
  have ec: "get_field 26 6 (cr_esr_el2 (hv_core h)) \<noteq> 0x24"
    using cls by (auto simp: exception_class_eq [OF S])
  have wf: "guest_regs_wf rs" using run by (simp add: guest_running_def)
  from True call obtain out where out: "psci_outcome H rs h = Done (out, h')"
    by (auto simp: handle_call_eq Let_def)
  show ?thesis
  proof (cases "hd_function_try_from H (call_id rs # take 3 (call_args rs))")
    case (Inr f)
    then show ?thesis
      using out plain ec True call_args_3 [OF wf]
      by (cases f) (auto simp: plain_trap_def psci_outcome_def handle_psci_def forward_psci_def Let_def case_prod_beta)
  qed (use out call_args_3 [OF wf] in \<open>simp add: psci_outcome_def handle_psci_def\<close>)
qed (use call in \<open>simp add: handle_call_eq Let_def\<close>)

lemma plain_trap_keeps:
  assumes S: "arm_sysregs_ok (hd_sysregs H)" and run: "guest_running cap h rs" and plain: "plain_trap H (hv_core h) rs"
    and trap: "handle_sync_lower H pr rs h = Done (r, h')"
  shows "hv_suspend_contexts h' = hv_suspend_contexts h" and "hv_secondary_stacks h' = hv_secondary_stacks h"
    and "hv_core_calls h' = hv_core_calls h"
proof -
  have "hv_suspend_contexts h' = hv_suspend_contexts h \<and> hv_secondary_stacks h' = hv_secondary_stacks h \<and>
    hv_core_calls h' = hv_core_calls h"
  proof (cases "exception_class_from (EsrEl2_ec (hd_sysregs H) (cr_esr_el2 (hv_core h)))")
    case DataAbortLowerEL
    obtain config where conf: "hv_stage2_config h = Some config" "registry_inv (sc_memory_access_handlers config)"
      by (rule guest_runningE [OF run])
    obtain e s' where e: "emulation_of (sc_memory_access_handlers config)
        (trapped_access (hd_sysregs H) (hv_core h) rs) (hv_platform h) = (e, s')" by fastforce
    show ?thesis
      using trap unfolding handle_sync_lower_data_abort [OF S conf DataAbortLowerEL] Let_def e
      by (cases e) (auto split: if_splits option.splits)
  next
    case (Unknown v)
    then show ?thesis using trap by (simp add: handle_sync_lower_unknown)
  next
    case HvcTrappedInAArch64
    then show ?thesis
      using trap plain_call_keeps [OF S run plain, of r h'] by (simp add: handle_sync_lower_hvc)
  next
    case SmcTrappedInAArch64
    then obtain r' where "handle_call H rs h = Done (r', h')" using trap by (rule handle_sync_lower_smc_Done)
    then show ?thesis using plain_call_keeps [OF S run plain] SmcTrappedInAArch64 by simp
  qed
  then show "hv_suspend_contexts h' = hv_suspend_contexts h" "hv_secondary_stacks h' = hv_secondary_stacks h"
    "hv_core_calls h' = hv_core_calls h" by simp_all
qed

section \<open>The invariant holds\<close>

lemma machine_inv_maps:
  "machine_inv H cap n mpidr K m \<Longrightarrow> simple_map_inv cap (hv_suspend_contexts (m_hyp m))"
  "machine_inv H cap n mpidr K m \<Longrightarrow> simple_map_inv cap (hv_secondary_stacks (m_hyp m))"
  "machine_inv H cap n mpidr K m \<Longrightarrow> hyp_inv cap ((m_hyp m)\<lparr>hv_core := c\<rparr>)"
  by (simp_all add: machine_inv_def hyp_inv_def)

lemma cpu_on_inv:
  assumes inv: "machine_inv H cap n mpidr K m" and K: "target \<in> K"
    and on: "psci_cpu_on H target entry ((m_hyp m)\<lparr>hv_core := c\<rparr>) = Done (r, h)"
  shows "machine_inv H cap n mpidr K (m\<lparr>m_hyp := h\<rparr>)"
proof -
  obtain slot stacks w where get: "get_secondary_stack target (hv_secondary_stacks (m_hyp m)) = Done (slot, stacks)"
    and h: "h = (m_hyp m)\<lparr>hv_core := c, hv_secondary_stacks := stacks, hv_world := w,
      hv_core_calls := StartCore target (hd_stack_address H slot) # hv_core_calls (m_hyp m)\<rparr>"
    using on by (auto simp: psci_cpu_on_def start_core_def Let_def case_prod_beta)
  note got = get_secondary_stack_Done [OF machine_inv_maps(2) [OF inv] get]
  have "hyp_inv cap h" using machine_invD(1) [OF inv] got(1) by (simp add: h hyp_inv_def)
  moreover have "owns_stack H stacks call" if "call \<in> set (hv_core_calls h)" for call
    using that got(2) owns_stack_mono [OF machine_invD(7) [OF inv] got(3)] by (auto simp: h)
  moreover have "owns_stack H stacks (SuspendCore (mpidr i) sp)" if "i < n" "m_phase m i = HasStack entry sp" for i entry sp
    using that owns_stack_mono [OF machine_invD(6) [OF inv] got(3)] by blast
  ultimately show ?thesis
    unfolding machine_inv_def using machine_invD(2-5) [OF inv] got(4) K by (simp add: h)
qed

lemma save_inv:
  assumes inv: "machine_inv H cap n mpidr K m" and top: "topology n mpidr K" and i: "i < n" "cr_mpidr_el1 c = mpidr i"
    and save: "suspend_save_context entry ((m_hyp m)\<lparr>hv_core := c\<rparr>) = Done h"
  shows "machine_inv H cap n mpidr K (m\<lparr>m_hyp := h, m_phase := (m_phase m)(i := Saved entry)\<rparr>)"
proof -
  obtain slot ctx where ins: "simple_map_insert (hv_suspend_contexts (m_hyp m)) (mpidr i) (saved_context entry) = Done (slot, ctx)"
    and h: "h = (m_hyp m)\<lparr>hv_core := c, hv_suspend_contexts := ctx\<rparr>"
    using i(2) save by (auto simp: suspend_save_context_def saved_context_def Let_def)
  have "hyp_inv cap h" using suspend_save_context_keeps [OF machine_inv_maps(3) [OF inv] save] by simp
  then show ?thesis
    using simple_map.ins_look [OF machine_inv_maps(1) [OF inv] ins] machine_invD(2,5) [OF inv]
    by (intro machine_inv_step [OF inv top i(1)]) (auto simp: h)
qed

lemma stack_inv:
  assumes inv: "machine_inv H cap n mpidr K m" and top: "topology n mpidr K" and i: "i < n" "cr_mpidr_el1 c = mpidr i"
    and phase: "m_phase m i = Saved entry"
    and stack: "suspend_get_stack H ((m_hyp m)\<lparr>hv_core := c\<rparr>) = Done (sp, h)"
  shows "machine_inv H cap n mpidr K (m\<lparr>m_hyp := h, m_phase := (m_phase m)(i := HasStack entry sp)\<rparr>)"
proof -
  obtain slot stacks where get: "get_secondary_stack (mpidr i) (hv_secondary_stacks (m_hyp m)) = Done (slot, stacks)"
    and h: "h = (m_hyp m)\<lparr>hv_core := c, hv_secondary_stacks := stacks\<rparr>"
    and sp: "sp = stack_wrapping_add (hd_stack_address H slot) 1"
    using i(2) stack by (auto simp: suspend_get_stack_def)
  note got = get_secondary_stack_Done [OF machine_inv_maps(2) [OF inv] get]
  have "hyp_inv cap h" using suspend_get_stack_keeps [OF machine_inv_maps(3) [OF inv] stack] by simp
  moreover have "mpidr i \<in> K" using top i by (auto simp: topology_def)
  ultimately show ?thesis
    using got machine_invD(2,5) [OF inv] machine_invD(3) [OF inv i(1)] phase
    by (intro machine_inv_step [OF inv top i(1)]) (auto simp: h sp)
qed

lemma call_inv:
  assumes inv: "machine_inv H cap n mpidr K m" and top: "topology n mpidr K" and i: "i < n" "cr_mpidr_el1 c = mpidr i"
    and phase: "m_phase m i = HasStack entry sp" and call: "suspend_core H st sp ((m_hyp m)\<lparr>hv_core := c\<rparr>) = (r, h)"
  shows "machine_inv H cap n mpidr K
    (m\<lparr>m_hyp := h, m_phase := (m_phase m)(i := if r = None then Down entry else Returned entry)\<rparr>)"
proof -
  obtain w where h: "h = (m_hyp m)\<lparr>hv_core := c, hv_world := w, hv_core_calls := SuspendCore (mpidr i) sp # hv_core_calls (m_hyp m)\<rparr>"
    using suspend_core_Pair [OF call] i(2) by auto
  show ?thesis
    using machine_invD(1,2) [OF inv] machine_invD(6) [OF inv i(1) phase] phase
    by (intro machine_inv_same_maps [OF inv top i(1)]) (auto simp: h hyp_inv_def)
qed

lemma return_inv:
  assumes inv: "machine_inv H cap n mpidr K m" and top: "topology n mpidr K" and i: "i < n" "cr_mpidr_el1 c = mpidr i"
  shows "machine_inv H cap n mpidr K (m\<lparr>m_hyp := suspend_returned ((m_hyp m)\<lparr>hv_core := c\<rparr>),
    m_phase := (m_phase m)(i := InGuest)\<rparr>)"
proof -
  let ?h = "(m_hyp m)\<lparr>hv_core := c\<rparr>"
  have "hyp_inv cap (suspend_returned ?h)" using suspend_returned_keeps [of cap ?h] machine_invD(1) [OF inv] by simp
  moreover have "simple_map_lookup (hv_suspend_contexts (suspend_returned ?h)) =
      (simple_map_lookup (hv_suspend_contexts (m_hyp m)))(mpidr i := None)"
    using simple_map.del_look [OF machine_inv_maps(1) [OF inv]] i(2) by (simp add: suspend_returned_def)
  ultimately show ?thesis
    using machine_invD(2,5) [OF inv] by (intro machine_inv_step [OF inv top i(1)]) (auto simp: suspend_returned_def)
qed

text \<open>\<open>CPU_SUSPEND\<close> without interruption is those four steps in a row.\<close>

lemma hv_core_same: "hv_core h = c \<Longrightarrow> h\<lparr>hv_core := c\<rparr> = h"
  by (cases h) simp

lemma psci_cpu_suspend_steps:
  assumes "psci_cpu_suspend H st entry h = Done (r, h')"
  obtains h1 sp h2 h3 where "suspend_save_context entry h = Done h1" and "suspend_get_stack H h1 = Done (sp, h2)"
    and "suspend_core H st sp h2 = (r, h3)" and "h' = (if r = None then h3 else suspend_returned h3)"
    and "hv_core h1 = hv_core h" "hv_core h2 = hv_core h" "hv_core h3 = hv_core h"
proof -
  obtain h1 sp h2 where h1: "suspend_save_context entry h = Done h1" and h2: "suspend_get_stack H h1 = Done (sp, h2)"
    and h': "(r, h') = (let (r, h3) = suspend_core H st sp h2 in (r, if r = None then h3 else suspend_returned h3))"
    using assms by (auto simp: psci_cpu_suspend_def Let_def case_prod_beta split: option.splits)
  obtain h3 where h3: "suspend_core H st sp h2 = (r, h3)" using h' by (cases "suspend_core H st sp h2") simp
  have "hv_core h1 = hv_core h" using h1 by (auto simp: suspend_save_context_def Let_def)
  moreover have "hv_core h2 = hv_core h1" using h2 by (auto simp: suspend_get_stack_def)
  moreover have "hv_core h3 = hv_core h2" using suspend_core_Pair [OF h3] by auto
  ultimately show thesis using that [OF h1 h2 h3] h' h3 by simp
qed

lemma suspend_inv:
  assumes inv: "machine_inv H cap n mpidr K m" and top: "topology n mpidr K" and i: "i < n" "cr_mpidr_el1 c = mpidr i"
    and call: "psci_cpu_suspend H st entry ((m_hyp m)\<lparr>hv_core := c\<rparr>) = Done (r, h)"
  shows "machine_inv H cap n mpidr K
    (m\<lparr>m_hyp := h, m_phase := (m_phase m)(i := if r = None then Down entry else InGuest)\<rparr>)"
proof -
  obtain h1 sp h2 h3 where h1: "suspend_save_context entry ((m_hyp m)\<lparr>hv_core := c\<rparr>) = Done h1"
    and h2: "suspend_get_stack H h1 = Done (sp, h2)" and h3: "suspend_core H st sp h2 = (r, h3)"
    and h: "h = (if r = None then h3 else suspend_returned h3)" and core: "hv_core h1 = c" "hv_core h2 = c" "hv_core h3 = c"
    by (rule psci_cpu_suspend_steps [OF call]) (use that in simp)
  note m1 = save_inv [OF inv top i h1]
  note m2 = stack_inv [OF m1 top i, where entry = entry and sp = sp and h = h2, simplified, unfolded hv_core_same [OF core(1)], OF h2]
  note m3 = call_inv [OF m2 top i, where entry = entry and sp = sp and h = h3 and r = r, simplified,
      unfolded hv_core_same [OF core(2)], OF h3]
  show ?thesis
  proof (cases "r = None")
    case True
    then show ?thesis using m3 h by simp
  next
    case False
    then have "h = suspend_returned h3" using h by (simp only: if_False)
    then show ?thesis using False return_inv [OF m3 top i] by (auto simp: hv_core_same [OF core(3)])
  qed
qed

text \<open>What \<open>restore_from_suspend\<close> does for a core that is down.\<close>

lemma restore_from_suspend_down:
  assumes inv: "machine_inv H cap n mpidr K m" and i: "i < n" "cr_mpidr_el1 c = mpidr i" and down: "m_phase m i = Down entry"
  shows "restore_from_suspend H ((m_hyp m)\<lparr>hv_core := c\<rparr>) =
    entry_point_el1 H (context_id entry) 0 0 0 (entry_point_address entry)
      ((m_hyp m)\<lparr>hv_core := c, hv_suspend_contexts := snd (simple_map_remove (hv_suspend_contexts (m_hyp m)) (mpidr i))\<rparr>)"
proof -
  have "fst (simple_map_remove (hv_suspend_contexts (m_hyp m)) (mpidr i)) = Some (saved_context entry)"
    using simple_map.del_result [OF machine_inv_maps(1) [OF inv]] machine_invD(3) [OF inv i(1)] down by simp
  then show ?thesis using i(2) by (simp add: restore_from_suspend_def Let_def case_prod_beta saved_context_def)
qed

lemma resume_inv:
  assumes inv: "machine_inv H cap n mpidr K m" and top: "topology n mpidr K" and i: "i < n" "cr_mpidr_el1 c = mpidr i"
    and plat: "hyp_platform_ok H" and deps: "stage2_deps_ok (hd_stage2 H) maps" and down: "m_phase m i = Down entry"
    and resume: "restore_from_suspend H ((m_hyp m)\<lparr>hv_core := c\<rparr>) = Done (x, h)"
  shows "machine_inv H cap n mpidr K (m\<lparr>m_hyp := h, m_phase := (m_phase m)(i := InGuest)\<rparr>)"
proof -
  note smaps = machine_inv_maps(1) [OF inv]
  let ?h = "(m_hyp m)\<lparr>hv_core := c, hv_suspend_contexts := snd (simple_map_remove (hv_suspend_contexts (m_hyp m)) (mpidr i))\<rparr>"
  have enter: "entry_point_el1 H (context_id entry) 0 0 0 (entry_point_address entry) ?h = Done (x, h)"
    using resume unfolding restore_from_suspend_down [OF inv i down] .
  have "hyp_inv cap ?h"
    using machine_invD(1) [OF inv] simple_map.del_inv [OF smaps] by (simp add: hyp_inv_def)
  from entry_point_el1_statics [OF plat deps this enter] obtain config' where "hyp_inv cap h"
    and "hv_stage2_config h = Some config'" "hv_suspend_contexts h = hv_suspend_contexts ?h"
      "hv_secondary_stacks h = hv_secondary_stacks ?h" "hv_core_calls h = hv_core_calls ?h" by metis
  then show ?thesis
    using simple_map.del_look [OF smaps, of "mpidr i"] machine_invD(5) [OF inv]
    by (intro machine_inv_step [OF inv top i(1)]) auto
qed

lemma core_step_inv:
  assumes top: "topology n mpidr K" and S: "arm_sysregs_ok (hd_sysregs H)" and plat: "hyp_platform_ok H"
    and deps: "stage2_deps_ok (hd_stage2 H) maps"
    and inv: "machine_inv H cap n mpidr K m" and step: "core_step H pr n mpidr K i m m'"
  shows "machine_inv H cap n mpidr K m'"
  using step
proof cases
  case (step_trap c rs r h)
  have run: "guest_running cap ((m_hyp m)\<lparr>hv_core := c\<rparr>) rs"
    using machine_invD(1,2) [OF inv] step_trap(5) by (simp add: guest_running_def)
  have "hyp_inv cap h" "hv_stage2_config h \<noteq> None"
    using handle_sync_lower_running [OF S run step_trap(7)] machine_invD(2) [OF inv] by auto
  moreover have "hv_suspend_contexts h = hv_suspend_contexts (m_hyp m)" "hv_secondary_stacks h = hv_secondary_stacks (m_hyp m)"
    "hv_core_calls h = hv_core_calls (m_hyp m)"
    using plain_trap_keeps [OF S run _ step_trap(7)] step_trap(6) by auto
  ultimately show ?thesis
    unfolding step_trap(1) using step_trap(3) by (intro machine_inv_same_maps [OF inv top step_trap(2)]) auto
next
  case (step_start c entry x h)
  note enter = step_start(5) [unfolded started_core_def Let_def]
  from entry_point_el1_statics [OF plat deps machine_inv_maps(3) [OF inv] enter] obtain config' where "hyp_inv cap h"
    and "hv_stage2_config h = Some config'" "hv_suspend_contexts h = hv_suspend_contexts (m_hyp m)"
      "hv_secondary_stacks h = hv_secondary_stacks (m_hyp m)" "hv_core_calls h = hv_core_calls (m_hyp m)" by auto
  then show ?thesis
    unfolding step_start(1) using step_start(3) by (intro machine_inv_same_maps [OF inv top step_start(2)]) auto
next
  case (step_suspend c st entry r h)
  show ?thesis unfolding step_suspend(1) by (rule suspend_inv [OF inv top step_suspend(2,4,5)])
next
  case (step_call entry sp c st r h)
  show ?thesis unfolding step_call(1) by (rule call_inv [OF inv top step_call(2,4,3,5)])
qed (use assms in \<open>auto intro: cpu_on_inv save_inv stack_inv return_inv resume_inv\<close>)

lemma machine_reachable_inv:
  assumes "machine_reachable H pr cap n mpidr K m" and top: "topology n mpidr K" and S: "arm_sysregs_ok (hd_sysregs H)"
    and plat: "hyp_platform_ok H" and deps: "stage2_deps_ok (hd_stage2 H) maps"
  shows "machine_inv H cap n mpidr K m"
  using assms(1)
proof induction
  case (reach_boot a0 a1 a2 a3 e c s w x h)
  from entry_point_el1_statics [OF plat deps hyp_init_inv reach_boot] obtain config' where "hyp_inv cap h"
    and "hv_stage2_config h = Some config'" and "hv_suspend_contexts h = simple_map_new cap"
      "hv_secondary_stacks h = simple_map_new cap" "hv_core_calls h = []" by (auto simp: hyp_init_def)
  then show ?case by (simp add: machine_inv_def simple_map_new_lookup)
next
  case (reach_core m i m')
  then show ?case using core_step_inv [OF top S plat deps] by blast
qed

section \<open>Progress\<close>

lemma save_total:
  assumes inv: "machine_inv H cap n mpidr K m" and top: "topology n mpidr K" and K: "finite K" "card K \<le> cap"
    and i: "i < n" "cr_mpidr_el1 c = mpidr i"
  shows "\<exists>h. suspend_save_context entry ((m_hyp m)\<lparr>hv_core := c\<rparr>) = Done h"
proof -
  have "card (mpidr ` {..<n}) \<le> cap"
    using top K card_mono [of K "mpidr ` {..<n}"] by (simp add: topology_def)
  then have "\<exists>j ctx. simple_map_insert (hv_suspend_contexts (m_hyp m)) (mpidr i) v = Done (j, ctx)" for v
    using i by (intro simple_map.ins_within [OF machine_inv_maps(1) [OF inv] _ _ machine_invD(4) [OF inv]]) auto
  then show ?thesis
    using i(2) by (fastforce simp: suspend_save_context_def Let_def)
qed

lemma get_stack_total:
  assumes inv: "machine_inv H cap n mpidr K m" and K: "finite K" "card K \<le> cap" "k \<in> K"
  shows "\<exists>stack stacks. get_secondary_stack k (hv_secondary_stacks (m_hyp m)) = Done (stack, stacks)"
  using simple_map.ins_within [OF machine_inv_maps(2) [OF inv] K(1,2) machine_invD(5) [OF inv] K(3)]
  by (auto simp: get_secondary_stack_def split: option.split)

lemma stack_total:
  assumes inv: "machine_inv H cap n mpidr K m" and top: "topology n mpidr K" and K: "finite K" "card K \<le> cap"
    and i: "i < n" "cr_mpidr_el1 c = mpidr i"
  shows "\<exists>sp h. suspend_get_stack H ((m_hyp m)\<lparr>hv_core := c\<rparr>) = Done (sp, h)"
proof -
  have "mpidr i \<in> K" using top i by (auto simp: topology_def)
  then show ?thesis using get_stack_total [OF inv K] i(2) by (fastforce simp: suspend_get_stack_def)
qed

lemma cpu_on_total:
  assumes inv: "machine_inv H cap n mpidr K m" and K: "finite K" "card K \<le> cap" "target \<in> K"
  shows "\<exists>r h. psci_cpu_on H target entry ((m_hyp m)\<lparr>hv_core := c\<rparr>) = Done (r, h)"
proof -
  obtain stack stacks where "get_secondary_stack target (hv_secondary_stacks (m_hyp m)) = Done (stack, stacks)"
    using get_stack_total [OF inv K] by blast
  then show ?thesis by (simp add: psci_cpu_on_def Let_def case_prod_beta)
qed

lemma enter_total:
  assumes "arm_sysregs_ok (hd_sysregs H)" and "activate_ok H root" and "hv_stage2_config h \<noteq> None"
  shows "\<exists>h'. entry_point_el1 H a0 0 0 0 e h = Done (ExceptionReturn, h') \<and> cr_elr_el2 (hv_core h') = e \<and>
     cpu_x (cr_cpu (hv_core h')) 0 = a0"
proof -
  obtain config where "hv_stage2_config h = Some config" using assms(3) by blast
  then have "stage2_config H h = Done (config, h)" by (rule stage2_config_configured)
  from guest_entry [OF assms(1,2) this, of a0 0 0 0 e] show ?thesis by (auto simp: Let_def)
qed

lemma resume_total:
  assumes "arm_sysregs_ok (hd_sysregs H)" and "activate_ok H root" and inv: "machine_inv H cap n mpidr K m"
    and "i < n" "cr_mpidr_el1 c = mpidr i" "m_phase m i = Down entry"
  shows "\<exists>h'. restore_from_suspend H ((m_hyp m)\<lparr>hv_core := c\<rparr>) = Done (ExceptionReturn, h') \<and>
     cr_elr_el2 (hv_core h') = entry_point_address entry \<and> cpu_x (cr_cpu (hv_core h')) 0 = context_id entry"
  unfolding restore_from_suspend_down [OF assms(3-6)]
  using machine_invD(2) [OF inv] by (intro enter_total [OF assms(1,2)]) simp

lemma suspend_total:
  assumes inv: "machine_inv H cap n mpidr K m" and top: "topology n mpidr K" and K: "finite K" "card K \<le> cap"
    and i: "i < n" "cr_mpidr_el1 c = mpidr i"
  shows "\<exists>r h. psci_cpu_suspend H st entry ((m_hyp m)\<lparr>hv_core := c\<rparr>) = Done (r, h)"
proof -
  obtain h where h: "suspend_save_context entry ((m_hyp m)\<lparr>hv_core := c\<rparr>) = Done h"
    using save_total [OF assms] by blast
  then have "hv_secondary_stacks h = hv_secondary_stacks (m_hyp m)" "hv_core h = c"
    by (auto simp: suspend_save_context_def Let_def)
  moreover obtain stack stacks where "get_secondary_stack (mpidr i) (hv_secondary_stacks (m_hyp m)) = Done (stack, stacks)"
    using get_stack_total [OF inv K, of "mpidr i"] top i(1) by (auto simp: topology_def)
  ultimately show ?thesis
    using i(2) h by (simp add: psci_cpu_suspend_def suspend_get_stack_def Let_def case_prod_beta split: option.split)
qed

section \<open>An example machine\<close>

text \<open>
  Two cores whose \<open>MPIDR_EL1\<close> has the reserved bit 31 set; the second is started, without that bit,
  as core 1. Then the first powers down.
\<close>

definition two_cores :: "nat \<Rightarrow> u64" where
  "two_cores i = 0x80000000 OR of_nat i"

definition two_core_ids :: "u64 set" where
  "two_core_ids = {0x80000000, 0x80000001, 1}"

abbreviation two_core_reachable where
  "two_core_reachable \<equiv> machine_reachable example_hyp_deps Dev 8 2 two_cores two_core_ids"

lemma two_cores_topology: "topology 2 two_cores two_core_ids" "finite two_core_ids" "card two_core_ids \<le> 8"
proof -
  have "{..<2 :: nat} = {0, 1}" by auto
  then show "topology 2 two_cores two_core_ids" by (simp add: topology_def two_cores_def two_core_ids_def)
qed (simp_all add: two_core_ids_def)

lemmas two_core_inv = machine_reachable_inv [OF _ two_cores_topology(1) example_hyp_deps_ok(1,4,2)]

lemma example_mpidr: "cr_mpidr_el1 example_core = two_cores 0"
  by (simp add: example_core_def two_cores_def)

lemma example_cpu_on:
  "\<exists>m stack. two_core_reachable m \<and> m_phase m 0 = InGuest \<and> hv_core_calls (m_hyp m) = [StartCore 1 stack]"
proof -
  obtain h where enter: "entry_point_el1 example_hyp_deps 0 0 0 0 0x40200000 (hyp_init 8 example_core 0 ()) =
      Done (ExceptionReturn, h)"
    using example_enters ..
  then have boot: "two_core_reachable \<lparr>m_hyp = h, m_phase = (\<lambda>_. Off)(0 := InGuest)\<rparr>"
    (is "two_core_reachable ?m") by (rule reach_boot)
  have "hv_core_calls h = []"
    by (rule entry_point_el1_statics [OF example_hyp_deps_ok(4,2) hyp_init_inv enter]) (simp add: hyp_init_def)
  have K: "1 \<in> two_core_ids" by (simp add: two_core_ids_def)
  obtain r h' where on: "psci_cpu_on example_hyp_deps 1 \<lparr>entry_point_address = 0x40200000, context_id = 7\<rparr>
      ((m_hyp ?m)\<lparr>hv_core := example_core\<rparr>) = Done (r, h')"
    using cpu_on_total [OF two_core_inv [OF boot] two_cores_topology(2,3) K] by blast
  then obtain stack where "hv_core_calls h' = [StartCore 1 stack]"
    using \<open>hv_core_calls h = []\<close> by (auto simp: psci_cpu_on_def start_core_def Let_def case_prod_beta)
  moreover have "core_step example_hyp_deps Dev 2 two_cores two_core_ids 0 ?m (?m\<lparr>m_hyp := h'\<rparr>)"
    using step_cpu_on [where mpidr = two_cores, OF _ _ example_mpidr K on] by simp
  ultimately show ?thesis using reach_core [OF boot] by force
qed

lemma example_down:
  "\<exists>m stack sp. two_core_reachable m \<and> hv_core_calls (m_hyp m) = [SuspendCore 0x80000000 sp, StartCore 1 stack] \<and>
     m_phase m 0 = Down \<lparr>entry_point_address = 0x40300000, context_id = 9\<rparr>"
proof -
  let ?e = "\<lparr>entry_point_address = 0x40300000, context_id = 9\<rparr>" and ?st = "0x10000 :: u32"
  obtain m stack where m: "two_core_reachable m" "m_phase m 0 = InGuest" "hv_core_calls (m_hyp m) = [StartCore 1 stack]"
    using example_cpu_on by blast
  obtain r h where call: "psci_cpu_suspend example_hyp_deps ?st ?e ((m_hyp m)\<lparr>hv_core := example_core\<rparr>) = Done (r, h)"
    using suspend_total [OF two_core_inv [OF m(1)] two_cores_topology _ example_mpidr, of ?st ?e] by auto
  obtain h1 sp h2 h3 where h1: "suspend_save_context ?e ((m_hyp m)\<lparr>hv_core := example_core\<rparr>) = Done h1"
    and h2: "suspend_get_stack example_hyp_deps h1 = Done (sp, h2)" and h3: "suspend_core example_hyp_deps ?st sp h2 = (r, h3)"
    and h: "h = (if r = None then h3 else suspend_returned h3)" and core: "hv_core h2 = example_core"
    by (rule psci_cpu_suspend_steps [OF call]) (use that in simp)
  have r: "r = None" using h3 by (simp add: suspend_core_def example_hyp_deps_def bit_simps)
  have "hv_core_calls h2 = hv_core_calls (m_hyp m)"
    using h1 h2 by (auto simp: suspend_save_context_def suspend_get_stack_def Let_def)
  then have "hv_core_calls h = [SuspendCore 0x80000000 sp, StartCore 1 stack]"
    using suspend_core_Pair [OF h3] h r core m(3) by (auto simp: example_core_def)
  moreover have "core_step example_hyp_deps Dev 2 two_cores two_core_ids 0 m (m\<lparr>m_hyp := h, m_phase := (m_phase m)(0 := Down ?e)\<rparr>)"
    using step_suspend [where mpidr = two_cores, OF _ m(2) example_mpidr call, of 2 Dev two_core_ids] r by simp
  ultimately show ?thesis using reach_core [OF m(1)] by force
qed

text \<open>Where the stacks of the example are.\<close>

lemma example_stack_address: "k < 8 \<Longrightarrow> unat (hd_stack_address example_hyp_deps k) = 0x47301000 + 0x5000 * k"
  by (simp add: example_hyp_deps_def unat_word_ariths unat_of_nat)

section \<open>Properties\<close>

text \<open>
  C6: A core that powered down resumes where its guest asked. In every state the cores can reach
  together, \<open>restore_from_suspend\<close> on a core that is down finds its context, whatever the other
  cores saved or removed in between, and enters the guest at the entry point and with the
  context identifier that this core passed to \<open>CPU_SUSPEND\<close>.
\<close>

theorem suspended_core_resumes:
  assumes "machine_reachable H pr cap n mpidr K m" and "topology n mpidr K" and "arm_sysregs_ok (hd_sysregs H)"
    and "hyp_platform_ok H" and "stage2_deps_ok (hd_stage2 H) maps" and "activate_ok H root"
    and "i < n" and "m_phase m i = Down entry" and "cr_mpidr_el1 c = mpidr i"
  shows "\<exists>h'. restore_from_suspend H ((m_hyp m)\<lparr>hv_core := c\<rparr>) = Done (ExceptionReturn, h') \<and>
     cr_elr_el2 (hv_core h') = entry_point_address entry \<and> cpu_x (cr_cpu (hv_core h')) 0 = context_id entry \<and>
     core_step H pr n mpidr K i m (m\<lparr>m_hyp := h', m_phase := (m_phase m)(i := InGuest)\<rparr>)"
proof -
  note inv = machine_reachable_inv [OF assms(1-5)]
  from resume_total [OF assms(3,6) inv assms(7,9,8)] show ?thesis
    using step_resume [where mpidr = mpidr, OF assms(7-9)] by blast
qed

theorem suspended_core_resumes_witness:
  "\<exists>m h'. two_core_reachable m \<and>
     restore_from_suspend example_hyp_deps ((m_hyp m)\<lparr>hv_core := example_core\<rparr>) = Done (ExceptionReturn, h') \<and>
     cr_elr_el2 (hv_core h') = 0x40300000 \<and> cpu_x (cr_cpu (hv_core h')) 0 = 9"
proof -
  obtain m where m: "two_core_reachable m" "m_phase m 0 = Down \<lparr>entry_point_address = 0x40300000, context_id = 9\<rparr>"
    using example_down by blast
  from suspended_core_resumes [OF m(1) two_cores_topology(1) example_hyp_deps_ok(1,4,2,5) _ m(2) example_mpidr]
  show ?thesis using m(1) by auto
qed

text \<open>
  C12: No core gets stuck. As long as the identifiers used with \<open>CPU_ON\<close> and those of the cores
  themselves are at most as many as the slots, \<open>CPU_ON\<close> and \<open>CPU_SUSPEND\<close> never panic in any
  interleaving, and every core can always take a step.
\<close>

theorem cores_never_stuck:
  assumes "machine_reachable H pr cap n mpidr K m" and "topology n mpidr K" and "arm_sysregs_ok (hd_sysregs H)"
    and "hyp_platform_ok H" and "stage2_deps_ok (hd_stage2 H) maps" and "activate_ok H root"
    and "finite K" and "card K \<le> cap" and "i < n" and "cr_mpidr_el1 c = mpidr i"
  shows "(\<exists>m'. core_step H pr n mpidr K i m m') \<and>
    (\<forall>target\<in>K. \<forall>entry. \<exists>r h. psci_cpu_on H target entry ((m_hyp m)\<lparr>hv_core := c\<rparr>) = Done (r, h)) \<and>
    (\<forall>st entry. \<exists>r h. psci_cpu_suspend H st entry ((m_hyp m)\<lparr>hv_core := c\<rparr>) = Done (r, h))"
proof (intro conjI)
  note inv = machine_reachable_inv [OF assms(1-5)]
  note save = save_total [OF inv assms(2,7-10)] and stack = stack_total [OF inv assms(2,7-10)]
  show "\<exists>m'. core_step H pr n mpidr K i m m'"
  proof (cases "m_phase m i")
    case Off
    have "\<exists>h. started_core H entry ((m_hyp m)\<lparr>hv_core := c\<rparr>) = Done (ExceptionReturn, h)" for entry
      using enter_total [OF assms(3,6), of "(m_hyp m)\<lparr>hv_core := c\<rparr>"] machine_invD(2) [OF inv]
      by (auto simp: started_core_def Let_def)
    then show ?thesis using step_start [where mpidr = mpidr, OF assms(9) Off assms(10)] by blast
  next
    case InGuest
    then show ?thesis using save step_save [where mpidr = mpidr, OF assms(9) InGuest assms(10)] by blast
  next
    case (Saved entry)
    then show ?thesis using stack step_stack [where mpidr = mpidr, OF assms(9) Saved assms(10)] by blast
  next
    case (HasStack entry sp)
    obtain r h where "suspend_core H 0 sp ((m_hyp m)\<lparr>hv_core := c\<rparr>) = (r, h)" by fastforce
    then show ?thesis using step_call [where mpidr = mpidr, OF assms(9) HasStack assms(10)] by blast
  next
    case (Returned entry)
    then show ?thesis using step_return [where mpidr = mpidr, OF assms(9) Returned assms(10)] by blast
  next
    case (Down entry)
    then show ?thesis
      using resume_total [OF assms(3,6) inv assms(9,10) Down] step_resume [where mpidr = mpidr, OF assms(9) Down assms(10)] by blast
  qed
  show "\<forall>target\<in>K. \<forall>entry. \<exists>r h. psci_cpu_on H target entry ((m_hyp m)\<lparr>hv_core := c\<rparr>) = Done (r, h)"
    using cpu_on_total [OF inv assms(7,8)] by blast
  show "\<forall>st entry. \<exists>r h. psci_cpu_suspend H st entry ((m_hyp m)\<lparr>hv_core := c\<rparr>) = Done (r, h)"
    using suspend_total [OF inv assms(2,7-10)] by blast
qed

theorem cores_never_stuck_witness:
  "\<exists>m m'. two_core_reachable m \<and> core_step example_hyp_deps Dev 2 two_cores two_core_ids 0 m m'"
proof -
  obtain m where m: "two_core_reachable m" using example_cpu_on by blast
  from cores_never_stuck [OF m two_cores_topology(1) example_hyp_deps_ok(1,4,2,5) two_cores_topology(2,3) _ example_mpidr]
  show ?thesis using m by auto
qed

text \<open>
  The stacks lie in the map's slots, which do not overlap; a stack is 4 pages. The bytes a call
  hands out: \<open>start_core\<close> gets a pointer to the stack, \<open>suspend_core\<close> the end of it, from where the
  stack grows downwards.
\<close>

definition stack_layout_ok :: "('s, 'idmap, 'me, 'attr, 'e, 'w) hyp_deps \<Rightarrow> nat \<Rightarrow> bool" where
  "stack_layout_ok H cap \<longleftrightarrow>
     (\<forall>k<cap. unat (hd_stack_address H k) + 0x4000 < 2 ^ 64) \<and>
     (\<forall>j<cap. \<forall>k<cap. j \<noteq> k \<longrightarrow>
        unat (hd_stack_address H j) + 0x4000 \<le> unat (hd_stack_address H k) \<or>
        unat (hd_stack_address H k) + 0x4000 \<le> unat (hd_stack_address H j))"

fun call_core :: "core_call \<Rightarrow> u64" where
  "call_core (StartCore k _) = k"
| "call_core (SuspendCore k _) = k"

fun call_stack :: "core_call \<Rightarrow> nat set" where
  "call_stack (StartCore _ stack) = {unat stack ..< unat stack + 0x4000}"
| "call_stack (SuspendCore _ stack_ptr) = {unat stack_ptr - 0x4000 ..< unat stack_ptr}"

lemma owned_stack:
  assumes "owns_stack H stacks call" and "simple_map_inv cap stacks" and "stack_layout_ok H cap"
  obtains slot where "slot < cap" and "simple_map_get_mut stacks (call_core call) = Some slot"
    and "call_stack call = {unat (hd_stack_address H slot) ..< unat (hd_stack_address H slot) + 0x4000}"
proof -
  obtain slot where slot: "simple_map_get_mut stacks (call_core call) = Some slot"
    and "case call of StartCore k p \<Rightarrow> p = hd_stack_address H slot
         | SuspendCore k p \<Rightarrow> p = stack_wrapping_add (hd_stack_address H slot) 1"
    using assms(1) by (cases call) auto
  moreover have "slot < cap" by (rule simple_map.get_bound [OF assms(2) slot])
  moreover have "unat (hd_stack_address H slot) + unat (0x4000 :: usize) < 2 ^ LENGTH(64)"
    using assms(3) calculation(3) by (simp add: stack_layout_ok_def)
  then have "unat (stack_wrapping_add (hd_stack_address H slot) 1) = unat (hd_stack_address H slot) + 0x4000"
    unfolding stack_wrapping_add_def SECONDARY_STACK_PAGE_COUNT_def PAGE_SIZE_def
    by (simp add: unat_plus_no_overflow)
  ultimately show thesis using that by (cases call) auto
qed

text \<open>
  C13: Stacks are never shared. In every state the cores can reach together, take any two calls of
  \<open>start_core\<close> and \<open>suspend_core\<close> made so far. The 16 KiB of stack that each hands to the core it
  starts or resumes (upwards from the pointer that \<open>CPU_ON\<close> passes, downwards from the one that
  \<open>CPU_SUSPEND\<close> passes) are exactly the stack in one of the map's slots; they are the same stack if
  both calls are for the same core identifier and do not overlap otherwise, so no two cores ever
  run on overlapping stacks. A core is identified by the \<open>CPU_ON\<close> target or by all bits of
  \<open>MPIDR_EL1\<close>: a core started under a target that differs from its \<open>MPIDR_EL1\<close>, in a reserved bit
  for example, takes a second slot when it suspends. The compiler is assumed to have laid the
  slots out without overlap (\<open>stack_layout_ok\<close>).
\<close>

theorem stacks_never_shared:
  assumes "machine_reachable H pr cap n mpidr K m" and "topology n mpidr K" and "arm_sysregs_ok (hd_sysregs H)"
    and "hyp_platform_ok H" and "stage2_deps_ok (hd_stage2 H) maps" and "stack_layout_ok H cap"
    and "a \<in> set (hv_core_calls (m_hyp m))" and "b \<in> set (hv_core_calls (m_hyp m))"
  shows "(\<exists>slot<cap. simple_map_get_mut (hv_secondary_stacks (m_hyp m)) (call_core a) = Some slot \<and>
       call_stack a = {unat (hd_stack_address H slot) ..< unat (hd_stack_address H slot) + 0x4000}) \<and>
     (if call_core a = call_core b then call_stack a = call_stack b else call_stack a \<inter> call_stack b = {})"
proof -
  note inv = machine_reachable_inv [OF assms(1-5)]
  note smap = machine_inv_maps(2) [OF inv]
  obtain j where j: "j < cap" "simple_map_get_mut (hv_secondary_stacks (m_hyp m)) (call_core a) = Some j"
    "call_stack a = {unat (hd_stack_address H j) ..< unat (hd_stack_address H j) + 0x4000}"
    by (rule owned_stack [OF machine_invD(7) [OF inv assms(7)] smap assms(6)])
  obtain k where k: "k < cap" "simple_map_get_mut (hv_secondary_stacks (m_hyp m)) (call_core b) = Some k"
    "call_stack b = {unat (hd_stack_address H k) ..< unat (hd_stack_address H k) + 0x4000}"
    by (rule owned_stack [OF machine_invD(7) [OF inv assms(8)] smap assms(6)])
  show ?thesis
  proof (cases "call_core a = call_core b")
    case True
    then show ?thesis using j k by auto
  next
    case False
    then have "j \<noteq> k" using simple_map.get_inj [OF smap] j(2) k(2) by blast
    then have "unat (hd_stack_address H j) + 0x4000 \<le> unat (hd_stack_address H k) \<or>
        unat (hd_stack_address H k) + 0x4000 \<le> unat (hd_stack_address H j)"
      using assms(6) j(1) k(1) by (simp add: stack_layout_ok_def)
    then show ?thesis using False j k by auto
  qed
qed

theorem stacks_never_shared_witness:
  "\<exists>m stack sp. two_core_reachable m \<and> hv_core_calls (m_hyp m) = [SuspendCore 0x80000000 sp, StartCore 1 stack] \<and>
     call_stack (SuspendCore 0x80000000 sp) \<inter> call_stack (StartCore 1 stack) = {}"
proof -
  obtain m stack sp where m: "two_core_reachable m" "hv_core_calls (m_hyp m) = [SuspendCore 0x80000000 sp, StartCore 1 stack]"
    using example_down by blast
  have "stack_layout_ok example_hyp_deps 8"
    unfolding stack_layout_ok_def by (auto simp: example_stack_address)
  from stacks_never_shared [OF m(1) two_cores_topology(1) example_hyp_deps_ok(1,4,2) this, of "SuspendCore 0x80000000 sp" "StartCore 1 stack"]
  show ?thesis using m by auto
qed

end
