(* ===== verification/Console_Log.thy ===== *)
theory Console_Log
  imports Prelude
begin

text \<open>
  The shared console, the logger and the panic handler (\<open>src/src/console.rs\<close>, \<open>src/src/logger.rs\<close>).
  Parameters: the console driver, that is \<open>write\<close> and \<open>flush\<close> of its \<open>embedded_io\<close> implementation
  and \<open>writeln!\<close> on it; \<open>log\<close>'s global logger; the PSCI call \<open>system_off\<close>, whose result is
  \<open>None\<close> when it does not return; and the text of a panic, which names a source location and may
  print an error of a crate.

  Exceptions are masked while the console's mutex is held, so a core that finds it locked by
  another core only waits. The model's lock flag is set when nobody will ever release it: a
  core that then asks for the lock spins for ever, which is the result \<open>None\<close>.
\<close>

section \<open>Console\<close>

record ('con, 'ce) driver =
  drv_write :: "'con \<Rightarrow> u8 list \<Rightarrow> ('ce + usize) \<times> 'con"
  drv_flush :: "'con \<Rightarrow> ('ce + unit) \<times> 'con"
  drv_write_line :: "'con \<Rightarrow> string \<Rightarrow> ('ce + unit) \<times> 'con"

record 'con Console =
  console_locked :: bool
  console_console :: 'con

text \<open>\<open>exception_free\<close> around a use of the locked driver; the guard is dropped afterwards.\<close>

definition with_lock :: "'con Console \<Rightarrow> ('con \<Rightarrow> 'r \<times> 'con) \<Rightarrow> ('r \<times> 'con Console) option" where
  "with_lock self f =
     (if console_locked self then None
      else (let (result, con) = f (console_console self) in Some (result, self\<lparr>console_console := con\<rparr>)))"

definition console_write ::
  "('con, 'ce) driver \<Rightarrow> 'con Console \<Rightarrow> u8 list \<Rightarrow> (('ce + usize) \<times> 'con Console) option" where
  "console_write D self buf = with_lock self (\<lambda>console. drv_write D console buf)"

definition console_flush :: "('con, 'ce) driver \<Rightarrow> 'con Console \<Rightarrow> (('ce + unit) \<times> 'con Console) option" where
  "console_flush D self = with_lock self (\<lambda>console. drv_flush D console)"

text \<open>\<open>init\<close>: \<open>call_once\<close> on the static \<open>CONSOLE\<close>.\<close>

definition console_init :: "'con \<Rightarrow> 'con Console option \<Rightarrow> 'con Console \<times> 'con Console option" where
  "console_init console CONSOLE =
     (case CONSOLE of
        Some existing \<Rightarrow> (existing, CONSOLE)
      | None \<Rightarrow> (let created = \<lparr>console_locked = False, console_console = console\<rparr> in (created, Some created)))"

section \<open>Logger\<close>

text \<open>
  The levels of \<open>log\<close> that the code uses above its own limit. \<open>log_passes\<close> is the test the macros
  \<open>info!\<close> and \<open>warn!\<close> make before they call the registered logger.
\<close>

datatype Level = Warn | Info

fun level_name :: "Level \<Rightarrow> string" where
  "level_name Warn = ''WARN''"
| "level_name Info = ''INFO''"

record ('con, 'lg, 'lv, 'le) log_crate =
  log_passes :: "'lg \<Rightarrow> Level \<Rightarrow> bool"
  log_set_logger :: "'lg \<Rightarrow> 'con Console \<Rightarrow> ('le + unit) \<times> 'lg"
  log_set_max_level :: "'lg \<Rightarrow> 'lv \<Rightarrow> 'lg"
  log_LevelFilter_Info :: 'lv

definition log_enabled :: "'con Console \<Rightarrow> 'metadata \<Rightarrow> bool" where
  "log_enabled self metadata = True"

text \<open>
  \<open>log\<close>. A panic does not unwind: it enters the panic handler in the middle of \<open>log\<close>, whose guard is
  then never dropped.
\<close>

definition log_record ::
  "('con, 'ce) driver \<Rightarrow> 'con Console \<Rightarrow> string \<Rightarrow> string \<Rightarrow> (unit outcome \<times> 'con Console) option" where
  "log_record D self level args =
     (if console_locked self then None
      else (let (result, con) = drv_write_line D (console_console self) (''['' @ level @ ''] '' @ args);
                self = self\<lparr>console_locked := True, console_console := con\<rparr>
            in case expect_ok ''writeln failed'' result of
                 Panicked m \<Rightarrow> Some (Panicked m, self)
               | Done _ \<Rightarrow> Some (Done (), self\<lparr>console_locked := False\<rparr>)))"

definition log_flush :: "'con Console \<Rightarrow> 'con Console" where
  "log_flush self = self"

definition logger_init ::
  "('con, 'lg, 'lv, 'le) log_crate \<Rightarrow> 'con Console \<Rightarrow> 'lv \<Rightarrow> 'lg \<Rightarrow> ('le + unit) \<times> 'lg" where
  "logger_init L console max_level lg =
     (let (result, lg) = log_set_logger L lg console
      in case result of Inl e \<Rightarrow> (Inl e, lg) | Inr _ \<Rightarrow> (Inr (), log_set_max_level L lg max_level))"

text \<open>
  A logging macro. The logger that RITM registers is the shared console; before it is, \<open>log\<close>
  discards the message.
\<close>

definition log_message ::
  "('con, 'ce) driver \<Rightarrow> ('con, 'lg, 'lv, 'le) log_crate \<Rightarrow> Level \<Rightarrow> string \<Rightarrow> 'lg \<Rightarrow> 'con Console option \<Rightarrow>
   (unit outcome \<times> 'con Console option) option" where
  "log_message D L level args lg CONSOLE =
     (case CONSOLE of
        None \<Rightarrow> Some (Done (), None)
      | Some console \<Rightarrow>
          if log_passes L lg level
          then map_option (\<lambda>(result, console). (result, Some console)) (log_record D console (level_name level) args)
          else Some (Done (), CONSOLE))"

section \<open>Code that logs and may panic\<close>

text \<open>
  Such code changes a state and ends with a result or in a panic; if it waits for a lock that
  is never released, it does not end. A panic keeps the state in which the handler starts.
\<close>

type_synonym ('a, 'st) action = "'st \<Rightarrow> ('a outcome \<times> 'st) option"

definition lift_outcome :: "'a outcome \<Rightarrow> ('a, 'st) action" where
  "lift_outcome r st = Some (r, st)"

definition before :: "('a, 'st) action \<Rightarrow> ('a \<Rightarrow> ('b, 'st) action) \<Rightarrow> ('b, 'st) action" where
  "before m f st =
     (case m st of
        None \<Rightarrow> None
      | Some (Panicked p, st) \<Rightarrow> Some (Panicked p, st)
      | Some (Done x, st) \<Rightarrow> f x st)"

lemma before_lift_outcome [simp]:
  "before (lift_outcome (Done x)) f st = f x st"
  "before (lift_outcome (Panicked p)) f st = Some (Panicked p, st)"
  by (simp_all add: before_def lift_outcome_def)

lemma before_Done: "m st = Some (Done x, st') \<Longrightarrow> before m f st = f x st'"
  by (simp add: before_def)

text \<open>\<open>P\<close> holds of the state throughout, so also when the action ends, and it does end.\<close>

definition ends_with :: "('a, 'st) action \<Rightarrow> ('st \<Rightarrow> bool) \<Rightarrow> bool" where
  "ends_with m P \<longleftrightarrow> (\<forall>st. P st \<longrightarrow> (\<exists>r st'. m st = Some (r, st') \<and> P st'))"

lemma ends_withE:
  assumes "ends_with m P" and "P st"
  obtains r st' where "m st = Some (r, st')" and "P st'"
  using assms unfolding ends_with_def by blast

lemma ends_with_lift_outcome: "ends_with (lift_outcome r) P"
  by (simp add: ends_with_def lift_outcome_def)

lemma ends_with_before:
  assumes "ends_with m P" and "\<And>x. ends_with (f x) P"
  shows "ends_with (before m f) P"
  unfolding ends_with_def
proof (intro allI impI)
  fix st assume "P st"
  then obtain r st' where m: "m st = Some (r, st')" "P st'" by (rule ends_withE [OF assms(1)])
  then show "\<exists>r st''. before m f st = Some (r, st'') \<and> P st''"
    using assms(2) unfolding ends_with_def by (cases r) (simp_all add: before_def)
qed

lemma ends_with_state: "(\<And>s. ends_with (f s) P) \<Longrightarrow> ends_with (\<lambda>st. f st st) P"
  by (simp add: ends_with_def)

section \<open>The panic handler\<close>

text \<open>
  The handler never returns to the code that panicked. It ends when the machine is off, or in its
  final \<open>loop {}\<close> when the call reports success; if the call fails, \<open>expect\<close> panics, and the handler
  is entered again. The result \<open>None\<close> is the run that does not end.
\<close>

datatype panic_end = PoweredOff | Looping

record ('w, 'se) panic_deps =
  pd_system_off :: "'w \<Rightarrow> ('se + unit) option \<times> 'w"
  pd_expect_info :: "string \<Rightarrow> 'se \<Rightarrow> string"
  pd_panic_info :: "string \<Rightarrow> string"

definition panic_print :: "('con, 'ce) driver \<Rightarrow> 'con Console option \<Rightarrow> string \<Rightarrow> 'con Console option option" where
  "panic_print D CONSOLE info =
     (case CONSOLE of
        None \<Rightarrow> Some None
      | Some console \<Rightarrow> map_option (\<lambda>(_, console). Some console) (with_lock console (\<lambda>con. drv_write_line D con info)))"

partial_function (option) panic_handler ::
  "('con, 'ce) driver \<Rightarrow> ('w, 'se) panic_deps \<Rightarrow> 'con Console option \<Rightarrow> string \<Rightarrow> 'w \<Rightarrow>
   (panic_end \<times> 'con Console option \<times> 'w) option" where
  "panic_handler D S CONSOLE info w =
     Option.bind (panic_print D CONSOLE info) (\<lambda>CONSOLE.
     (let (result, w) = pd_system_off S w
      in case result of
           None \<Rightarrow> Some (PoweredOff, CONSOLE, w)
         | Some r \<Rightarrow>
             (case r of
                Inr _ \<Rightarrow> Some (Looping, CONSOLE, w)
              | Inl e \<Rightarrow> panic_handler D S CONSOLE (pd_expect_info S ''system_off failed'' e) w)))"

section \<open>Lemmas\<close>

definition console_free :: "'con Console option \<Rightarrow> bool" where
  "console_free CONSOLE \<longleftrightarrow> (\<forall>console. CONSOLE = Some console \<longrightarrow> \<not> console_locked console)"

lemma console_free_simps [simp]: "console_free None" "console_free (Some c) \<longleftrightarrow> \<not> console_locked c"
  by (simp_all add: console_free_def)

definition print_lines :: "('con, 'ce) driver \<Rightarrow> string list \<Rightarrow> 'con Console \<Rightarrow> 'con Console" where
  "print_lines D ls console =
     console\<lparr>console_console := fold (\<lambda>l con. snd (drv_write_line D con l)) ls (console_console console)\<rparr>"

lemma print_lines_Nil: "print_lines D [] c = c"
  by (simp add: print_lines_def)

lemma print_lines_locked [simp]: "console_locked (print_lines D ls c) = console_locked c"
  by (simp add: print_lines_def)

lemma print_lines_print_lines [simp]: "print_lines D ls' (print_lines D ls c) = print_lines D (ls @ ls') c"
  by (simp add: print_lines_def)

lemma print_lines_free [simp]: "console_free (map_option (print_lines D ls) C) \<longleftrightarrow> console_free C"
  by (cases C) (simp_all add: print_lines_def)

lemma panic_print_eq:
  "panic_print D C info = (if console_free C then Some (map_option (print_lines D [info]) C) else None)"
  by (cases C) (simp_all add: panic_print_def with_lock_def print_lines_def Let_def case_prod_beta)

text \<open>The state after \<open>k\<close> attempts to power off, the error of the attempt made then, and its message.\<close>

primrec attempts :: "('w, 'se) panic_deps \<Rightarrow> nat \<Rightarrow> 'w \<Rightarrow> 'w" where
  "attempts S 0 w = w"
| "attempts S (Suc k) w = attempts S k (snd (pd_system_off S w))"

primrec failures :: "('w, 'se) panic_deps \<Rightarrow> nat \<Rightarrow> 'w \<Rightarrow> 'se list option" where
  "failures S 0 w = Some []"
| "failures S (Suc k) w =
     (case fst (pd_system_off S w) of
        Some (Inl e) \<Rightarrow> map_option (Cons e) (failures S k (snd (pd_system_off S w)))
      | _ \<Rightarrow> None)"

text \<open>The run of the handler that ends with the attempt after \<open>n\<close> failures.\<close>

definition panic_run ::
  "('con, 'ce) driver \<Rightarrow> ('w, 'se) panic_deps \<Rightarrow> 'con Console option \<Rightarrow> string \<Rightarrow> 'w \<Rightarrow> nat \<Rightarrow>
   panic_end \<times> 'con Console option \<times> 'w \<Rightarrow> bool" where
  "panic_run D S CONSOLE info w n r \<longleftrightarrow>
     (\<exists>es. failures S n w = Some es \<and>
       fst (pd_system_off S (attempts S n w)) = (if fst r = PoweredOff then None else Some (Inr ())) \<and>
       snd r = (map_option (print_lines D (info # map (pd_expect_info S ''system_off failed'') es)) CONSOLE,
                attempts S (Suc n) w))"

lemma panic_handler_step:
  "panic_handler D S C info w =
     (if console_free C
      then (let C = map_option (print_lines D [info]) C; w' = snd (pd_system_off S w)
            in case fst (pd_system_off S w) of
                 None \<Rightarrow> Some (PoweredOff, C, w')
               | Some (Inr _) \<Rightarrow> Some (Looping, C, w')
               | Some (Inl e) \<Rightarrow> panic_handler D S C (pd_expect_info S ''system_off failed'' e) w')
      else None)"
  by (subst panic_handler.simps) (simp add: panic_print_eq Let_def case_prod_beta)

lemma panic_run_0:
  "panic_run D S C info w 0 r \<longleftrightarrow>
     fst (pd_system_off S w) = (if fst r = PoweredOff then None else Some (Inr ())) \<and>
     snd r = (map_option (print_lines D [info]) C, snd (pd_system_off S w))"
  by (simp add: panic_run_def)

lemma print_first:
  "map_option (print_lines D (a # b # ls)) C = map_option (print_lines D (b # ls)) (map_option (print_lines D [a]) C)"
  by (cases C) (simp_all add: print_lines_def)

lemma panic_run_Suc:
  "panic_run D S C info w (Suc n) r \<longleftrightarrow>
     (\<exists>e. fst (pd_system_off S w) = Some (Inl e) \<and>
       panic_run D S (map_option (print_lines D [info]) C) (pd_expect_info S ''system_off failed'' e)
         (snd (pd_system_off S w)) n r)"
proof (cases "\<exists>e. fst (pd_system_off S w) = Some (Inl e)")
  case True
  then obtain e where "fst (pd_system_off S w) = Some (Inl e)" by blast
  then show ?thesis by (auto simp add: panic_run_def print_first)
next
  case False
  then show ?thesis by (auto simp: panic_run_def split: option.splits sum.splits)
qed

lemma panic_handler_run:
  "\<lbrakk>console_free C; panic_run D S C info w n r\<rbrakk> \<Longrightarrow> panic_handler D S C info w = Some r"
proof (induction n arbitrary: C info w)
  case 0
  then show ?case
    by (subst panic_handler_step, cases r, cases "fst r")
      (auto simp: panic_run_0 Let_def split: if_splits intro: panic_end.exhaust)
next
  case (Suc n)
  from Suc.prems(2) obtain e where "fst (pd_system_off S w) = Some (Inl e)"
    and "panic_run D S (map_option (print_lines D [info]) C) (pd_expect_info S ''system_off failed'' e)
      (snd (pd_system_off S w)) n r"
    unfolding panic_run_Suc by blast
  with Suc.IH Suc.prems(1) show ?case by (subst panic_handler_step) (simp add: Let_def)
qed

lemma panic_handler_ended:
  assumes "panic_handler D S C info w = Some r"
  shows "console_free C \<and> (\<exists>n. panic_run D S C info w n r)"
  using assms
proof (rule panic_handler.raw_induct [where P = "\<lambda>D S C info w r. console_free C \<and> (\<exists>n. panic_run D S C info w n r)", rotated])
  fix rec D S C info w r
  assume IH: "\<And>D S C info w r. rec D S C info w = Some r \<Longrightarrow> console_free C \<and> (\<exists>n. panic_run D S C info w n r)"
  assume body: "Option.bind (panic_print D C info) (\<lambda>C. (let (result, w) = pd_system_off S w
      in case result of
           None \<Rightarrow> Some (PoweredOff, C, w)
         | Some r \<Rightarrow> (case r of Inr _ \<Rightarrow> Some (Looping, C, w)
             | Inl e \<Rightarrow> rec D S C (pd_expect_info S ''system_off failed'' e) w))) = Some r"
  have free: "console_free C" using body by (simp add: panic_print_eq split: if_splits)
  show "console_free C \<and> (\<exists>n. panic_run D S C info w n r)"
  proof (cases "\<exists>e. fst (pd_system_off S w) = Some (Inl e)")
    case True
    then obtain e where e: "fst (pd_system_off S w) = Some (Inl e)" by blast
    with body free have "rec D S (map_option (print_lines D [info]) C) (pd_expect_info S ''system_off failed'' e)
        (snd (pd_system_off S w)) = Some r"
      by (simp add: panic_print_eq case_prod_beta)
    from IH [OF this] obtain n where "panic_run D S (map_option (print_lines D [info]) C)
        (pd_expect_info S ''system_off failed'' e) (snd (pd_system_off S w)) n r" by blast
    with e have "panic_run D S C info w (Suc n) r" by (auto simp: panic_run_Suc)
    with free show ?thesis by blast
  next
    case False
    with body free have "panic_run D S C info w 0 r"
      by (auto simp: panic_print_eq panic_run_0 case_prod_beta split: option.splits sum.splits)
    with free show ?thesis by blast
  qed
qed

lemma log_record_free:
  assumes "\<not> console_locked c"
  shows "log_record D c level args =
    (case drv_write_line D (console_console c) (''['' @ level @ ''] '' @ args) of
       (Inl e, con) \<Rightarrow> Some (Panicked ''writeln failed'', \<lparr>console_locked = True, console_console = con\<rparr>)
     | (Inr _, con) \<Rightarrow> Some (Done (), c\<lparr>console_console := con\<rparr>))"
  using assms by (cases c) (auto simp: log_record_def Let_def split: prod.splits sum.splits)

section \<open>Properties\<close>

text \<open>
  C20: A panic ends exactly if the console's lock can be taken and powering off at last does not
  fail. After \<open>n\<close> failed attempts the machine is off or, if the call returned success, the core
  stays in its final loop; the console has printed the message of the panic and one for every
  failure, in this order, whether or not printing worked. If every attempt fails, the handler
  panics again and again for ever.
\<close>

theorem panic_handler_ends:
  "panic_handler D S CONSOLE info w = Some r \<longleftrightarrow>
     console_free CONSOLE \<and> (\<exists>n. panic_run D S CONSOLE info w n r)"
  by (rule iffI, erule panic_handler_ended) (elim conjE exE, erule (1) panic_handler_run)

text \<open>
  C21: A log message that the console driver refuses makes \<open>log\<close> panic while it holds the
  console's lock; the panic handler waits for that lock before it powers off, so the machine
  hangs, with exceptions masked, whatever the firmware would have answered.
\<close>

theorem failed_log_never_powers_off:
  assumes "\<not> console_locked console"
    and "drv_write_line D (console_console console) (''['' @ level @ ''] '' @ args) = (Inl e, con)"
  shows "\<exists>console'. log_record D console level args = Some (Panicked ''writeln failed'', console') \<and>
    panic_handler D S (Some console') info w = None"
  using assms by (simp add: log_record_free panic_handler_step)

text \<open>A driver that takes three lines, and firmware that fails once.\<close>

definition three_lines :: "(string list, unit) driver" where
  "three_lines =
     \<lparr>drv_write = (\<lambda>con buf. (Inr (of_nat (length buf)), con)), drv_flush = (\<lambda>con. (Inr (), con)),
      drv_write_line = (\<lambda>con l. if length con < 3 then (Inr (), con @ [l]) else (Inl (), con))\<rparr>"

definition off_at_second :: "(nat, string) panic_deps" where
  "off_at_second =
     \<lparr>pd_system_off = (\<lambda>n. (if n = 0 then Some (Inl ''DENIED'') else None, Suc n)),
      pd_expect_info = (\<lambda>msg e. msg @ '': '' @ e), pd_panic_info = (\<lambda>msg. msg)\<rparr>"

theorem failed_log_never_powers_off_witness:
  "\<exists>console'. log_record three_lines \<lparr>console_locked = False, console_console = [''a'', ''b'', ''c'']\<rparr> ''INFO'' ''d'' =
      Some (Panicked ''writeln failed'', console') \<and>
     panic_handler three_lines off_at_second (Some console') ''panic'' 0 = None"
  by (rule failed_log_never_powers_off) (simp_all add: three_lines_def)

theorem panic_handler_ends_witness:
  "panic_handler three_lines off_at_second (Some \<lparr>console_locked = False, console_console = []\<rparr>) ''panic'' 0 =
     Some (PoweredOff, Some \<lparr>console_locked = False,
       console_console = [''panic'', ''system_off failed: DENIED'']\<rparr>, 2)"
proof (subst panic_handler_ends, intro conjI exI [of _ "Suc 0"])
  show "console_free (Some \<lparr>console_locked = False, console_console = [] :: string list\<rparr>)" by simp
  show "panic_run three_lines off_at_second (Some \<lparr>console_locked = False, console_console = []\<rparr>) ''panic'' 0 (Suc 0)
     (PoweredOff, Some \<lparr>console_locked = False, console_console = [''panic'', ''system_off failed: DENIED'']\<rparr>, 2)"
    by (simp add: panic_run_def three_lines_def off_at_second_def print_lines_def)
qed

end
