(* ===== verification/Boot.thy ===== *)
theory Boot
  imports Guest Console_Log
begin

text \<open>
  Booting (\<open>main\<close> and its helpers in \<open>src/src/main.rs\<close>): from the entry of the image to the payload. Parameters, in the record \<open>boot_deps\<close>: the buddy allocator,
  the \<open>log\<close> crate, the flattened device tree and the addresses the linker gave the two heaps. The
  platform is a function of the shared heap's allocator, from which it allocates the new device
  tree.
\<close>

section \<open>State and parameters\<close>

definition HEAP_SIZE :: usize where "HEAP_SIZE = 40 * PAGE_SIZE"

text \<open>The statics of \<open>main.rs\<close> and \<open>console.rs\<close>, and the hypervisor's.\<close>

record ('con, 'heap, 'lg, 's, 'idmap, 'w) boot =
  bt_console :: "'con Console option"
  bt_logger :: 'lg
  bt_heap_locked :: bool
  bt_heap_allocator :: 'heap
  bt_shared_heap_locked :: bool
  bt_shared_heap_allocator :: 'heap
  bt_hyp :: "('s, 'idmap, 'w) hyp"

record ('con, 'heap, 'lg, 'lv, 'le, 'fdt, 'fe) boot_deps =
  bd_log :: "('con, 'lg, 'lv, 'le) log_crate"
  bd_heap_init :: "'heap \<Rightarrow> usize \<Rightarrow> usize \<Rightarrow> 'heap"
  bd_HEAP_address :: usize
  bd_SHARED_HEAP_address :: usize
  bd_currentel :: u8
  bd_fdt_from_raw :: "u64 \<Rightarrow> 'fe + 'fdt"
  bd_fdt_data_ptr :: "'fdt \<Rightarrow> u64"

definition LOG_LEVEL :: "('con, 'heap, 'lg, 'lv, 'le, 'fdt, 'fe) boot_deps \<Rightarrow> 'lv" where
  "LOG_LEVEL B = log_LevelFilter_Info (bd_log B)"

section \<open>Helpers\<close>

definition add_to_heap ::
  "('con, 'heap, 'lg, 'lv, 'le, 'fdt, 'fe) boot_deps \<Rightarrow> 'heap \<Rightarrow> usize \<Rightarrow> usize \<Rightarrow> 'heap" where
  "add_to_heap B heap start len = bd_heap_init B heap start len"

text \<open>\<open>try_lock\<close> on a mutex whose guard is leaked: it stays locked.\<close>

definition try_lock :: "bool \<Rightarrow> unit option" where
  "try_lock locked = (if locked then None else Some ())"

text \<open>The statements of \<open>main\<close> that change a static, each as an action on the statics.\<close>

definition init_console :: "'con \<Rightarrow> ('con Console, ('con, 'heap, 'lg, 's, 'idmap, 'w) boot) action" where
  "init_console console st =
     (let (console, CONSOLE) = console_init console (bt_console st)
      in Some (Done console, st\<lparr>bt_console := CONSOLE\<rparr>))"

definition init_logger ::
  "('con, 'heap, 'lg, 'lv, 'le, 'fdt, 'fe) boot_deps \<Rightarrow> 'con Console \<Rightarrow>
   (unit, ('con, 'heap, 'lg, 's, 'idmap, 'w) boot) action" where
  "init_logger B console st =
     (let (result, lg) = logger_init (bd_log B) console (LOG_LEVEL B) (bt_logger st)
      in Some (expect_ok ''failed to init logger'' result, st\<lparr>bt_logger := lg\<rparr>))"

definition boot_log ::
  "('con, 'ce) driver \<Rightarrow> ('con, 'heap, 'lg, 'lv, 'le, 'fdt, 'fe) boot_deps \<Rightarrow> Level \<Rightarrow> string \<Rightarrow>
   (unit, ('con, 'heap, 'lg, 's, 'idmap, 'w) boot) action" where
  "boot_log D B level args st =
     map_option (\<lambda>(result, CONSOLE). (result, st\<lparr>bt_console := CONSOLE\<rparr>))
       (log_message D (bd_log B) level args (bt_logger st) (bt_console st))"

fun boot_warnings ::
  "('con, 'ce) driver \<Rightarrow> ('con, 'heap, 'lg, 'lv, 'le, 'fdt, 'fe) boot_deps \<Rightarrow> string list \<Rightarrow>
   (unit, ('con, 'heap, 'lg, 's, 'idmap, 'w) boot) action" where
  "boot_warnings D B [] = lift_outcome (Done ())"
| "boot_warnings D B (m # ms) = before (boot_log D B Warn m) (\<lambda>_. boot_warnings D B ms)"

definition give_heap ::
  "('con, 'heap, 'lg, 'lv, 'le, 'fdt, 'fe) boot_deps \<Rightarrow> (unit, ('con, 'heap, 'lg, 's, 'idmap, 'w) boot) action" where
  "give_heap B st =
     Some (and_then (expect_some ''failed to lock heap'' (try_lock (bt_heap_locked st))) (\<lambda>_. Done ()),
       if bt_heap_locked st then st
       else st\<lparr>bt_heap_locked := True,
               bt_heap_allocator := add_to_heap B (bt_heap_allocator st) (bd_HEAP_address B) HEAP_SIZE\<rparr>)"

definition give_shared_heap ::
  "('con, 'heap, 'lg, 'lv, 'le, 'fdt, 'fe) boot_deps \<Rightarrow> usize \<Rightarrow>
   (unit, ('con, 'heap, 'lg, 's, 'idmap, 'w) boot) action" where
  "give_shared_heap B shared_heap_size st =
     Some (and_then (expect_some ''failed to lock shared heap'' (try_lock (bt_shared_heap_locked st))) (\<lambda>_. Done ()),
       if bt_shared_heap_locked st then st
       else st\<lparr>bt_shared_heap_locked := True,
               bt_shared_heap_allocator :=
                 add_to_heap B (bt_shared_heap_allocator st) (bd_SHARED_HEAP_address B) shared_heap_size\<rparr>)"

text \<open>The hypervisor is compiled with the platform's \<open>configure_memory_access\<close> and \<open>handle_hvc\<close>.\<close>

definition link_platform ::
  "('self, 'con, 'fdt, 's, 'idmap, 'me, 'attr, 'e) Platform \<Rightarrow> ('s, 'idmap, 'me, 'attr, 'e, 'w) hyp_deps \<Rightarrow>
   ('s, 'idmap, 'me, 'attr, 'e, 'w) hyp_deps" where
  "link_platform P H =
     H\<lparr>hd_configure_memory_access := plat_configure_memory_access P, hd_handle_hvc := plat_handle_hvc P\<rparr>"

definition run_payload_el1 ::
  "('s, 'idmap, 'me, 'attr, 'e, 'w) hyp_deps \<Rightarrow> u64 \<Rightarrow> u64 \<Rightarrow> u64 \<Rightarrow> u64 \<Rightarrow> u64 \<Rightarrow> ('s, 'idmap, 'w) hyp \<Rightarrow>
   (exit \<times> ('s, 'idmap, 'w) hyp) outcome" where
  "run_payload_el1 H entry_point x0 x1 x2 x3 h = entry_point_el1 H x0 x1 x2 x3 entry_point h"

text \<open>
  Calling \<open>run_payload_el2\<close> passes its arguments in \<open>x0\<close>--\<open>x4\<close>. \<open>impl\<close> is the compiled
  \<open>disable_mmu_and_caches_impl\<close>.
\<close>

definition call_run_payload_el2 ::
  "(cpu \<Rightarrow> cpu) \<Rightarrow> u64 \<Rightarrow> u64 \<Rightarrow> u64 \<Rightarrow> u64 \<Rightarrow> u64 \<Rightarrow> ('s, 'idmap, 'w) hyp \<Rightarrow> exit \<times> ('s, 'idmap, 'w) hyp" where
  "call_run_payload_el2 impl entry_point x0 x1 x2 x3 h =
     (let c = hv_core h; cpu = cr_cpu c;
          (exit, cpu) = run (\<lambda>_ s. snd (run (\<lambda>_. impl) disable_mmu_and_caches s)) run_payload_el2
            (cpu\<lparr>cpu_x := (cpu_x cpu)(0 := entry_point, 1 := x0, 2 := x1, 3 := x2, 4 := x3)\<rparr>)
      in (exit, h\<lparr>hv_core := c\<lparr>cr_cpu := cpu\<rparr>\<rparr>))"

section \<open>The boot sequence\<close>

text \<open>The last statement of \<open>main\<close>: the payload at EL1 or at EL2.\<close>

definition run_payload ::
  "('self, 'con, 'fdt, 's, 'idmap, 'me, 'attr, 'e) Platform \<Rightarrow> ('s, 'idmap, 'me, 'attr, 'e, 'w) hyp_deps \<Rightarrow>
   (cpu \<Rightarrow> cpu) \<Rightarrow> BootMode \<Rightarrow> u64 \<Rightarrow> u64 \<Rightarrow> u64 \<Rightarrow> u64 \<Rightarrow> u64 \<Rightarrow>
   (exit, ('con, 'heap, 'lg, 's, 'idmap, 'w) boot) action" where
  "run_payload Pl H impl boot_mode payload_address dtb_ptr x1 x2 x3 st =
     (case boot_mode of
        El1 \<Rightarrow>
          (case run_payload_el1 (link_platform Pl H) payload_address dtb_ptr x1 x2 x3 (bt_hyp st) of
             Done (exit, h) \<Rightarrow> Some (Done exit, st\<lparr>bt_hyp := h\<rparr>)
           | Panicked m \<Rightarrow> Some (Panicked m, st))
      | El2 \<Rightarrow>
          (let (exit, h) = call_run_payload_el2 impl payload_address dtb_ptr x1 x2 x3 (bt_hyp st)
           in Some (Done exit, st\<lparr>bt_hyp := h\<rparr>)))"

definition main_args :: "u64 \<Rightarrow> u64 \<Rightarrow> u64 \<Rightarrow> u64 \<Rightarrow> string" where
  "main_args x0 x1 x2 x3 =
     ''main('' @ format_alt_x (unat x0) @ '', '' @ format_alt_x (unat x1) @ '', '' @ format_alt_x (unat x2) @ '', '' @
     format_alt_x (unat x3) @ '')''"

fun boot_mode_debug :: "BootMode \<Rightarrow> string" where
  "boot_mode_debug El1 = ''El1''"
| "boot_mode_debug El2 = ''El2''"

text \<open>\<open>main\<close> from the device tree on, with the allocators set up.\<close>

definition main_payload ::
  "('con, 'ce) driver \<Rightarrow> ('con, 'heap, 'lg, 'lv, 'le, 'fdt, 'fe) boot_deps \<Rightarrow>
   ('self, 'con, 'fdt, 's, 'idmap, 'me, 'attr, 'e) Platform \<Rightarrow> 'self \<Rightarrow>
   ('s, 'idmap, 'me, 'attr, 'e, 'w) hyp_deps \<Rightarrow> (cpu \<Rightarrow> cpu) \<Rightarrow> u64 \<Rightarrow> u64 \<Rightarrow> u64 \<Rightarrow> u64 \<Rightarrow>
   (exit, ('con, 'heap, 'lg, 's, 'idmap, 'w) boot) action" where
  "main_payload D B Pl platform H impl x0 x1 x2 x3 =
     (let (fdt_address, warnings) = plat_fdt_address Pl platform x0 in
     before (boot_warnings D B warnings) (\<lambda>_.
     before (lift_outcome (expect_ok ''fdt_address is not a valid fdt'' (bd_fdt_from_raw B fdt_address))) (\<lambda>fdt.
     before (lift_outcome (plat_modify_dt Pl platform fdt)) (\<lambda>new_fdt.
     (let dtb_ptr = bd_fdt_data_ptr B new_fdt;
          (boot_mode, warnings) = plat_boot_mode Pl platform new_fdt in
     before (boot_warnings D B warnings) (\<lambda>_.
     (let payload_address = plat_payload_address Pl platform in
     before (boot_log D B Info (''Booting in '' @ boot_mode_debug boot_mode)) (\<lambda>_.
     before (boot_log D B Info (''Payload address: '' @ format_alt_x (unat payload_address))) (\<lambda>_.
     run_payload Pl H impl boot_mode payload_address dtb_ptr x1 x2 x3)))))))))"

definition main ::
  "('con, 'ce) driver \<Rightarrow> ('con, 'heap, 'lg, 'lv, 'le, 'fdt, 'fe) boot_deps \<Rightarrow>
   ('heap \<Rightarrow> ('self, 'con, 'fdt, 's, 'idmap, 'me, 'attr, 'e) Platform) \<Rightarrow>
   ('s, 'idmap, 'me, 'attr, 'e, 'w) hyp_deps \<Rightarrow> (cpu \<Rightarrow> cpu) \<Rightarrow> u64 \<Rightarrow> u64 \<Rightarrow> u64 \<Rightarrow> u64 \<Rightarrow>
   (exit, ('con, 'heap, 'lg, 's, 'idmap, 'w) boot) action" where
  "main D B P H impl x0 x1 x2 x3 st =
     (let Pl = P (bt_shared_heap_allocator st) in
     before (lift_outcome (plat_create Pl)) (\<lambda>platform.
     (let (parts, platform) = plat_parts Pl platform in
     before (lift_outcome (expect_some ''could not get platform parts'' parts)) (\<lambda>parts.
     before (init_console (pp_console parts)) (\<lambda>console.
     before (init_logger B console) (\<lambda>_.
     before (boot_log D B Info ''starting ritm'') (\<lambda>_.
     before (boot_log D B Info (''current exception level: EL'' @ format_dec (unat (bd_currentel B)))) (\<lambda>_.
     before (boot_log D B Info (main_args x0 x1 x2 x3)) (\<lambda>_.
     before (give_heap B) (\<lambda>_.
     before (give_shared_heap B (plat_SHARED_HEAP_SIZE Pl)) (\<lambda>_ st.
     main_payload D B (P (bt_shared_heap_allocator st)) platform H impl x0 x1 x2 x3 st)))))))))) st)"

text \<open>The state in which the image is loaded: nothing initialised, no lock taken.\<close>

definition boot_init :: "nat \<Rightarrow> 'lg \<Rightarrow> 'heap \<Rightarrow> core \<Rightarrow> 's \<Rightarrow> 'w \<Rightarrow> ('con, 'heap, 'lg, 's, 'idmap, 'w) boot" where
  "boot_init max_cores lg heap c s w =
     \<lparr>bt_console = None, bt_logger = lg, bt_heap_locked = False, bt_heap_allocator = heap,
      bt_shared_heap_locked = False, bt_shared_heap_allocator = heap, bt_hyp = hyp_init max_cores c s w\<rparr>"

text \<open>A boot as a whole: \<open>main\<close>, and the panic handler if it panics.\<close>

datatype boot_end = HandedOver exit | Stopped panic_end

definition boot_image ::
  "('con, 'ce) driver \<Rightarrow> ('con, 'heap, 'lg, 'lv, 'le, 'fdt, 'fe) boot_deps \<Rightarrow> ('w, 'se) panic_deps \<Rightarrow>
   ('heap \<Rightarrow> ('self, 'con, 'fdt, 's, 'idmap, 'me, 'attr, 'e) Platform) \<Rightarrow>
   ('s, 'idmap, 'me, 'attr, 'e, 'w) hyp_deps \<Rightarrow> (cpu \<Rightarrow> cpu) \<Rightarrow> u64 \<Rightarrow> u64 \<Rightarrow> u64 \<Rightarrow> u64 \<Rightarrow>
   ('con, 'heap, 'lg, 's, 'idmap, 'w) boot \<Rightarrow> (boot_end \<times> ('con, 'heap, 'lg, 's, 'idmap, 'w) boot) option" where
  "boot_image D B S P H impl x0 x1 x2 x3 st =
     (case main D B P H impl x0 x1 x2 x3 st of
        None \<Rightarrow> None
      | Some (Done exit, st) \<Rightarrow> Some (HandedOver exit, st)
      | Some (Panicked m, st) \<Rightarrow>
          map_option (\<lambda>(e, CONSOLE, w). (Stopped e, st\<lparr>bt_console := CONSOLE, bt_hyp := (bt_hyp st)\<lparr>hv_world := w\<rparr>\<rparr>))
            (panic_handler D S (bt_console st) (pd_panic_info S m) (hv_world (bt_hyp st))))"

section \<open>Lemmas\<close>

lemma link_platform_sel [simp]:
  "hd_sysregs (link_platform P H) = hd_sysregs H" "hd_stage2 (link_platform P H) = hd_stage2 H"
  "hd_configure_memory_access (link_platform P H) = plat_configure_memory_access P"
  "activate_ok (link_platform P H) root = activate_ok H root"
  by (simp_all add: link_platform_def activate_ok_def)

lemma run_payload_el1_enters:
  assumes "arm_sysregs_ok (hd_sysregs H)" and "activate_ok H root"
    and "hd_configure_memory_access H (builder_new (hd_stage2 H)) = Done (Inr (), b)"
  shows "\<exists>h'. run_payload_el1 H e x0 x1 x2 x3 (hyp_init n c s w) = Done (ExceptionReturn, h') \<and>
    cr_elr_el2 (hv_core h') = e \<and> bit (cr_hcr_el2 (hv_core h')) 0 \<and>
    cpu_x (cr_cpu (hv_core h')) 0 = x0 \<and> cpu_x (cr_cpu (hv_core h')) 1 = x1 \<and>
    cpu_x (cr_cpu (hv_core h')) 2 = x2 \<and> cpu_x (cr_cpu (hv_core h')) 3 = x3"
proof -
  have "stage2_config H (hyp_init n c s w) =
      Done (builder_build b, (hyp_init n c s w)\<lparr>hv_stage2_config := Some (builder_build b)\<rparr>)"
    by (rule stage2_config_first [OF _ assms(3)]) (simp add: hyp_init_def)
  from guest_entry [OF assms(1,2) this, of x0 x1 x2 x3 e] show ?thesis
    by (auto simp: run_payload_el1_def Let_def bit_simps)
qed

lemma run_payload_el2_enters:
  assumes "compiled_impl SB impl" and "sctlr_el2_bits_ok SB"
  shows "\<exists>h'. call_run_payload_el2 impl e x0 x1 x2 x3 h = (JumpTo e, h') \<and>
    \<not> bit (cpu_sctlr_el2 (cr_cpu (hv_core h'))) 0 \<and>
    cpu_x (cr_cpu (hv_core h')) 0 = x0 \<and> cpu_x (cr_cpu (hv_core h')) 1 = x1 \<and>
    cpu_x (cr_cpu (hv_core h')) 2 = x2 \<and> cpu_x (cr_cpu (hv_core h')) 3 = x3"
proof -
  let ?c = "(cr_cpu (hv_core h))\<lparr>cpu_x := (cpu_x (cr_cpu (hv_core h)))(0 := e, 1 := x0, 2 := x1, 3 := x2, 4 := x3)\<rparr>"
  obtain s' where "run (\<lambda>_ s. snd (run (\<lambda>_. impl) disable_mmu_and_caches s)) run_payload_el2 ?c = (JumpTo e, s')"
    and "cpu_x s' 0 = x0" "cpu_x s' 1 = x1" "cpu_x s' 2 = x2" "cpu_x s' 3 = x3" "\<not> bit (cpu_sctlr_el2 s') 0"
    using run_payload_el2_jump [OF assms, of undefined ?c] by auto
  then show ?thesis by (simp add: call_run_payload_el2_def Let_def)
qed

section \<open>The console during the boot\<close>

text \<open>The driver accepts every line, and \<open>log\<close> lets both levels pass at the limit \<open>Info\<close>.\<close>

definition driver_works :: "('con, 'ce) driver \<Rightarrow> bool" where
  "driver_works D \<longleftrightarrow> (\<forall>con l. fst (drv_write_line D con l) = Inr ())"

definition log_crate_ok :: "('con, 'lg, 'lv, 'le) log_crate \<Rightarrow> bool" where
  "log_crate_ok L \<longleftrightarrow> (\<forall>lg level. log_passes L (log_set_max_level L lg (log_LevelFilter_Info L)) level)"

definition log_line :: "Level \<Rightarrow> string \<Rightarrow> string" where
  "log_line level args = ''['' @ level_name level @ ''] '' @ args"

lemma log_record_works:
  assumes "driver_works D" and "\<not> console_locked c"
  shows "log_record D c (level_name level) args = Some (Done (), print_lines D [log_line level args] c)"
proof -
  obtain con where "drv_write_line D (console_console c) (log_line level args) = (Inr (), con)"
    using assms(1) unfolding driver_works_def by (metis prod.collapse)
  then show ?thesis using assms(2) by (simp add: log_record_free log_line_def print_lines_def)
qed

lemma boot_log_prints:
  assumes "driver_works D" and "log_passes (bd_log B) (bt_logger st) level"
    and "bt_console st = Some (print_lines D ls c)" and "\<not> console_locked c"
  shows "boot_log D B level args st =
    Some (Done (), st\<lparr>bt_console := Some (print_lines D (ls @ [log_line level args]) c)\<rparr>)"
  using assms(2-4) by (simp add: boot_log_def log_message_def log_record_works [OF assms(1)])

lemma boot_warnings_prints:
  assumes "driver_works D" and "log_passes (bd_log B) (bt_logger st) Warn"
    and "bt_console st = Some (print_lines D ls c)" and "\<not> console_locked c"
  shows "boot_warnings D B ms st =
    Some (Done (), st\<lparr>bt_console := Some (print_lines D (ls @ map (log_line Warn) ms) c)\<rparr>)"
  using assms(2,3)
proof (induction ms arbitrary: st ls)
  case Nil
  then show ?case by (cases st) (simp add: lift_outcome_def)
next
  case (Cons m ms)
  then show ?case
    using boot_log_prints [OF assms(1) Cons.prems assms(4), of m]
    by (simp add: before_Done Cons.IH [of _ "ls @ [log_line Warn m]"])
qed

lemma before_boot_prints:
  assumes "driver_works D" and "bt_console st = Some (print_lines D ls c)" and "\<not> console_locked c"
  shows "log_passes (bd_log B) (bt_logger st) level \<Longrightarrow>
      before (boot_log D B level args) f st = f () (st\<lparr>bt_console := Some (print_lines D (ls @ [log_line level args]) c)\<rparr>)"
    and "log_passes (bd_log B) (bt_logger st) Warn \<Longrightarrow>
      before (boot_warnings D B ms) f st = f () (st\<lparr>bt_console := Some (print_lines D (ls @ map (log_line Warn) ms) c)\<rparr>)"
  by (simp_all add: before_def boot_log_prints [OF assms(1) _ assms(2,3)] boot_warnings_prints [OF assms(1) _ assms(2,3)])

text \<open>No statement of \<open>main\<close> waits for ever, whatever the platform does, if the driver works.\<close>

abbreviation console_ready :: "('con, 'heap, 'lg, 's, 'idmap, 'w) boot \<Rightarrow> bool" where
  "console_ready st \<equiv> console_free (bt_console st)"

lemma boot_log_ends: "driver_works D \<Longrightarrow> ends_with (boot_log D B level args) console_ready"
  by (auto simp: ends_with_def boot_log_def log_message_def log_record_works split: option.split)

lemma boot_warnings_ends: "driver_works D \<Longrightarrow> ends_with (boot_warnings D B ms) console_ready"
  by (induction ms) (simp_all add: ends_with_lift_outcome ends_with_before boot_log_ends)

lemma boot_statements_end:
  "ends_with (init_console con) console_ready" "ends_with (init_logger B c) console_ready"
  "ends_with (give_heap B) console_ready" "ends_with (give_shared_heap B n) console_ready"
  "ends_with (run_payload Pl H impl mode payload dtb x1 x2 x3) console_ready"
  by (auto simp: ends_with_def init_console_def console_init_def init_logger_def give_heap_def give_shared_heap_def
      run_payload_def Let_def case_prod_beta split: option.split BootMode.split outcome.split)

lemmas boot_ends = boot_log_ends boot_warnings_ends boot_statements_end

lemma main_payload_ends:
  "driver_works D \<Longrightarrow> ends_with (main_payload D B Pl platform H impl x0 x1 x2 x3) console_ready"
  unfolding main_payload_def Let_def case_prod_beta
  by (intro ends_with_before ends_with_lift_outcome boot_ends)

lemma main_ends:
  assumes "driver_works D"
  shows "ends_with (main D B P H impl x0 x1 x2 x3) console_ready"
proof -
  note rules = ends_with_before ends_with_lift_outcome boot_ends main_payload_ends assms
  have main: "main D B P H impl x0 x1 x2 x3 = (\<lambda>st. main D B P H impl x0 x1 x2 x3 st)" ..
  have payload: "ends_with (\<lambda>st. main_payload D B (P (bt_shared_heap_allocator st)) platform H impl x0 x1 x2 x3 st) console_ready"
    for platform
    by (rule ends_with_state) (intro rules)
  show ?thesis
    by (subst main, unfold main_def Let_def case_prod_beta, rule ends_with_state) (intro rules payload)
qed

section \<open>A successful boot\<close>

text \<open>What the boot prints before and after it looks at the device tree.\<close>

definition boot_greeting ::
  "('con, 'heap, 'lg, 'lv, 'le, 'fdt, 'fe) boot_deps \<Rightarrow> u64 \<Rightarrow> u64 \<Rightarrow> u64 \<Rightarrow> u64 \<Rightarrow> string list" where
  "boot_greeting B x0 x1 x2 x3 =
     map (log_line Info)
       [''starting ritm'', ''current exception level: EL'' @ format_dec (unat (bd_currentel B)), main_args x0 x1 x2 x3]"

definition boot_announcement :: "BootMode \<Rightarrow> u64 \<Rightarrow> string list" where
  "boot_announcement mode payload_address =
     map (log_line Info)
       [''Booting in '' @ boot_mode_debug mode, ''Payload address: '' @ format_alt_x (unat payload_address)]"

lemma main_payload_runs:
  assumes "driver_works D" and "\<And>level. log_passes (bd_log B) (bt_logger st) level"
    and "bt_console st = Some (print_lines D ls c)" and "\<not> console_locked c"
    and "plat_fdt_address Pl self x0 = (fdt_address, ws)" and "bd_fdt_from_raw B fdt_address = Inr fdt"
    and "plat_modify_dt Pl self fdt = Done new_fdt" and "plat_boot_mode Pl self new_fdt = (mode, ws')"
  shows "main_payload D B Pl self H impl x0 x1 x2 x3 st =
    run_payload Pl H impl mode (plat_payload_address Pl self) (bd_fdt_data_ptr B new_fdt) x1 x2 x3
      (st\<lparr>bt_console := Some (print_lines D (ls @ map (log_line Warn) (ws @ ws') @
          boot_announcement mode (plat_payload_address Pl self)) c)\<rparr>)"
  by (simp add: main_payload_def assms(5) Let_def before_boot_prints(2) [OF assms(1,3,4)] assms(2,6-8))
    (simp add: before_boot_prints [OF assms(1)] assms(2,4) boot_announcement_def)

lemma main_runs:
  fixes P :: "'heap \<Rightarrow> ('self, 'con, 'fdt, 's, 'idmap, 'me, 'attr, 'e) Platform" and H :: "('s, 'idmap, 'me, 'attr, 'e, 'w) hyp_deps"
    and B :: "('con, 'heap, 'lg, 'lv, 'le, 'fdt, 'fe) boot_deps"
  assumes "driver_works D" and "log_crate_ok (bd_log B)"
    and "plat_create (P heap) = Done self0" and "plat_parts (P heap) self0 = (Some parts, self)"
    and "c = \<lparr>console_locked = False, console_console = pp_console parts\<rparr>"
    and "log_set_logger (bd_log B) lg c = (Inr (), lg')"
  shows "main D B P H impl x0 x1 x2 x3 (boot_init n lg heap c0 s w) =
    (let shared = bd_heap_init B heap (bd_SHARED_HEAP_address B) (plat_SHARED_HEAP_SIZE (P heap))
     in main_payload D B (P shared) self H impl x0 x1 x2 x3
       \<lparr>bt_console = Some (print_lines D (boot_greeting B x0 x1 x2 x3) c),
        bt_logger = log_set_max_level (bd_log B) lg' (LOG_LEVEL B), bt_heap_locked = True,
        bt_heap_allocator = bd_heap_init B heap (bd_HEAP_address B) HEAP_SIZE, bt_shared_heap_locked = True,
        bt_shared_heap_allocator = shared, bt_hyp = hyp_init n c0 s w\<rparr>)"
proof -
  have pass: "log_passes (bd_log B) (log_set_max_level (bd_log B) lg' (LOG_LEVEL B)) level" for level
    using assms(2) by (simp add: log_crate_ok_def LOG_LEVEL_def)
  have free: "\<not> console_locked c" by (simp add: assms(5))
  let ?st = "boot_init n lg heap c0 s w :: ('con, 'heap, 'lg, 's, 'idmap, 'w) boot"
  have init: "before (init_console (pp_console parts)) f ?st = f c (?st\<lparr>bt_console := Some (print_lines D [] c)\<rparr>)" for f
    by (simp add: before_def init_console_def boot_init_def console_init_def assms(5) Let_def print_lines_Nil)
  have P: "bt_shared_heap_allocator ?st = heap" by (simp add: boot_init_def)
  show ?thesis
    by (simp add: main_def P assms(3,4) init Let_def)
      (simp add: boot_init_def before_Done init_logger_def logger_init_def assms(6) before_boot_prints [OF assms(1)] pass free give_heap_def give_shared_heap_def
        try_lock_def add_to_heap_def boot_greeting_def)
qed

lemma run_payload_enters:
  fixes H :: "('s, 'idmap, 'me, 'attr, 'e, 'w) hyp_deps"
  assumes "arm_sysregs_ok (hd_sysregs H)" and "activate_ok H root"
    and "plat_configure_memory_access Pl (builder_new (hd_stage2 H)) = Done (Inr (), b)"
    and "compiled_impl SB impl" and "sctlr_el2_bits_ok SB" and "bt_hyp st = hyp_init n c s w"
  shows "\<exists>h'. run_payload Pl H impl mode pa dtb x1 x2 x3 st =
      Some (Done (if mode = El1 then ExceptionReturn else JumpTo pa), st\<lparr>bt_hyp := h'\<rparr>) \<and>
    (if mode = El1 then cr_elr_el2 (hv_core h') = pa \<and> bit (cr_hcr_el2 (hv_core h')) 0
     else \<not> bit (cpu_sctlr_el2 (cr_cpu (hv_core h'))) 0) \<and>
    cpu_x (cr_cpu (hv_core h')) 0 = dtb \<and> cpu_x (cr_cpu (hv_core h')) 1 = x1 \<and>
    cpu_x (cr_cpu (hv_core h')) 2 = x2 \<and> cpu_x (cr_cpu (hv_core h')) 3 = x3"
proof (cases mode)
  case El1
  obtain h' where "run_payload_el1 (link_platform Pl H) pa dtb x1 x2 x3 (hyp_init n c s w) = Done (ExceptionReturn, h')"
    "cr_elr_el2 (hv_core h') = pa" "bit (cr_hcr_el2 (hv_core h')) 0" "cpu_x (cr_cpu (hv_core h')) 0 = dtb"
    "cpu_x (cr_cpu (hv_core h')) 1 = x1" "cpu_x (cr_cpu (hv_core h')) 2 = x2" "cpu_x (cr_cpu (hv_core h')) 3 = x3"
    using run_payload_el1_enters [of "link_platform Pl H" root b] assms(1-3) unfolding link_platform_sel by blast
  then show ?thesis using El1 assms(6) by (auto simp: run_payload_def)
next
  case El2
  obtain h' where "call_run_payload_el2 impl pa dtb x1 x2 x3 (hyp_init n c s w :: ('s, 'idmap, 'w) hyp) = (JumpTo pa, h')"
    "\<not> bit (cpu_sctlr_el2 (cr_cpu (hv_core h'))) 0" "cpu_x (cr_cpu (hv_core h')) 0 = dtb"
    "cpu_x (cr_cpu (hv_core h')) 1 = x1" "cpu_x (cr_cpu (hv_core h')) 2 = x2" "cpu_x (cr_cpu (hv_core h')) 3 = x3"
    using run_payload_el2_enters [OF assms(4,5)] by blast
  then show ?thesis using El2 assms(6) by (auto simp: run_payload_def)
qed

section \<open>Properties\<close>

text \<open>
  C18: Booting reaches the payload. If the platform has its parts, the console works, the logger
  can be set, the device tree is valid and can be rewritten, and stage 2 can be configured, then
  \<open>main\<close> gives both allocators their whole static array, before the platform allocates from the
  shared one, and hands over to the payload in the boot mode that the new device tree asks for:
  at EL1 by an exception return under stage-2 translation, at EL2 by a jump with the MMU off.
  The payload finds the new device tree in \<open>x0\<close> and RITM's own arguments in \<open>x1\<close>--\<open>x3\<close>. The
  console has shown the greeting, the platform's warnings and the announcement, and is free.
\<close>

theorem main_hands_over:
  fixes H :: "('s, 'idmap, 'me, 'attr, 'e, 'w) hyp_deps"
  assumes "driver_works D" and "log_crate_ok (bd_log B)"
    and "plat_create (P heap) = Done self0" and "plat_parts (P heap) self0 = (Some parts, self)"
    and "con = \<lparr>console_locked = False, console_console = pp_console parts\<rparr>"
    and "fst (log_set_logger (bd_log B) lg con) = Inr ()"
    and "shared = bd_heap_init B heap (bd_SHARED_HEAP_address B) (plat_SHARED_HEAP_SIZE (P heap))"
    and "plat_fdt_address (P shared) self x0 = (fdt_address, ws)"
    and "bd_fdt_from_raw B fdt_address = Inr fdt"
    and "plat_modify_dt (P shared) self fdt = Done new_fdt"
    and "plat_boot_mode (P shared) self new_fdt = (mode, ws')"
    and "plat_configure_memory_access (P shared) (builder_new (hd_stage2 H)) = Done (Inr (), b)"
    and "arm_sysregs_ok (hd_sysregs H)" and "activate_ok H root"
    and "compiled_impl SB impl" and "sctlr_el2_bits_ok SB"
  shows "\<exists>st'. main D B P H impl x0 x1 x2 x3 (boot_init n lg heap c s w) =
      Some (Done (if mode = El1 then ExceptionReturn else JumpTo (plat_payload_address (P shared) self)), st') \<and>
    (let c' = hv_core (bt_hyp st') in
      (if mode = El1 then cr_elr_el2 c' = plat_payload_address (P shared) self \<and> bit (cr_hcr_el2 c') 0
       else \<not> bit (cpu_sctlr_el2 (cr_cpu c')) 0) \<and>
      cpu_x (cr_cpu c') 0 = bd_fdt_data_ptr B new_fdt \<and> cpu_x (cr_cpu c') 1 = x1 \<and>
      cpu_x (cr_cpu c') 2 = x2 \<and> cpu_x (cr_cpu c') 3 = x3) \<and>
    bt_heap_allocator st' = bd_heap_init B heap (bd_HEAP_address B) HEAP_SIZE \<and>
    bt_shared_heap_allocator st' = shared \<and>
    bt_console st' = Some (print_lines D (boot_greeting B x0 x1 x2 x3 @ map (log_line Warn) (ws @ ws') @
      boot_announcement mode (plat_payload_address (P shared) self)) con)"
proof -
  obtain lg' where lg: "log_set_logger (bd_log B) lg con = (Inr (), lg')" using assms(6) by (metis prod.collapse)
  let ?lines = "boot_greeting B x0 x1 x2 x3 @ map (log_line Warn) (ws @ ws') @
      boot_announcement mode (plat_payload_address (P shared) self)"
  let ?st = "\<lparr>bt_console = Some (print_lines D ?lines con),
      bt_logger = log_set_max_level (bd_log B) lg' (LOG_LEVEL B), bt_heap_locked = True,
      bt_heap_allocator = bd_heap_init B heap (bd_HEAP_address B) HEAP_SIZE, bt_shared_heap_locked = True,
      bt_shared_heap_allocator = shared, bt_hyp = hyp_init n c s w\<rparr>"
  have pass: "log_passes (bd_log B) (log_set_max_level (bd_log B) lg' (LOG_LEVEL B)) level" for level
    using assms(2) by (simp add: log_crate_ok_def LOG_LEVEL_def)
  let ?pa = "plat_payload_address (P shared) self" and ?dtb = "bd_fdt_data_ptr B new_fdt"
  have main: "main D B P H impl x0 x1 x2 x3 (boot_init n lg heap c s w) =
      run_payload (P shared) H impl mode ?pa ?dtb x1 x2 x3 ?st"
    by (simp add: main_runs [where P = P and heap = heap, OF assms(1-5) lg] assms(7) [symmetric] Let_def assms(5)
        main_payload_runs [OF assms(1) _ _ _ assms(8-11)] pass)
  have "bt_hyp ?st = hyp_init n c s w" by simp
  from run_payload_enters [OF assms(13,14,12,15,16) this, of mode ?pa ?dtb x1 x2 x3]
  show ?thesis unfolding main by (elim exE conjE, intro exI conjI) (assumption, simp_all add: Let_def)
qed

text \<open>
  C19: A boot always ends. Whatever the platform, the device tree and the arguments are, if the
  console driver accepts its lines and the firmware powers off, then a boot either reaches the
  hand-over of \<open>main\<close> or, if \<open>main\<close> panics anywhere, prints the panic's message on the
  console, if there is one yet, and powers the machine off. It never waits for a lock.
\<close>

theorem boot_always_ends:
  assumes "driver_works D" and "\<And>v. fst (pd_system_off S v) = None" and "console_free (bt_console st)"
  shows "\<exists>r st'. boot_image D B S P H impl x0 x1 x2 x3 st = Some (r, st') \<and>
    (case r of
       HandedOver exit \<Rightarrow> main D B P H impl x0 x1 x2 x3 st = Some (Done exit, st')
     | Stopped e \<Rightarrow> e = PoweredOff \<and>
         (\<exists>m st1. main D B P H impl x0 x1 x2 x3 st = Some (Panicked m, st1) \<and>
            bt_console st' = map_option (print_lines D [pd_panic_info S m]) (bt_console st1)))"
proof -
  obtain r st1 where main: "main D B P H impl x0 x1 x2 x3 st = Some (r, st1)" and free: "console_ready st1"
    by (rule ends_withE [OF main_ends [OF assms(1)] assms(3)])
  show ?thesis
  proof (cases r)
    case (Done exit)
    then show ?thesis using main by (intro exI [of _ "HandedOver exit"] exI [of _ st1]) (simp add: boot_image_def)
  next
    case (Panicked m)
    let ?st' = "st1\<lparr>bt_console := map_option (print_lines D [pd_panic_info S m]) (bt_console st1),
      bt_hyp := (bt_hyp st1)\<lparr>hv_world := snd (pd_system_off S (hv_world (bt_hyp st1)))\<rparr>\<rparr>"
    have "panic_handler D S (bt_console st1) (pd_panic_info S m) (hv_world (bt_hyp st1)) =
        Some (PoweredOff, map_option (print_lines D [pd_panic_info S m]) (bt_console st1),
          snd (pd_system_off S (hv_world (bt_hyp st1))))"
      by (subst panic_handler_step) (simp add: free assms(2) Let_def)
    then show ?thesis
      using main Panicked by (intro exI [of _ "Stopped PoweredOff"] exI [of _ ?st']) (simp add: boot_image_def)
  qed
qed

section \<open>Examples\<close>

text \<open>
  QEMU with 1 GiB of memory, an empty command line and a device tree that is only its address,
  for the examples.
\<close>

definition example_dt :: "(u64, unit, unit, unit, u64, unit, unit, unit) dt_api" where
  "example_dt =
     \<lparr>fdt_child = (\<lambda>_ _. Some ()), node_property = (\<lambda>_ _. None), prop_as_str = (\<lambda>_. Inl ()),
      node_reg = (\<lambda>_. Inr (Some [()])), reg_address = (\<lambda>_. Inr 0x40000000), reg_size = (\<lambda>_. Inr 0x40000000),
      dt_from_fdt = (\<lambda>fdt. fdt), dt_remove_child = (\<lambda>dt _. Some dt), dt_add_child = (\<lambda>dt _. dt),
      dnode_builder = (\<lambda>_. Inr ()), dprop_new = (\<lambda>_ _. Inr ()), dnode_property = (\<lambda>n _. n),
      dt_to_dtb = (\<lambda>_. []), fdt_from_raw = (\<lambda>address _. Inr address)\<rparr>"

definition example_boot_deps :: "(string list, usize, unit, unit, unit, u64, unit) boot_deps" where
  "example_boot_deps =
     \<lparr>bd_log = \<lparr>log_passes = (\<lambda>_ _. True), log_set_logger = (\<lambda>lg _. (Inr (), lg)), log_set_max_level = (\<lambda>lg _. lg),
        log_LevelFilter_Info = ()\<rparr>,
      bd_heap_init = (\<lambda>_ start _. start), bd_HEAP_address = 0x47010000, bd_SHARED_HEAP_address = 0x47100800,
      bd_currentel = 2, bd_fdt_from_raw = Inr, bd_fdt_data_ptr = (\<lambda>fdt. fdt)\<rparr>"

definition screen :: "(string list, unit) driver" where
  "screen =
     \<lparr>drv_write = (\<lambda>con buf. (Inr (of_nat (length buf)), con)), drv_flush = (\<lambda>con. (Inr (), con)),
      drv_write_line = (\<lambda>con l. (Inr (), con @ [l]))\<rparr>"

definition powers_off :: "(unit, unit) panic_deps" where
  "powers_off =
     \<lparr>pd_system_off = (\<lambda>w. (None, w)), pd_expect_info = (\<lambda>msg _. msg), pd_panic_info = (\<lambda>msg. ''panicked: '' @ msg)\<rparr>"

definition example_platform ::
  "usize \<Rightarrow> (string list Qemu, string list, u64, u64, u64 range_table, unit, u64, i32) Platform" where
  "example_platform heap =
     qemu_platform example_dt example_deps example_attrs Dev (\<lambda>_. Some heap)
       \<lparr>uart_new = (\<lambda>_. []), uart_set_interrupt_masks_RXI = (\<lambda>uart. uart)\<rparr> 0x47000000 0x40200000 0x47100800"

lemma example_modify_dt:
  "plat_modify_dt (example_platform heap) self fdt = Done heap"
  by (simp add: example_platform_def qemu_platform_def qemu_modify_dt_def dram_range_def memory_regs_def memory_node_def
      example_dt_def layout_from_size_align_def shared_alloc_def copy_from_slice_def FDT_ALIGNMENT_def RITM_START_def
      RITM_END_def)

lemma example_boot_ok:
  "driver_works screen" "log_crate_ok (bd_log example_boot_deps)" "fst (pd_system_off powers_off v) = None"
  "fst (log_set_logger (bd_log example_boot_deps) lg con) = Inr ()"
  "bd_fdt_from_raw example_boot_deps a = Inr a" "bd_fdt_data_ptr example_boot_deps a = a"
  "0x47100800 = bd_heap_init example_boot_deps 0 (bd_SHARED_HEAP_address example_boot_deps) n"
  by (simp_all add: driver_works_def screen_def log_crate_ok_def example_boot_deps_def powers_off_def)

lemma example_platform_sel:
  "plat_create (example_platform 0) = Done \<lparr>qemu_parts_field = Some \<lparr>pp_console = []\<rparr>\<rparr>"
  "plat_parts (example_platform 0) \<lparr>qemu_parts_field = Some \<lparr>pp_console = []\<rparr>\<rparr> =
     (Some \<lparr>pp_console = []\<rparr>, \<lparr>qemu_parts_field = None\<rparr>)"
  "plat_fdt_address (example_platform heap) self 0x44000000 = (0x44000000, [])"
  "plat_boot_mode (example_platform heap) self fdt = (El1, [])"
  "plat_payload_address (example_platform heap) self = 0x40200000"
  by (simp_all add: example_platform_def qemu_platform_def qemu_create_def UART_BASE_ADDRESS_def qemu_parts_def
      qemu_fdt_address_def qemu_boot_mode_def read_boot_mode_from_cmd_def example_dt_def qemu_payload_address_def)

theorem main_hands_over_witness:
  "\<exists>impl st'. main screen example_boot_deps example_platform example_hyp_deps impl 0x44000000 1 2 3
      (boot_init 8 () 0 example_core 0 ()) = Some (Done ExceptionReturn, st') \<and>
     cr_elr_el2 (hv_core (bt_hyp st')) = 0x40200000 \<and> cpu_x (cr_cpu (hv_core (bt_hyp st'))) 0 = 0x47100800"
proof -
  let ?SB = "\<lparr>SctlrEl2_M = 1, SctlrEl2_C = 4, SctlrEl2_I = 0x1000\<rparr>"
  let ?impl = "\<lambda>s :: cpu. s\<lparr>cpu_x := (cpu_x s)(0 := disable_mmu_and_caches_impl ?SB (cpu_sctlr_el2 s))\<rparr>"
  have impl: "compiled_impl ?SB ?impl" "sctlr_el2_bits_ok ?SB"
    by (simp_all add: compiled_impl_def sctlr_el2_bits_ok_def)
  obtain b where "qemu_configure_memory_access example_deps example_attrs Dev 0x47000000 0x47100800 (builder_new example_deps) =
      Done (Inr (), b)"
    using qemu_configures [OF range_table_deps_ok range_table_succeeds example_layout] by blast
  then have conf: "plat_configure_memory_access (example_platform 0x47100800) (builder_new (hd_stage2 example_hyp_deps)) =
      Done (Inr (), b)"
    by (simp add: example_platform_def qemu_platform_def example_hyp_deps_def)
  obtain st' where "main screen example_boot_deps example_platform example_hyp_deps ?impl 0x44000000 1 2 3
      (boot_init 8 () 0 example_core 0 ()) = Some (Done ExceptionReturn, st')"
    and "cr_elr_el2 (hv_core (bt_hyp st')) = 0x40200000" "cpu_x (cr_cpu (hv_core (bt_hyp st'))) 0 = 0x47100800"
    using main_hands_over [where P = example_platform and heap = 0 and ?x0.0 = "0x44000000" and ?x1.0 = 1 and ?x2.0 = 2
        and ?x3.0 = 3 and n = 8 and c = example_core and s = 0 and w = "()",
        OF example_boot_ok(1,2) example_platform_sel(1,2) refl example_boot_ok(4,7) example_platform_sel(3)
          example_boot_ok(5) example_modify_dt example_platform_sel(4) conf example_hyp_deps_ok(1,5) impl]
    unfolding example_platform_sel(5) example_boot_ok(6) Let_def by auto
  then show ?thesis by blast
qed

theorem boot_always_ends_witness:
  "\<exists>r st'. boot_image screen example_boot_deps powers_off example_platform example_hyp_deps id 0x44000000 1 2 3
     (boot_init 8 () 0 example_core 0 ()) = Some (r, st')"
  using boot_always_ends [OF example_boot_ok(1,3), of "boot_init 8 () 0 example_core 0 ()" example_boot_deps
      example_platform example_hyp_deps id "0x44000000" 1 2 3]
  by (auto simp: boot_init_def)

end
