(* ===== verification/Guest_Run.thy ===== *)
theory Guest_Run
  imports Guest
begin

text \<open>
  Loads and stores of a running guest, from the instruction to its effect: the stage-2 lookup of
  the hardware, which lets the access through or reports a data abort to EL2, and RITM's trap
  handler below it (\<open>src/src/hypervisor.rs\<close>). The syndrome the hardware reports is the one the unit
  tests of \<open>src/memory_access/src/lib.rs\<close> encode.
\<close>

section \<open>The hardware\<close>

text \<open>The page table in use, as the hardware reads it.\<close>

definition stage2_lookup :: "('idmap \<Rightarrow> u64 \<Rightarrow> 'attr option) \<Rightarrow> ('s, 'idmap, 'w) hyp \<Rightarrow> u64 \<Rightarrow> 'attr option" where
  "stage2_lookup maps h ipa = Option.bind (hv_stage2_config h) (\<lambda>config. maps (sc_idmap config) ipa)"

text \<open>
  The registers of a data abort from a lower exception level: class \<open>0x24\<close>, a 32-bit
  instruction, the virtual address in \<open>FAR_EL2\<close> and the page of the intermediate physical address
  in \<open>HPFAR_EL2\<close>.
\<close>

definition data_abort :: "u32 \<Rightarrow> u64 \<Rightarrow> u64 \<Rightarrow> core \<Rightarrow> core" where
  "data_abort iss va ipa c =
     c\<lparr>cr_esr_el2 := push_bit 26 0x24 OR push_bit 25 1 OR take_bit 25 (ucast iss),
       cr_far_el2 := va, cr_hpfar_el2 := push_bit 4 (drop_bit 12 ipa)\<rparr>"

text \<open>
  An access of the guest. \<open>direct\<close> is the memory system; \<open>None\<close> means that RITM does not return
  to the guest.
\<close>

definition guest_access ::
  "('s, 'idmap, 'me, 'attr, 'e, 'w) hyp_deps \<Rightarrow> profile \<Rightarrow> ('idmap \<Rightarrow> u64 \<Rightarrow> 'attr option) \<Rightarrow>
   ('attr \<Rightarrow> u32 \<Rightarrow> u64 \<Rightarrow> GuestRegisterState \<Rightarrow> ('s, 'idmap, 'w) hyp \<Rightarrow> GuestRegisterState \<times> ('s, 'idmap, 'w) hyp) \<Rightarrow>
   u32 \<Rightarrow> u64 \<Rightarrow> u64 \<Rightarrow> GuestRegisterState \<Rightarrow> ('s, 'idmap, 'w) hyp \<Rightarrow>
   (GuestRegisterState \<times> ('s, 'idmap, 'w) hyp) option" where
  "guest_access H pr maps direct iss va ipa rs h =
     (case stage2_lookup maps h ipa of
        Some attr \<Rightarrow> Some (direct attr iss ipa rs h)
      | None \<Rightarrow>
          (case handle_sync_lower H pr rs (h\<lparr>hv_core := data_abort iss va ipa (hv_core h)\<rparr>) of
             Done (Some rs', h') \<Rightarrow> Some (rs', h')
           | _ \<Rightarrow> None))"

section \<open>The decoded syndrome\<close>

lemma data_abort_sel [simp]:
  "get_field 26 6 (cr_esr_el2 (data_abort iss va ipa c)) = 0x24"
  "get_field 0 25 (cr_esr_el2 (data_abort iss va ipa c)) = take_bit 25 (ucast iss)"
  "cr_vbar_el1 (data_abort iss va ipa c) = cr_vbar_el1 c" "cr_far_el2 (data_abort iss va ipa c) = va"
proof -
  have "(0x24 :: u64) = push_bit 2 1 OR push_bit 5 1" by simp
  then have ec: "bit (0x24 :: u64) n \<longleftrightarrow> n = 2 \<or> n = 5" for n by (simp only: bit_simps) auto
  show "get_field 26 6 (cr_esr_el2 (data_abort iss va ipa c)) = 0x24"
    by (rule bit_word_eqI) (auto simp: data_abort_def get_field_def bit_simps ec)
  show "get_field 0 25 (cr_esr_el2 (data_abort iss va ipa c)) = take_bit 25 (ucast iss)"
    by (rule bit_word_eqI) (auto simp: data_abort_def get_field_def bit_simps)
qed (simp_all add: data_abort_def)

lemma get_set_field: "p + n \<le> 64 \<Longrightarrow> get_field p n (set_field p n v x) = take_bit n x"
  by (rule bit_word_eqI) (auto simp: get_field_def set_field_def bit_simps)

lemma fault_ipa_of_address:
  assumes "unat ipa < 2 ^ 52" and "take_bit 12 va = take_bit 12 ipa"
  shows "decode_fault_ipa (get_field 4 40 (push_bit 4 (drop_bit 12 ipa))) va = ipa"
proof (rule bit_word_eqI)
  fix n assume n: "n < LENGTH(64)"
  have "take_bit 52 ipa = ipa" using assms(1) by (simp add: word_unat_eq_iff unat_take_bit)
  then have hi: "bit ipa n \<Longrightarrow> n < 52" by (metis bit_take_bit_iff)
  have lo: "n < 12 \<Longrightarrow> bit va n = bit ipa n" using assms(2) by (metis bit_take_bit_iff)
  have m: "FAULT_IPA_PAGE_OFFSET_MASK = mask 12" by (simp add: iss_field_defs mask_eq_exp_minus_1)
  show "bit (decode_fault_ipa (get_field 4 40 (push_bit 4 (drop_bit 12 ipa))) va) n = bit ipa n"
    using n hi lo unfolding decode_fault_ipa_def m FAULT_IPA_PAGE_SHIFT_def
    by (cases "n < 12") (auto simp: get_field_def bit_simps)
qed

lemma trapped_data_abort:
  assumes S: "arm_sysregs_ok S" and "r < 32" and "unat ipa < 2 ^ 52" and "take_bit 12 va = take_bit 12 ipa"
    and flags: "flags AND NOT (DATA_ABORT_ISS_SSE OR DATA_ABORT_ISS_SF OR DATA_ABORT_ISS_WNR) = 0"
  shows "trapped_access S (data_abort (test_iss w r flags) va ipa c) rs =
    map_option
      (\<lambda>k. \<lparr>dma_ipa = ipa, dma_width = w, dma_kind = k, dma_register_index = ucast r,
            dma_sign_extend = bit flags 21, dma_register_width_64 = bit flags 15\<rparr>)
      (if bit flags 6 then map_option (\<lambda>v. Write (v AND width_mask w)) (read_gpr rs (ucast r)) else Some Read)"
proof -
  let ?iss = "test_iss w r flags"
  have iss: "EsrEl2_iss S (cr_esr_el2 (data_abort ?iss va ipa c)) = take_bit 25 ?iss"
    using S by (simp add: arm_sysregs_ok_def) (rule bit_word_eqI, auto simp: bit_simps)
  have "take_bit 5 (drop_bit 16 (take_bit 25 ?iss)) = take_bit 5 (drop_bit 16 ?iss)"
    by (rule bit_word_eqI) (auto simp: bit_simps)
  then have "decode_memory_access (take_bit 25 ?iss) f a rd = decode_memory_access ?iss f a rd" for f a rd
    by (simp add: decode_memory_access_eq decode_memory_access_kind_def iss_flag_bits bit_simps)
  then show ?thesis
    using S fault_ipa_of_address [OF assms(3,4)] decode_test_iss [OF assms(2) flags, of w]
    by (simp add: trapped_access_def iss) (simp add: arm_sysregs_ok_def data_abort_def)
qed

section \<open>Accesses of a guest on QEMU\<close>

text \<open>The environment of a QEMU guest: what the crates promise, and an image the linker has placed.\<close>

definition qemu_guest_ok ::
  "(u64, 'idmap, 'me, u64, 'e, 'w) hyp_deps \<Rightarrow> ('idmap \<Rightarrow> u64 \<Rightarrow> u64 option) \<Rightarrow> usize \<Rightarrow> usize \<Rightarrow> bool" where
  "qemu_guest_ok H maps image_address heap \<longleftrightarrow>
     stage2_deps_ok (hd_stage2 H) maps \<and> qemu_layout_ok image_address heap \<and>
     arm_sysregs_ok (hd_sysregs H) \<and> activate_keeps H maps"

text \<open>
  What RITM needs of the guest's addresses, each where it is used: the next instruction after an
  emulated access, the vector table for an injected fault.
\<close>

definition guest_addresses_ok :: "profile \<Rightarrow> emulation \<Rightarrow> core \<Rightarrow> GuestRegisterState \<Rightarrow> bool" where
  "guest_addresses_ok pr e c rs \<longleftrightarrow>
     (if e = Faulted then cr_vbar_el1 c \<noteq> 0 \<and> (pr = Release \<or> unat (cr_vbar_el1 c) + 0x200 < 2 ^ 64)
      else pr = Release \<or> unat (fst (exception_return rs)) + 4 < 2 ^ 64)"

text \<open>
  The memory system: an access it performs leaves well-formed registers and changes registers
  of the core only. RITM's own statics are not in the pages a guest may access.
\<close>

definition memory_system_ok ::
  "('attr \<Rightarrow> u32 \<Rightarrow> u64 \<Rightarrow> GuestRegisterState \<Rightarrow> ('s, 'idmap, 'w) hyp \<Rightarrow> GuestRegisterState \<times> ('s, 'idmap, 'w) hyp) \<Rightarrow> bool" where
  "memory_system_ok direct \<longleftrightarrow>
     (\<forall>attr iss ipa rs h. guest_regs_wf rs \<longrightarrow>
        guest_regs_wf (fst (direct attr iss ipa rs h)) \<and> (\<exists>c. snd (direct attr iss ipa rs h) = h\<lparr>hv_core := c\<rparr>))"

text \<open>The access a load or store instruction makes.\<close>

definition access_of :: "MemoryAccessWidth \<Rightarrow> u32 \<Rightarrow> u32 \<Rightarrow> u64 \<Rightarrow> GuestRegisterState \<Rightarrow> DecodedMemoryAccess" where
  "access_of w r flags ipa rs =
     \<lparr>dma_ipa = ipa, dma_width = w,
      dma_kind = (if bit flags 6 then Write (the (read_gpr rs (ucast r)) AND width_mask w) else Read),
      dma_register_index = ucast r, dma_sign_extend = bit flags 21, dma_register_width_64 = bit flags 15\<rparr>"

lemma qemu_access:
  assumes served: "served (qemu_hypervisor H A pr image_address heap) pr' cap h rs"
    and ok: "qemu_guest_ok H maps image_address heap" and addr: "qemu_guest_map A image_address heap ipa \<noteq> None \<or> guest_addresses_ok pr' e (hv_core h) rs"
    and instr: "r < 32" "flags AND NOT (DATA_ABORT_ISS_SSE OR DATA_ABORT_ISS_SF OR DATA_ABORT_ISS_WNR) = 0"
    and ipa: "unat ipa < 2 ^ 52" "take_bit 12 va = take_bit 12 ipa"
    and page: "filtered_page (access_of w r flags ipa rs) (hv_platform h) = (e, s')"
  shows "case qemu_guest_map A image_address heap ipa of
      Some attr \<Rightarrow>
        guest_access (qemu_hypervisor H A pr image_address heap) pr' maps direct (test_iss w r flags) va ipa rs h =
          Some (direct attr (test_iss w r flags) ipa rs h)
    | None \<Rightarrow>
        \<exists>rs' h'. guest_access (qemu_hypervisor H A pr image_address heap) pr' maps direct (test_iss w r flags) va ipa rs h =
            Some (rs', h') \<and>
          served (qemu_hypervisor H A pr image_address heap) pr' cap h' rs' \<and> hv_platform h' = s' \<and>
          cr_vbar_el1 (hv_core h') = cr_vbar_el1 (hv_core h) \<and>
          (case e of
             Loaded v \<Rightarrow> exception_return rs' = (fst (exception_return rs) + 4, snd (exception_return rs)) \<and>
               (\<forall>j. read_gpr rs' j = (if j \<noteq> 31 \<and> j = ucast r then Some v else read_gpr rs j))
           | Stored \<Rightarrow> exception_return rs' = (fst (exception_return rs) + 4, snd (exception_return rs)) \<and>
               read_gpr rs' = read_gpr rs
           | Faulted \<Rightarrow> exception_return rs' = (cr_vbar_el1 (hv_core h) + 0x200, 0x3c5) \<and> read_gpr rs' = read_gpr rs \<and>
               cr_elr_el1 (hv_core h') = fst (exception_return rs) \<and>
               cr_spsr_el1 (hv_core h') = snd (exception_return rs) \<and> cr_far_el1 (hv_core h') = va \<and>
               get_field 26 6 (cr_esr_el1 (hv_core h')) = 0x25)"
proof -
  let ?H = "qemu_hypervisor H A pr image_address heap" and ?iss = "test_iss w r flags"
  let ?h = "h\<lparr>hv_core := data_abort ?iss va ipa (hv_core h)\<rparr>"
  have S: "arm_sysregs_ok (hd_sysregs H)" using ok by (simp add: qemu_guest_ok_def)
  obtain config where run: "guest_running cap h rs" and conf: "hv_stage2_config h = Some config"
    and map: "maps (sc_idmap config) = qemu_guest_map A image_address heap"
    and reg: "sc_memory_access_handlers config = \<lparr>reg_regions = [filtered_mmio_region]\<rparr>"
    using ok qemu_served_handlers [OF served, of maps] by (auto simp: qemu_guest_ok_def)
  have lookup: "stage2_lookup maps h ipa = qemu_guest_map A image_address heap ipa"
    by (simp add: stage2_lookup_def conf map)
  have wf: "guest_regs_wf rs" using run by (simp add: guest_running_def)
  have le: "(ucast r :: usize) \<le> 31"
    using instr(1) by (simp add: word_le_nat_alt word_less_nat_alt unsigned_ucast_eq take_bit_nat_eq_self)
  then obtain v where "read_gpr rs (ucast r) = Some v" using guest.rd_defined [OF wf, of "ucast r"] by blast
  then have acc: "trapped_access (hd_sysregs H) (data_abort ?iss va ipa (hv_core h)) rs = Some (access_of w r flags ipa rs)"
    by (simp add: trapped_data_abort [OF S instr(1) ipa instr(2)] access_of_def)
  have served': "served ?H pr' cap ?h rs" using served wf by (rule served_guest)
  show ?thesis
  proof (cases "qemu_guest_map A image_address heap ipa")
    case None
    let ?pc = "(fst (exception_return rs) + 4, snd (exception_return rs))"
    have "guest_running cap ?h rs" "hv_stage2_config ?h = Some config" "arm_sysregs_ok (hd_sysregs ?H)"
      "get_field 26 6 (cr_esr_el2 (hv_core ?h)) = 0x24"
      "emulation_of (sc_memory_access_handlers config) (trapped_access (hd_sysregs ?H) (hv_core ?h) rs) (hv_platform ?h) = (e, s')"
      "e = Faulted \<or> pr' = Release \<or> unat (fst (exception_return rs)) + 4 < 2 ^ 64"
      "e \<noteq> Faulted \<or> cr_vbar_el1 (hv_core ?h) \<noteq> 0 \<and> (pr' = Release \<or> unat (cr_vbar_el1 (hv_core ?h)) + 0x200 < 2 ^ 64)"
      using run conf reg acc page S addr None
      by (simp_all add: guest_running_def emulation_of_filtered guest_addresses_ok_def split: if_splits)
    note trap = data_abort_trap [OF this(3,1,2,4-7)]
    obtain rs' c' where trap: "handle_sync_lower ?H pr' rs ?h = Done (Some rs', ?h\<lparr>hv_platform := s', hv_core := c'\<rparr>)"
      and eff: "case e of
           Loaded v \<Rightarrow> c' = hv_core ?h \<and> exception_return rs' = ?pc \<and>
             (\<forall>j. read_gpr rs' j = (if j \<noteq> 31 \<and> j = dma_register_index (the (trapped_access (hd_sysregs ?H) (hv_core ?h) rs))
                then Some v else read_gpr rs j))
         | Stored \<Rightarrow> c' = hv_core ?h \<and> exception_return rs' = ?pc \<and> read_gpr rs' = read_gpr rs
         | Faulted \<Rightarrow> c' = (hv_core ?h)\<lparr>cr_elr_el1 := fst (exception_return rs), cr_spsr_el1 := snd (exception_return rs),
               cr_far_el1 := cr_far_el2 (hv_core ?h), cr_esr_el1 := set_field 26 6 (cr_esr_el2 (hv_core ?h)) 0x25\<rparr> \<and>
             exception_return rs' = (cr_vbar_el1 (hv_core ?h) + 0x200, 0x3c5) \<and> read_gpr rs' = read_gpr rs"
      using trap by blast
    have "served ?H pr' cap (?h\<lparr>hv_platform := s', hv_core := c'\<rparr>) rs'" by (rule served_trap [OF served' trap])
    moreover have "guest_access ?H pr' maps direct ?iss va ipa rs h = Some (rs', ?h\<lparr>hv_platform := s', hv_core := c'\<rparr>)"
      by (simp add: guest_access_def lookup None trap)
    ultimately show ?thesis
      using eff None
      by (cases e) (auto simp: acc access_of_def get_set_field intro!: exI [of _ rs'] exI [of _ "?h\<lparr>hv_platform := s', hv_core := c'\<rparr>"])
  qed (simp add: guest_access_def lookup)
qed

section \<open>Properties\<close>


text \<open>The guest of the examples loads the counter of the device into \<open>x5\<close>.\<close>

lemma example_guest_ok: "qemu_guest_ok example_hyp_deps range_table_maps 0x47000000 0x47100800"
  using example_hyp_deps_ok(1,2,7) example_layout
  by (simp add: qemu_guest_ok_def example_hyp_deps_def)

lemma example_served_qemu:
  "\<exists>h. served (qemu_hypervisor example_hyp_deps example_attrs Dev 0x47000000 0x47100800) Dev 8
     (h\<lparr>hv_core := example_core\<rparr>) numbered_regs"
  using example_served served_guest [OF _ numbered_regs_wf] unfolding example_is_qemu by blast

lemma idle_memory_ok: "memory_system_ok (\<lambda>_ _ _ rs h. (rs, h))"
proof -
  have "h = h\<lparr>hv_core := hv_core h\<rparr>" for h :: "('s, 'idmap, 'w) hyp" by (cases h) simp
  then show ?thesis unfolding memory_system_ok_def by (metis fst_conv snd_conv)
qed


end
