(* ===== verification/Integration_Test.thy ===== *)
theory Integration_Test
  imports Guest_Run Boot
begin

text \<open>
  The integration test of the repository (\<open>src/tests/integration_test/src/main.rs\<close>), a guest that
  checks RITM from inside, and the criterion by which its output is judged
  (\<open>src/tests/test_utils.py\<close>). The payload is modelled on an abstract machine, the locale
  \<open>tested_machine\<close> says what it relies on, and a guest of RITM on QEMU is shown to be such a machine.

  Parameters: the UART driver, the PSCI calls of the \<open>smccc\<close> crate, and the class field of a
  syndrome. \<open>pr\<close> is the profile the payload is built with.
\<close>

section \<open>The machine the payload runs on\<close>

text \<open>
  The instructions that may leave the guest: \<open>HVC\<close> with \<open>x0\<close>, \<open>x1\<close>, ... as given, which returns
  \<open>x0\<close>--\<open>x17\<close>, and 64-bit loads and stores of a register. A load or store may enter the payload's
  own exception vector, with a syndrome and a return address; \<open>op_return\<close> is the return from
  there. \<open>None\<close> means that the guest does not run on.
\<close>

record 't machine_ops =
  op_hvc :: "u64 list \<Rightarrow> 't \<Rightarrow> (u64 list \<times> 't) option"
  op_load :: "u32 \<Rightarrow> u64 \<Rightarrow> 't \<Rightarrow> ((u64 \<times> usize) option \<times> 't) option"
  op_store :: "u32 \<Rightarrow> u64 \<Rightarrow> 't \<Rightarrow> ((u64 \<times> usize) option \<times> 't) option"
  op_register :: "u32 \<Rightarrow> 't \<Rightarrow> u64"
  op_set_register :: "u32 \<Rightarrow> u64 \<Rightarrow> 't \<Rightarrow> 't"
  op_return :: "usize \<Rightarrow> 't \<Rightarrow> 't"

text \<open>
  The crates. \<open>py_version_call\<close> and \<open>py_cpu_off_call\<close> are the registers with which \<open>psci::version\<close>
  and \<open>psci::cpu_off\<close> execute \<open>HVC\<close>; the result of the former is read from \<open>x0\<close>.
\<close>

record ('con, 'ce) payload_deps =
  py_uart_new :: "usize \<Rightarrow> 'con"
  py_driver :: "('con, 'ce) driver"
  py_esr_ec :: "u64 \<Rightarrow> u8"
  py_version_call :: "u64 list"
  py_version_is_err :: "u64 \<Rightarrow> bool"
  py_version_debug :: "u64 \<Rightarrow> string"
  py_cpu_off_call :: "u64 list"
  py_panic_info :: "string \<Rightarrow> string"

text \<open>The statics \<open>UART\<close> and \<open>TRAP_COUNT\<close>, beside the machine.\<close>

record ('t, 'con) payload =
  pl_machine :: 't
  pl_UART :: "'con Console option"
  pl_TRAP_COUNT :: usize

section \<open>The payload\<close>

definition test_UART_BASE :: usize where "test_UART_BASE = 0x09000000"
definition test_FILTERED_MMIO_BASE :: usize where "test_FILTERED_MMIO_BASE = 0x0f000000"
definition FILTERED_MMIO_READ_VALUE :: u64 where "FILTERED_MMIO_READ_VALUE = 0xfeedfacecafebeef"
definition FILTERED_MMIO_WRITE_VALUE :: u64 where "FILTERED_MMIO_WRITE_VALUE = 0x123456789abcdef0"
definition FILTERED_MMIO_COUNTER_OFFSET :: usize where "FILTERED_MMIO_COUNTER_OFFSET = 16"

definition FILTERED_MMIO_OFFSET_VALUES :: "(usize \<times> u64) list" where
  "FILTERED_MMIO_OFFSET_VALUES =
     [(24, 0x1111222233334444), (32, 0x5555666677778888), (40, 0x9999aaaabbbbcccc)]"

text \<open>\<open>get_uart\<close>: the first call makes the UART; \<open>lock\<close> spins for ever on a lock that is never released.\<close>

definition get_uart :: "('con, 'ce) payload_deps \<Rightarrow> ('con, ('t, 'con) payload) action" where
  "get_uart Y st =
     (let uart = (case pl_UART st of
            None \<Rightarrow> \<lparr>console_locked = False, console_console = py_uart_new Y test_UART_BASE\<rparr>
          | Some uart \<Rightarrow> uart)
      in if console_locked uart then None
         else Some (Done (console_console uart), st\<lparr>pl_UART := Some (uart\<lparr>console_locked := True\<rparr>)\<rparr>))"

text \<open>\<open>writeln!(get_uart(), ...)\<close>: the result, with the guard still held.\<close>

definition write_uart :: "('con, 'ce) payload_deps \<Rightarrow> string \<Rightarrow> ('ce + unit, ('t, 'con) payload) action" where
  "write_uart Y line =
     before (get_uart Y) (\<lambda>con st.
       (let (result, con) = drv_write_line (py_driver Y) con line
        in Some (Done result, st\<lparr>pl_UART := Some \<lparr>console_locked = True, console_console = con\<rparr>\<rparr>)))"

definition drop_guard :: "(unit, ('t, 'con) payload) action" where
  "drop_guard st = Some (Done (), st\<lparr>pl_UART := map_option (console_locked_update (\<lambda>_. False)) (pl_UART st)\<rparr>)"

text \<open>\<open>unwrap\<close> panics before the end of the statement, where the guard is dropped.\<close>

definition test_println :: "('con, 'ce) payload_deps \<Rightarrow> string \<Rightarrow> (unit, ('t, 'con) payload) action" where
  "test_println Y line =
     before (write_uart Y line) (\<lambda>result.
     before (lift_outcome (expect_ok ''called `Result::unwrap()` on an `Err` value'' result)) (\<lambda>_.
     drop_guard))"

text \<open>\<open>sync_current\<close> of the payload's exception handlers: it counts data aborts and skips them.\<close>

definition sync_current ::
  "('con, 'ce) payload_deps \<Rightarrow> profile \<Rightarrow> u64 \<Rightarrow> usize \<Rightarrow> (usize, ('t, 'con) payload) action" where
  "sync_current Y pr esr elr st =
     (let ec = py_esr_ec Y esr
      in if ec = 0x25 \<or> ec = 0x24
         then lift_outcome (add_int pr elr 4) (st\<lparr>pl_TRAP_COUNT := pl_TRAP_COUNT st + 1\<rparr>)
         else Some (Panicked (''Unexpected exception: ESR='' @ format_alt_x (unat esr)), st))"

text \<open>What follows a load or store: the next instruction, or the exception handler and the return from it.\<close>

definition after_access ::
  "'t machine_ops \<Rightarrow> ('con, 'ce) payload_deps \<Rightarrow> profile \<Rightarrow> ((u64 \<times> usize) option \<times> 't) option \<Rightarrow>
   (unit, ('t, 'con) payload) action" where
  "after_access M Y pr r st =
     (case r of
        None \<Rightarrow> None
      | Some (None, t) \<Rightarrow> Some (Done (), st\<lparr>pl_machine := t\<rparr>)
      | Some (Some (esr, elr), t) \<Rightarrow>
          before (sync_current Y pr esr elr)
            (\<lambda>elr st. Some (Done (), st\<lparr>pl_machine := op_return M elr (pl_machine st)\<rparr>)) (st\<lparr>pl_machine := t\<rparr>))"

text \<open>Instructions: \<open>mov\<close> of a value into \<open>rd\<close>, \<open>ldr rt, [rn]\<close> and \<open>str rt, [rn]\<close>.\<close>

definition set_register :: "'t machine_ops \<Rightarrow> u32 \<Rightarrow> u64 \<Rightarrow> (unit, ('t, 'con) payload) action" where
  "set_register M rd v st = Some (Done (), st\<lparr>pl_machine := op_set_register M rd v (pl_machine st)\<rparr>)"

definition get_register :: "'t machine_ops \<Rightarrow> u32 \<Rightarrow> (u64, ('t, 'con) payload) action" where
  "get_register M r st = Some (Done (op_register M r (pl_machine st)), st)"

definition ldr_reg ::
  "'t machine_ops \<Rightarrow> ('con, 'ce) payload_deps \<Rightarrow> profile \<Rightarrow> u32 \<Rightarrow> u32 \<Rightarrow> (unit, ('t, 'con) payload) action" where
  "ldr_reg M Y pr rt rn st =
     after_access M Y pr (op_load M rt (op_register M rn (pl_machine st)) (pl_machine st)) st"

definition str_reg ::
  "'t machine_ops \<Rightarrow> ('con, 'ce) payload_deps \<Rightarrow> profile \<Rightarrow> u32 \<Rightarrow> u32 \<Rightarrow> (unit, ('t, 'con) payload) action" where
  "str_reg M Y pr rt rn st =
     after_access M Y pr (op_store M rt (op_register M rn (pl_machine st)) (pl_machine st)) st"

text \<open>The \<open>asm!\<close> blocks \<open>ldr x0, [x1]\<close> and \<open>str x0, [x1]\<close> with their operands.\<close>

definition asm_ldr ::
  "'t machine_ops \<Rightarrow> ('con, 'ce) payload_deps \<Rightarrow> profile \<Rightarrow> usize \<Rightarrow> (u64, ('t, 'con) payload) action" where
  "asm_ldr M Y pr address =
     before (set_register M 1 address) (\<lambda>_. before (ldr_reg M Y pr 0 1) (\<lambda>_. get_register M 0))"

definition asm_str ::
  "'t machine_ops \<Rightarrow> ('con, 'ce) payload_deps \<Rightarrow> profile \<Rightarrow> usize \<Rightarrow> u64 \<Rightarrow> (unit, ('t, 'con) payload) action" where
  "asm_str M Y pr address value =
     before (set_register M 0 value) (\<lambda>_. before (set_register M 1 address) (\<lambda>_. str_reg M Y pr 0 1))"

text \<open>
  The naked functions, called with their arguments in \<open>x0\<close> and \<open>x1\<close>. The two words they push and
  pop are \<open>a\<close> and \<open>b\<close>; \<open>sp\<close> is as before at the end.
\<close>

definition read_filtered_mmio_x19 ::
  "'t machine_ops \<Rightarrow> ('con, 'ce) payload_deps \<Rightarrow> profile \<Rightarrow> usize \<Rightarrow> (u64, ('t, 'con) payload) action" where
  "read_filtered_mmio_x19 M Y pr address =
     before (set_register M 0 address) (\<lambda>_.
     before (get_register M 19) (\<lambda>a. before (get_register M 30) (\<lambda>b.
     before (ldr_reg M Y pr 19 0) (\<lambda>_.
     before (get_register M 19) (\<lambda>x19. before (set_register M 0 x19) (\<lambda>_.
     before (set_register M 19 a) (\<lambda>_. before (set_register M 30 b) (\<lambda>_.
     get_register M 0))))))))"

definition write_filtered_mmio_x28 ::
  "'t machine_ops \<Rightarrow> ('con, 'ce) payload_deps \<Rightarrow> profile \<Rightarrow> usize \<Rightarrow> u64 \<Rightarrow> (unit, ('t, 'con) payload) action" where
  "write_filtered_mmio_x28 M Y pr address value =
     before (set_register M 0 address) (\<lambda>_. before (set_register M 1 value) (\<lambda>_.
     before (get_register M 28) (\<lambda>a. before (get_register M 30) (\<lambda>b.
     before (get_register M 1) (\<lambda>x1. before (set_register M 28 x1) (\<lambda>_.
     before (str_reg M Y pr 28 0) (\<lambda>_.
     before (set_register M 28 a) (\<lambda>_. set_register M 30 b))))))))"

text \<open>\<open>HVC\<close> and the \<open>x0\<close> it returns, the only result the tests look at.\<close>

definition hvc_x0 :: "'t machine_ops \<Rightarrow> u64 list \<Rightarrow> (u64, ('t, 'con) payload) action" where
  "hvc_x0 M registers st =
     map_option (\<lambda>(results, t). (Done (results ! 0), st\<lparr>pl_machine := t\<rparr>)) (op_hvc M registers (pl_machine st))"

definition load_TRAP_COUNT :: "(usize, ('t, 'con) payload) action" where
  "load_TRAP_COUNT st = Some (Done (pl_TRAP_COUNT st), st)"

text \<open>\<open>panic!\<close> unless \<open>ok\<close>; \<open>assert_eq!\<close> of the trap count.\<close>

definition panic_unless :: "bool \<Rightarrow> string \<Rightarrow> (unit, ('t, 'con) payload) action" where
  "panic_unless ok message = lift_outcome (if ok then Done () else Panicked message)"

definition assert_trap_count :: "usize \<Rightarrow> string \<Rightarrow> (unit, ('t, 'con) payload) action" where
  "assert_trap_count count message =
     before load_TRAP_COUNT (\<lambda>after.
     panic_unless (after = count)
       (''assertion `left == right` failed: '' @ message @ newline # ''  left: '' @ format_dec (unat after) @
        newline # '' right: '' @ format_dec (unat count)))"

section \<open>The tests\<close>

definition test_psci ::
  "'t machine_ops \<Rightarrow> ('con, 'ce) payload_deps \<Rightarrow> (unit, ('t, 'con) payload) action" where
  "test_psci M Y =
     before (hvc_x0 M (py_version_call Y)) (\<lambda>version.
     before (test_println Y (''TEST: PSCI version: '' @ py_version_debug Y version)) (\<lambda>_.
     panic_unless (\<not> py_version_is_err Y version) ''PSCI version call failed''))"

definition test_dummy_hvc ::
  "'t machine_ops \<Rightarrow> ('con, 'ce) payload_deps \<Rightarrow> (unit, ('t, 'con) payload) action" where
  "test_dummy_hvc M Y =
     before (test_println Y ''TEST: Attempting a dummy HVC call...'') (\<lambda>_.
     before (hvc_x0 M (0xFF000000 # replicate 17 0)) (\<lambda>res.
     before (panic_unless (res = 0x123456789ABCDEF0) (''Dummy HVC failed, x0='' @ format_alt_x (unat res))) (\<lambda>_.
     test_println Y ''TEST: Dummy HVC succeeded'')))"

definition test_unknown_hvc ::
  "'t machine_ops \<Rightarrow> ('con, 'ce) payload_deps \<Rightarrow> (unit, ('t, 'con) payload) action" where
  "test_unknown_hvc M Y =
     before (test_println Y ''TEST: Attempting an unknown HVC call...'') (\<lambda>_.
     before (hvc_x0 M (0xFF000001 # replicate 17 0)) (\<lambda>res.
     test_println Y (''TEST: Unknown HVC handled (returned '' @ format_alt_x (unat res) @ '')'')))"

definition test_mmio_handler ::
  "'t machine_ops \<Rightarrow> ('con, 'ce) payload_deps \<Rightarrow> profile \<Rightarrow> (unit, ('t, 'con) payload) action" where
  "test_mmio_handler M Y pr =
     before (test_println Y ''TEST: Attempting filtered MMIO access...'') (\<lambda>_.
     before load_TRAP_COUNT (\<lambda>count.
     before (asm_ldr M Y pr test_FILTERED_MMIO_BASE) (\<lambda>value.
     before (panic_unless (value = FILTERED_MMIO_READ_VALUE)
       (''Filtered MMIO read returned '' @ format_alt_x (unat value))) (\<lambda>_.
     before (asm_str M Y pr (test_FILTERED_MMIO_BASE + 8) FILTERED_MMIO_WRITE_VALUE) (\<lambda>_.
     before (assert_trap_count count ''Filtered MMIO access unexpectedly faulted'') (\<lambda>_.
     test_println Y ''TEST: Filtered MMIO access succeeded''))))))"

definition test_mmio_handler_callee_saved_registers ::
  "'t machine_ops \<Rightarrow> ('con, 'ce) payload_deps \<Rightarrow> profile \<Rightarrow> (unit, ('t, 'con) payload) action" where
  "test_mmio_handler_callee_saved_registers M Y pr =
     before (test_println Y ''TEST: Attempting filtered MMIO access with callee-saved registers...'') (\<lambda>_.
     before load_TRAP_COUNT (\<lambda>count.
     before (read_filtered_mmio_x19 M Y pr test_FILTERED_MMIO_BASE) (\<lambda>value.
     before (panic_unless (value = FILTERED_MMIO_READ_VALUE)
       (''Filtered MMIO read through x19 returned '' @ format_alt_x (unat value))) (\<lambda>_.
     before (write_filtered_mmio_x28 M Y pr (test_FILTERED_MMIO_BASE + 8) FILTERED_MMIO_WRITE_VALUE) (\<lambda>_.
     before (assert_trap_count count ''Filtered MMIO callee-saved access unexpectedly faulted'') (\<lambda>_.
     test_println Y ''TEST: Filtered MMIO callee-saved register access succeeded''))))))"

text \<open>The \<open>for\<close> loops of the next two tests, over the values still to come.\<close>

fun counter_reads ::
  "'t machine_ops \<Rightarrow> ('con, 'ce) payload_deps \<Rightarrow> profile \<Rightarrow> u64 list \<Rightarrow> (unit, ('t, 'con) payload) action" where
  "counter_reads M Y pr [] = lift_outcome (Done ())"
| "counter_reads M Y pr (expected # rest) =
     before (asm_ldr M Y pr (test_FILTERED_MMIO_BASE + FILTERED_MMIO_COUNTER_OFFSET)) (\<lambda>value.
     before (panic_unless (value = expected)
       (''Filtered MMIO counter read returned '' @ format_alt_x (unat value) @
        '', expected '' @ format_alt_x (unat expected))) (\<lambda>_.
     counter_reads M Y pr rest))"

fun offset_reads ::
  "'t machine_ops \<Rightarrow> ('con, 'ce) payload_deps \<Rightarrow> profile \<Rightarrow> (usize \<times> u64) list \<Rightarrow> (unit, ('t, 'con) payload) action" where
  "offset_reads M Y pr [] = lift_outcome (Done ())"
| "offset_reads M Y pr ((offset, expected) # rest) =
     before (asm_ldr M Y pr (test_FILTERED_MMIO_BASE + offset)) (\<lambda>value.
     before (panic_unless (value = expected)
       (''Filtered MMIO read at offset '' @ format_alt_x (unat offset) @ '' returned '' @ format_alt_x (unat value) @
        '', expected '' @ format_alt_x (unat expected))) (\<lambda>_.
     offset_reads M Y pr rest))"

definition test_mmio_handler_counter ::
  "'t machine_ops \<Rightarrow> ('con, 'ce) payload_deps \<Rightarrow> profile \<Rightarrow> (unit, ('t, 'con) payload) action" where
  "test_mmio_handler_counter M Y pr =
     before (test_println Y ''TEST: Attempting filtered MMIO counter reads...'') (\<lambda>_.
     before load_TRAP_COUNT (\<lambda>count.
     before (counter_reads M Y pr [0, 1, 2, 3]) (\<lambda>_.
     before (assert_trap_count count ''Filtered MMIO counter access unexpectedly faulted'') (\<lambda>_.
     test_println Y ''TEST: Filtered MMIO counter reads succeeded''))))"

definition test_mmio_handler_offsets ::
  "'t machine_ops \<Rightarrow> ('con, 'ce) payload_deps \<Rightarrow> profile \<Rightarrow> (unit, ('t, 'con) payload) action" where
  "test_mmio_handler_offsets M Y pr =
     before (test_println Y ''TEST: Attempting filtered MMIO offset reads...'') (\<lambda>_.
     before load_TRAP_COUNT (\<lambda>count.
     before (offset_reads M Y pr FILTERED_MMIO_OFFSET_VALUES) (\<lambda>_.
     before (assert_trap_count count ''Filtered MMIO offset access unexpectedly faulted'') (\<lambda>_.
     test_println Y ''TEST: Filtered MMIO offset reads succeeded''))))"

text \<open>\<open>rt\<close> and \<open>rn\<close> are the registers the compiler chooses for \<open>read_volatile\<close>.\<close>

definition test_memory_isolation ::
  "'t machine_ops \<Rightarrow> ('con, 'ce) payload_deps \<Rightarrow> profile \<Rightarrow> u32 \<Rightarrow> u32 \<Rightarrow> usize \<Rightarrow> (unit, ('t, 'con) payload) action" where
  "test_memory_isolation M Y pr rt rn RITM_BASE =
     before (test_println Y (''TEST: Attempting to read protected memory at '' @ format_alt_x (unat RITM_BASE))) (\<lambda>_.
     before load_TRAP_COUNT (\<lambda>count.
     before (set_register M rn RITM_BASE) (\<lambda>_.
     before (ldr_reg M Y pr rt rn) (\<lambda>_.
     before (get_register M rt) (\<lambda>val.
     before load_TRAP_COUNT (\<lambda>after.
     before (lift_outcome (add_int pr count 1)) (\<lambda>expected.
     before (panic_unless (after = expected)
       (''Isolation test failed! Read value '' @ format_alt_x (unat val) @ '' from protected memory without trap'')) (\<lambda>_.
     test_println Y ''TEST: Caught expected Data Abort! Isolation test passed.''))))))))"

definition run_tests ::
  "'t machine_ops \<Rightarrow> ('con, 'ce) payload_deps \<Rightarrow> profile \<Rightarrow> u32 \<Rightarrow> u32 \<Rightarrow> usize \<Rightarrow> (unit, ('t, 'con) payload) action" where
  "run_tests M Y pr rt rn RITM_BASE =
     before (test_println Y ''TEST: Starting integration tests'') (\<lambda>_.
     before (test_psci M Y) (\<lambda>_.
     before (test_dummy_hvc M Y) (\<lambda>_.
     before (test_unknown_hvc M Y) (\<lambda>_.
     before (test_mmio_handler M Y pr) (\<lambda>_.
     before (test_mmio_handler_callee_saved_registers M Y pr) (\<lambda>_.
     before (test_mmio_handler_counter M Y pr) (\<lambda>_.
     before (test_mmio_handler_offsets M Y pr) (\<lambda>_.
     before (test_memory_isolation M Y pr rt rn RITM_BASE) (\<lambda>_.
     test_println Y ''TEST: All tests passed!'')))))))))"

text \<open>
  \<open>power_off\<close> never returns: the core is off, or it waits for interrupts for ever. The result is
  the state it is left in.
\<close>

definition power_off ::
  "'t machine_ops \<Rightarrow> ('con, 'ce) payload_deps \<Rightarrow> ('t, 'con) payload \<Rightarrow> ('t, 'con) payload" where
  "power_off M Y st =
     (case op_hvc M (py_cpu_off_call Y) (pl_machine st) of
        None \<Rightarrow> st
      | Some (_, t) \<Rightarrow> st\<lparr>pl_machine := t\<rparr>)"

text \<open>The panic handler; \<open>None\<close> if it waits for the UART for ever.\<close>

definition test_panic ::
  "'t machine_ops \<Rightarrow> ('con, 'ce) payload_deps \<Rightarrow> string \<Rightarrow> ('t, 'con) payload \<Rightarrow> ('t, 'con) payload option" where
  "test_panic M Y message st =
     map_option (\<lambda>(_, st). power_off M Y st)
       (before (write_uart Y (''TEST: PANIC: '' @ py_panic_info Y message)) (\<lambda>_. drop_guard) st)"

definition integration_test_main ::
  "'t machine_ops \<Rightarrow> ('con, 'ce) payload_deps \<Rightarrow> profile \<Rightarrow> u32 \<Rightarrow> u32 \<Rightarrow> usize \<Rightarrow> ('t, 'con) payload \<Rightarrow>
   ('t, 'con) payload option" where
  "integration_test_main M Y pr rt rn RITM_BASE st =
     (case run_tests M Y pr rt rn RITM_BASE st of
        None \<Rightarrow> None
      | Some (Done _, st) \<Rightarrow> Some (power_off M Y st)
      | Some (Panicked message, st) \<Rightarrow> test_panic M Y message st)"

section \<open>The verdict\<close>

text \<open>Python's \<open>in\<close> on strings, and \<open>read_output\<close> on the lines QEMU prints.\<close>

fun str_contains :: "string \<Rightarrow> string \<Rightarrow> bool" where
  "str_contains p [] = (p = [])"
| "str_contains p (c # cs) = (take (length p) (c # cs) = p \<or> str_contains p cs)"

fun read_output :: "string \<Rightarrow> string \<Rightarrow> string list \<Rightarrow> bool" where
  "read_output success_string failure_string [] = False"
| "read_output success_string failure_string (line # rest) =
     (if str_contains failure_string line then False
      else if str_contains success_string line then True
      else read_output success_string failure_string rest)"

section \<open>Actions that succeed\<close>

text \<open>From every state in \<open>P\<close>, the action returns, and its value and the state after it are in \<open>Q\<close>.\<close>

definition does :: "('a, 'st) action \<Rightarrow> ('st \<Rightarrow> bool) \<Rightarrow> ('a \<Rightarrow> 'st \<Rightarrow> bool) \<Rightarrow> bool" where
  "does m P Q \<longleftrightarrow> (\<forall>st. P st \<longrightarrow> (\<exists>x st'. m st = Some (Done x, st') \<and> Q x st'))"

definition returns :: "'a \<Rightarrow> ('st \<Rightarrow> bool) \<Rightarrow> 'a \<Rightarrow> 'st \<Rightarrow> bool" where
  "returns v R x st \<longleftrightarrow> x = v \<and> R st"

lemma doesI: "(\<And>st. P st \<Longrightarrow> \<exists>x st'. m st = Some (Done x, st') \<and> Q x st') \<Longrightarrow> does m P Q"
  by (simp add: does_def)

lemma doesE:
  assumes "does m P Q" and "P st"
  obtains x st' where "m st = Some (Done x, st')" and "Q x st'"
  using assms unfolding does_def by blast

lemma does_before_any:
  assumes "does m P R" and "\<And>x. does (f x) (R x) Q"
  shows "does (before m f) P Q"
  using assms unfolding does_def before_def by fastforce

lemma does_before: "does m P (returns v R) \<Longrightarrow> does (f v) R Q \<Longrightarrow> does (before m f) P Q"
  by (rule does_before_any [where R = "returns v R"]) (auto simp: does_def returns_def)

lemma does_panic_unless: "ok \<Longrightarrow> does (panic_unless ok message) P (returns () P)"
  by (simp add: does_def panic_unless_def lift_outcome_def returns_def)

lemma does_lift_Done: "does (lift_outcome (Done v)) P (returns v P)"
  by (simp add: does_def lift_outcome_def returns_def)

section \<open>What the payload relies on\<close>

text \<open>The output of a run in which every test passes.\<close>

definition expected_output :: "('con, 'ce) payload_deps \<Rightarrow> u64 \<Rightarrow> usize \<Rightarrow> string list" where
  "expected_output Y version ritm_base =
     [''TEST: Starting integration tests'', ''TEST: PSCI version: '' @ py_version_debug Y version,
      ''TEST: Attempting a dummy HVC call...'', ''TEST: Dummy HVC succeeded'',
      ''TEST: Attempting an unknown HVC call...'',
      ''TEST: Unknown HVC handled (returned '' @ format_alt_x (unat (0xFFFFFFFFFFFFFFFF :: u64)) @ '')'',
      ''TEST: Attempting filtered MMIO access...'', ''TEST: Filtered MMIO access succeeded'',
      ''TEST: Attempting filtered MMIO access with callee-saved registers...'',
      ''TEST: Filtered MMIO callee-saved register access succeeded'',
      ''TEST: Attempting filtered MMIO counter reads...'', ''TEST: Filtered MMIO counter reads succeeded'',
      ''TEST: Attempting filtered MMIO offset reads...'', ''TEST: Filtered MMIO offset reads succeeded'',
      ''TEST: Attempting to read protected memory at '' @ format_alt_x (unat ritm_base),
      ''TEST: Caught expected Data Abort! Isolation test passed.'', ''TEST: All tests passed!'']"

text \<open>The lines printed so far.\<close>

definition printed :: "('con, 'ce) payload_deps \<Rightarrow> string list \<Rightarrow> 'con Console option \<Rightarrow> bool" where
  "printed Y ls uart \<longleftrightarrow>
     (let first = \<lparr>console_locked = False, console_console = py_uart_new Y test_UART_BASE\<rparr> in
      case uart of None \<Rightarrow> ls = [] | Some c \<Rightarrow> c = print_lines (py_driver Y) ls first)"

text \<open>
  The contract: \<open>inv t k\<close> says that \<open>t\<close> is a guest of RITM and that the counter of the test device
  stands at \<open>k\<close>. Registers hold what is put there; PSCI, the dummy call and unknown calls are
  answered; the device's registers are emulated without an exception; a load from the image
  enters the exception vector and can be skipped.
\<close>

locale tested_machine =
  fixes M :: "'t machine_ops" and Y :: "('con, 'ce) payload_deps" and inv :: "'t \<Rightarrow> u64 \<Rightarrow> bool"
    and version :: u64 and ritm_base :: usize
  assumes set_register: "inv t k \<Longrightarrow> r < 31 \<Longrightarrow> inv (op_set_register M r v t) k \<and>
      (\<forall>j<31. op_register M j (op_set_register M r v t) = (if j = r then v else op_register M j t))"
    and driver: "inv t k \<Longrightarrow> driver_works (py_driver Y)"
    and hvc_version: "inv t k \<Longrightarrow> \<exists>xs t'. op_hvc M (py_version_call Y) t = Some (xs, t') \<and>
      xs ! 0 = version \<and> \<not> py_version_is_err Y version \<and> inv t' k"
    and hvc_dummy: "inv t k \<Longrightarrow> \<exists>xs t'. op_hvc M (0xFF000000 # replicate 17 0) t = Some (xs, t') \<and>
      xs ! 0 = 0x123456789ABCDEF0 \<and> inv t' k"
    and hvc_unknown: "inv t k \<Longrightarrow> \<exists>xs t'. op_hvc M (0xFF000001 # replicate 17 0) t = Some (xs, t') \<and>
      xs ! 0 = 0xFFFFFFFFFFFFFFFF \<and> inv t' k"
    and load_device: "inv t k \<Longrightarrow> r < 31 \<Longrightarrow> (offset, v) \<in> set ((0, 0xfeedfacecafebeef) # FILTERED_MMIO_OFFSET_VALUES) \<Longrightarrow>
      \<exists>t'. op_load M r (test_FILTERED_MMIO_BASE + offset) t = Some (None, t') \<and> op_register M r t' = v \<and> inv t' k"
    and load_counter: "inv t k \<Longrightarrow> r < 31 \<Longrightarrow>
      \<exists>t'. op_load M r (test_FILTERED_MMIO_BASE + 16) t = Some (None, t') \<and> op_register M r t' = k \<and> inv t' (k + 1)"
    and store_device: "inv t k \<Longrightarrow> r < 31 \<Longrightarrow> op_register M r t = 0x123456789abcdef0 \<Longrightarrow>
      \<exists>t'. op_store M r (test_FILTERED_MMIO_BASE + 8) t = Some (None, t') \<and> inv t' k"
    and load_image: "inv t k \<Longrightarrow> r < 31 \<Longrightarrow>
      \<exists>esr elr t'. op_load M r ritm_base t = Some (Some (esr, elr), t') \<and> py_esr_ec Y esr = 0x25 \<and>
        unat elr + 4 < 2 ^ 64 \<and> inv (op_return M (elr + 4) t') k"
begin

text \<open>A state of the payload: the device's counter, the data aborts taken, the lines printed.\<close>

definition payload_at :: "u64 \<Rightarrow> usize \<Rightarrow> string list \<Rightarrow> ('t, 'con) payload \<Rightarrow> bool" where
  "payload_at k n ls st \<longleftrightarrow> inv (pl_machine st) k \<and> pl_TRAP_COUNT st = n \<and> printed Y ls (pl_UART st)"

lemma println: "does (test_println Y l) (payload_at k n ls) (returns () (payload_at k n (ls @ [l])))"
proof (rule doesI)
  fix st assume st: "payload_at k n ls st"
  let ?first = "\<lparr>console_locked = False, console_console = py_uart_new Y test_UART_BASE\<rparr>"
  let ?c = "print_lines (py_driver Y) ls ?first"
  have uart: "(case pl_UART st of None \<Rightarrow> ?first | Some c \<Rightarrow> c) = ?c"
    using st by (auto simp: payload_at_def printed_def print_lines_Nil split: option.splits)
  have works: "fst (drv_write_line (py_driver Y) con l) = Inr ()" for con
    using st driver [of "pl_machine st" k] by (simp add: payload_at_def driver_works_def)
  let ?con = "snd (drv_write_line (py_driver Y) (console_console ?c) l)"
  let ?st = "st\<lparr>pl_UART := Some \<lparr>console_locked = False, console_console = ?con\<rparr>\<rparr>"
  have "test_println Y l st = Some (Done (), ?st)"
    using works [of "console_console ?c"]
    by (simp add: test_println_def write_uart_def get_uart_def before_def uart drop_guard_def lift_outcome_def
        Let_def case_prod_beta)
  moreover have "payload_at k n (ls @ [l]) ?st"
    using st by (simp add: payload_at_def printed_def print_lines_def)
  ultimately show "\<exists>x st'. test_println Y l st = Some (Done x, st') \<and> returns () (payload_at k n (ls @ [l])) x st'"
    by (simp add: returns_def)
qed

text \<open>Accesses from the payload's code.\<close>

lemmas access_defs = before_def set_register_def get_register_def ldr_reg_def str_reg_def after_access_def

lemma asm_ldr_steps:
  assumes "\<And>t. inv t k \<Longrightarrow> \<exists>t'. op_load M 0 a t = Some (None, t') \<and> op_register M 0 t' = v \<and> inv t' k'"
  shows "does (asm_ldr M Y pr a) (payload_at k n ls) (returns v (payload_at k' n ls))"
proof (rule doesI)
  fix st assume st: "payload_at k n ls st"
  let ?t = "op_set_register M 1 a (pl_machine st)"
  have t: "inv ?t k" "op_register M 1 ?t = a"
    using st set_register [of "pl_machine st" k 1 a] by (simp_all add: payload_at_def)
  obtain t' where "op_load M 0 a ?t = Some (None, t')" "op_register M 0 t' = v" "inv t' k'"
    using assms [OF t(1)] by blast
  then have "asm_ldr M Y pr a st = Some (Done v, st\<lparr>pl_machine := t'\<rparr>)" "payload_at k' n ls (st\<lparr>pl_machine := t'\<rparr>)"
    using st t(2) by (simp_all add: asm_ldr_def access_defs payload_at_def)
  then show "\<exists>x st'. asm_ldr M Y pr a st = Some (Done x, st') \<and> returns v (payload_at k' n ls) x st'"
    by (simp add: returns_def)
qed

lemma x19_steps:
  "does (read_filtered_mmio_x19 M Y pr test_FILTERED_MMIO_BASE) (payload_at k n ls)
     (returns FILTERED_MMIO_READ_VALUE (payload_at k n ls))"
proof (rule doesI)
  fix st assume st: "payload_at k n ls st"
  let ?v = FILTERED_MMIO_READ_VALUE and ?t = "op_set_register M 0 test_FILTERED_MMIO_BASE (pl_machine st)"
  have t: "inv ?t k" "op_register M 0 ?t = test_FILTERED_MMIO_BASE"
    using st set_register [of "pl_machine st" k 0 test_FILTERED_MMIO_BASE] by (simp_all add: payload_at_def)
  obtain t' where t': "op_load M 19 test_FILTERED_MMIO_BASE ?t = Some (None, t')" "op_register M 19 t' = ?v" "inv t' k"
    using load_device [OF t(1), of 19 0 ?v] by (auto simp: FILTERED_MMIO_READ_VALUE_def)
  let ?t2 = "op_set_register M 0 ?v t'"
  let ?t3 = "op_set_register M 19 (op_register M 19 ?t) ?t2"
  let ?t4 = "op_set_register M 30 (op_register M 30 ?t) ?t3"
  have t2: "inv ?t2 k" "op_register M 0 ?t2 = ?v" using set_register [OF t'(3), of 0] by simp_all
  have t3: "inv ?t3 k" "op_register M 0 ?t3 = ?v" using set_register [OF t2(1), of 19] t2(2) by simp_all
  have t4: "inv ?t4 k" "op_register M 0 ?t4 = ?v" using set_register [OF t3(1), of 30] t3(2) by simp_all
  have "read_filtered_mmio_x19 M Y pr test_FILTERED_MMIO_BASE st = Some (Done ?v, st\<lparr>pl_machine := ?t4\<rparr>)"
    using t(2) t'(1,2) t4(2) by (simp add: read_filtered_mmio_x19_def access_defs)
  then show "\<exists>x st'. read_filtered_mmio_x19 M Y pr test_FILTERED_MMIO_BASE st = Some (Done x, st') \<and>
      returns ?v (payload_at k n ls) x st'"
    using st t4(1) by (simp add: returns_def payload_at_def)
qed

lemma asm_str_steps:
  "does (asm_str M Y pr (test_FILTERED_MMIO_BASE + 8) FILTERED_MMIO_WRITE_VALUE) (payload_at k n ls)
     (returns () (payload_at k n ls))"
proof (rule doesI)
  fix st assume st: "payload_at k n ls st"
  let ?a = "test_FILTERED_MMIO_BASE + 8" and ?v = FILTERED_MMIO_WRITE_VALUE
  let ?t1 = "op_set_register M 0 ?v (pl_machine st)"
  let ?t = "op_set_register M 1 ?a ?t1"
  have t1: "inv ?t1 k" "op_register M 0 ?t1 = ?v"
    using st set_register [of "pl_machine st" k 0 ?v] by (simp_all add: payload_at_def)
  have t: "inv ?t k" "op_register M 1 ?t = ?a" "op_register M 0 ?t = ?v"
    using set_register [OF t1(1), of 1 ?a] t1(2) by simp_all
  obtain t' where "op_store M 0 ?a ?t = Some (None, t')" "inv t' k"
    using store_device [OF t(1), of 0] t(3) by (auto simp: FILTERED_MMIO_WRITE_VALUE_def)
  then show "\<exists>x st'. asm_str M Y pr ?a ?v st = Some (Done x, st') \<and> returns () (payload_at k n ls) x st'"
    using st t(2) by (simp add: asm_str_def access_defs returns_def payload_at_def)
qed

lemma x28_steps:
  "does (write_filtered_mmio_x28 M Y pr (test_FILTERED_MMIO_BASE + 8) FILTERED_MMIO_WRITE_VALUE) (payload_at k n ls)
     (returns () (payload_at k n ls))"
proof (rule doesI)
  fix st assume st: "payload_at k n ls st"
  let ?a = "test_FILTERED_MMIO_BASE + 8" and ?v = FILTERED_MMIO_WRITE_VALUE
  let ?ta = "op_set_register M 0 ?a (pl_machine st)"
  let ?t1 = "op_set_register M 1 ?v ?ta"
  let ?t = "op_set_register M 28 ?v ?t1"
  have ta: "inv ?ta k" "op_register M 0 ?ta = ?a"
    using st set_register [of "pl_machine st" k 0 ?a] by (simp_all add: payload_at_def)
  have t1: "inv ?t1 k" "op_register M 0 ?t1 = ?a" "op_register M 1 ?t1 = ?v"
    using set_register [OF ta(1), of 1 ?v] ta(2) by simp_all
  have t: "inv ?t k" "op_register M 0 ?t = ?a" "op_register M 28 ?t = ?v"
    using set_register [OF t1(1), of 28 ?v] t1(2) by simp_all
  obtain t' where t': "op_store M 28 ?a ?t = Some (None, t')" "inv t' k"
    using store_device [OF t(1), of 28] t(3) by (auto simp: FILTERED_MMIO_WRITE_VALUE_def)
  let ?t2 = "op_set_register M 28 (op_register M 28 ?t1) t'"
  have "inv ?t2 k" using set_register [OF t'(2), of 28] by simp
  then have "inv (op_set_register M 30 (op_register M 30 ?t1) ?t2) k" using set_register [of ?t2 k 30] by simp
  then show "\<exists>x st'. write_filtered_mmio_x28 M Y pr ?a ?v st = Some (Done x, st') \<and> returns () (payload_at k n ls) x st'"
    using st t(2) t1(3) t'(1) by (simp add: write_filtered_mmio_x28_def access_defs returns_def payload_at_def)
qed

lemma hvc_steps:
  assumes "\<And>t. inv t k \<Longrightarrow> \<exists>xs t'. op_hvc M regs t = Some (xs, t') \<and> xs ! 0 = v \<and> inv t' k"
  shows "does (hvc_x0 M regs) (payload_at k n ls) (returns v (payload_at k n ls))"
  using assms by (fastforce simp: does_def hvc_x0_def returns_def payload_at_def)

lemma trap_count_steps: "does load_TRAP_COUNT (payload_at k n ls) (returns n (payload_at k n ls))"
  by (simp add: does_def load_TRAP_COUNT_def returns_def payload_at_def)

lemma assert_steps: "does (assert_trap_count n m) (payload_at k n ls) (returns () (payload_at k n ls))"
  unfolding assert_trap_count_def by (rule does_before [OF trap_count_steps]) (simp add: does_panic_unless)

lemma image_steps:
  assumes "r < 31" and "rn < 31"
  shows "does (set_register M rn ritm_base) (payload_at k n ls)
      (returns () (\<lambda>st. payload_at k n ls st \<and> op_register M rn (pl_machine st) = ritm_base))"
    and "does (ldr_reg M Y pr r rn) (\<lambda>st. payload_at k n ls st \<and> op_register M rn (pl_machine st) = ritm_base)
      (returns () (payload_at k (n + 1) ls))"
proof -
  show "does (set_register M rn ritm_base) (payload_at k n ls)
      (returns () (\<lambda>st. payload_at k n ls st \<and> op_register M rn (pl_machine st) = ritm_base))"
    using set_register [OF _ assms(2)] assms(2) by (auto simp: does_def set_register_def returns_def payload_at_def)
  show "does (ldr_reg M Y pr r rn) (\<lambda>st. payload_at k n ls st \<and> op_register M rn (pl_machine st) = ritm_base)
      (returns () (payload_at k (n + 1) ls))"
  proof (rule doesI)
    fix st assume st: "payload_at k n ls st \<and> op_register M rn (pl_machine st) = ritm_base"
    then obtain esr elr t' where "op_load M r ritm_base (pl_machine st) = Some (Some (esr, elr), t')"
      "py_esr_ec Y esr = 0x25" "unat elr + 4 < 2 ^ 64" "inv (op_return M (elr + 4) t') k"
      using load_image [OF _ assms(1)] unfolding payload_at_def by blast
    then show "\<exists>x st'. ldr_reg M Y pr r rn st = Some (Done x, st') \<and> returns () (payload_at k (n + 1) ls) x st'"
      using st by (simp add: access_defs sync_current_def add_int_def lift_outcome_def returns_def payload_at_def)
  qed
qed

lemma get_register_steps: "does (get_register M r) P (\<lambda>_. P)"
  by (simp add: does_def get_register_def)

text \<open>One step of a test each; \<open>Q\<close> is what the rest of the test achieves.\<close>

lemma println_step:
  "does (f ()) (payload_at k n (ls @ [l])) Q \<Longrightarrow> does (before (test_println Y l) f) (payload_at k n ls) Q"
  by (rule does_before [OF println])

lemma println_end: "ls' = ls @ [l] \<Longrightarrow> does (test_println Y l) (payload_at k n ls) (returns () (payload_at k n ls'))"
  by (simp add: println)

lemma check_step: "ok \<Longrightarrow> does (f ()) P Q \<Longrightarrow> does (before (panic_unless ok m) f) P Q"
  by (rule does_before [OF does_panic_unless])

lemma trap_count_step: "does (f n) (payload_at k n ls) Q \<Longrightarrow> does (before load_TRAP_COUNT f) (payload_at k n ls) Q"
  by (rule does_before [OF trap_count_steps])

lemma assert_step: "does (f ()) (payload_at k n ls) Q \<Longrightarrow> does (before (assert_trap_count n m) f) (payload_at k n ls) Q"
  by (rule does_before [OF assert_steps])

lemma hvc_step:
  "does (f 0x123456789ABCDEF0) (payload_at k n ls) Q \<Longrightarrow>
   does (before (hvc_x0 M (0xFF000000 # replicate 17 0)) f) (payload_at k n ls) Q"
  "does (f' 0xFFFFFFFFFFFFFFFF) (payload_at k n ls) Q \<Longrightarrow>
   does (before (hvc_x0 M (0xFF000001 # replicate 17 0)) f') (payload_at k n ls) Q"
  by (erule does_before [OF hvc_steps [OF hvc_dummy], rotated], assumption)
    (erule does_before [OF hvc_steps [OF hvc_unknown], rotated], assumption)

lemma load_step:
  "does (f FILTERED_MMIO_READ_VALUE) (payload_at k n ls) Q \<Longrightarrow>
   does (before (asm_ldr M Y pr test_FILTERED_MMIO_BASE) f) (payload_at k n ls) Q"
  "does (f FILTERED_MMIO_READ_VALUE) (payload_at k n ls) Q \<Longrightarrow>
   does (before (read_filtered_mmio_x19 M Y pr test_FILTERED_MMIO_BASE) f) (payload_at k n ls) Q"
  "does (f' k) (payload_at (k + 1) n ls) Q \<Longrightarrow>
   does (before (asm_ldr M Y pr (test_FILTERED_MMIO_BASE + FILTERED_MMIO_COUNTER_OFFSET)) f') (payload_at k n ls) Q"
  using load_device [of _ k 0 0 FILTERED_MMIO_READ_VALUE] load_counter [of _ k 0]
  by (auto simp: FILTERED_MMIO_READ_VALUE_def FILTERED_MMIO_COUNTER_OFFSET_def
      intro!: does_before [OF asm_ldr_steps] does_before [OF x19_steps])

lemma store_step:
  "does (f ()) (payload_at k n ls) Q \<Longrightarrow>
   does (before (asm_str M Y pr (test_FILTERED_MMIO_BASE + 8) FILTERED_MMIO_WRITE_VALUE) f) (payload_at k n ls) Q"
  "does (f ()) (payload_at k n ls) Q \<Longrightarrow>
   does (before (write_filtered_mmio_x28 M Y pr (test_FILTERED_MMIO_BASE + 8) FILTERED_MMIO_WRITE_VALUE) f) (payload_at k n ls) Q"
  by (rule does_before [OF asm_str_steps], assumption) (rule does_before [OF x28_steps])

lemmas test_steps = println_step println_end check_step trap_count_step assert_step hvc_step load_step store_step

text \<open>The tests, one after the other.\<close>

lemma test_psci_passes:
  assumes "inv t k"
  shows "does (test_psci M Y) (payload_at k n ls)
    (returns () (payload_at k n (ls @ [''TEST: PSCI version: '' @ py_version_debug Y version])))"
proof -
  have "\<not> py_version_is_err Y version" using hvc_version [OF assms] by blast
  then show ?thesis
    unfolding test_psci_def using hvc_version
    by (intro does_before [OF hvc_steps [where v = version]] println_step does_panic_unless) blast+
qed

lemma test_dummy_hvc_passes:
  "does (test_dummy_hvc M Y) (payload_at k n ls) (returns ()
     (payload_at k n (ls @ [''TEST: Attempting a dummy HVC call...'', ''TEST: Dummy HVC succeeded''])))"
  unfolding test_dummy_hvc_def by (intro test_steps) simp_all

lemma test_unknown_hvc_passes:
  "does (test_unknown_hvc M Y) (payload_at k n ls) (returns ()
     (payload_at k n (ls @ [''TEST: Attempting an unknown HVC call...'',
        ''TEST: Unknown HVC handled (returned '' @ format_alt_x (unat (0xFFFFFFFFFFFFFFFF :: u64)) @ '')''])))"
  unfolding test_unknown_hvc_def by (intro test_steps) simp_all

lemma test_mmio_handler_passes:
  "does (test_mmio_handler M Y pr) (payload_at k n ls) (returns ()
     (payload_at k n (ls @ [''TEST: Attempting filtered MMIO access...'', ''TEST: Filtered MMIO access succeeded''])))"
  unfolding test_mmio_handler_def by (intro test_steps) simp_all

lemma test_mmio_handler_callee_saved_registers_passes:
  "does (test_mmio_handler_callee_saved_registers M Y pr) (payload_at k n ls) (returns ()
     (payload_at k n (ls @ [''TEST: Attempting filtered MMIO access with callee-saved registers...'',
        ''TEST: Filtered MMIO callee-saved register access succeeded''])))"
  unfolding test_mmio_handler_callee_saved_registers_def by (intro test_steps) simp_all

lemma counter_reads_pass:
  "does (counter_reads M Y pr [0, 1, 2, 3]) (payload_at 0 n ls) (returns () (payload_at 4 n ls))"
  using does_lift_Done [of "()" "payload_at 4 n ls"]
  by (auto intro!: load_step(3) check_step)

lemma offset_reads_pass:
  "set rest \<subseteq> set FILTERED_MMIO_OFFSET_VALUES \<Longrightarrow>
   does (offset_reads M Y pr rest) (payload_at k n ls) (returns () (payload_at k n ls))"
proof (induction rest)
  case (Cons p rest)
  obtain offset v where p: "p = (offset, v)" by (cases p)
  have "does (asm_ldr M Y pr (test_FILTERED_MMIO_BASE + offset)) (payload_at k n ls) (returns v (payload_at k n ls))"
    using load_device [of _ k 0 offset v] Cons.prems p by (intro asm_ldr_steps) auto
  then show ?case using Cons by (auto simp: p intro!: does_before check_step)
qed (simp add: does_lift_Done)

lemma test_mmio_handler_counter_passes:
  "does (test_mmio_handler_counter M Y pr) (payload_at 0 n ls) (returns ()
     (payload_at 4 n (ls @ [''TEST: Attempting filtered MMIO counter reads...'',
        ''TEST: Filtered MMIO counter reads succeeded''])))"
  unfolding test_mmio_handler_counter_def by (intro does_before [OF counter_reads_pass] test_steps) simp_all

lemma test_mmio_handler_offsets_passes:
  "does (test_mmio_handler_offsets M Y pr) (payload_at k n ls) (returns ()
     (payload_at k n (ls @ [''TEST: Attempting filtered MMIO offset reads...'',
        ''TEST: Filtered MMIO offset reads succeeded''])))"
  unfolding test_mmio_handler_offsets_def by (intro does_before [OF offset_reads_pass] test_steps) simp_all

lemma test_memory_isolation_passes:
  assumes "rt < 31" and "rn < 31" and "unat n + 1 < 2 ^ 64"
  shows "does (test_memory_isolation M Y pr rt rn ritm_base) (payload_at k n ls) (returns ()
     (payload_at k (n + 1) (ls @ [''TEST: Attempting to read protected memory at '' @ format_alt_x (unat ritm_base),
        ''TEST: Caught expected Data Abort! Isolation test passed.''])))"
proof -
  have "add_int pr n 1 = Done (n + 1)" using assms(3) by (simp add: add_int_def)
  then show ?thesis
    unfolding test_memory_isolation_def
    by (auto intro!: println_step trap_count_step check_step println_end does_before_any [OF get_register_steps]
        does_before [OF image_steps(1) [OF assms(1,2)]] does_before [OF image_steps(2) [OF assms(1,2)]]
        does_before [OF does_lift_Done])
qed

lemma all_tests_pass:
  assumes start: "inv (pl_machine st) 0" "pl_TRAP_COUNT st = 0" "pl_UART st = None" and regs: "rt < 31" "rn < 31"
  obtains st' where "integration_test_main M Y pr rt rn ritm_base st = Some st'"
    and "printed Y (expected_output Y version ritm_base) (pl_UART st')" and "pl_TRAP_COUNT st' = 1"
proof -
  note psci = test_psci_passes [OF start(1)]
  have one: "unat (0 :: usize) + 1 < 2 ^ 64" by simp
  have "does (run_tests M Y pr rt rn ritm_base) (payload_at 0 0 []) (returns () (payload_at 4 (0 + 1) (expected_output Y version ritm_base)))"
    unfolding run_tests_def
    by (intro println_step does_before [OF psci] does_before [OF test_dummy_hvc_passes]
        does_before [OF test_unknown_hvc_passes] does_before [OF test_mmio_handler_passes]
        does_before [OF test_mmio_handler_callee_saved_registers_passes] does_before [OF test_mmio_handler_counter_passes]
        does_before [OF test_mmio_handler_offsets_passes] does_before [OF test_memory_isolation_passes [OF regs one]]
        println_end) (simp add: expected_output_def)
  moreover have "payload_at 0 0 [] st" using start by (simp add: payload_at_def printed_def)
  ultimately obtain x st1 where run: "run_tests M Y pr rt rn ritm_base st = Some (Done x, st1)"
    and "returns () (payload_at 4 (0 + 1) (expected_output Y version ritm_base)) x st1"
    by (rule doesE)
  then have "printed Y (expected_output Y version ritm_base) (pl_UART (power_off M Y st1))" "pl_TRAP_COUNT (power_off M Y st1) = 1"
    by (auto simp: returns_def payload_at_def power_off_def split: option.split)
  then show thesis by (intro that [of "power_off M Y st1"]) (simp_all add: integration_test_main_def run)
qed

end

section \<open>A guest of RITM as the machine\<close>

text \<open>
  The registers at a trap and the hypervisor below. \<open>code\<close> is the payload's own instructions up to
  the next one that may trap; it moves the program counter. The payload runs without an MMU of its
  own, so that addresses are intermediate physical ones. An access that resumes at the vector for
  synchronous exceptions has entered the payload's handler, which ends with \<open>ERET\<close>.
\<close>

type_synonym ('idmap, 'w) ritm_guest = "GuestRegisterState \<times> (u64, 'idmap, 'w) hyp"

definition guest_hvc ::
  "(u64, 'idmap, 'me, u64, 'e, 'w) hyp_deps \<Rightarrow> profile \<Rightarrow> (GuestRegisterState \<Rightarrow> GuestRegisterState) \<Rightarrow> u64 list \<Rightarrow>
   ('idmap, 'w) ritm_guest \<Rightarrow> (u64 list \<times> ('idmap, 'w) ritm_guest) option" where
  "guest_hvc H pr code xs = (\<lambda>(rs, h).
     case handle_sync_lower H pr (write_response_registers (code rs) xs)
            (h\<lparr>hv_core := (hv_core h)\<lparr>cr_esr_el2 := 0x5a000000\<rparr>\<rparr>) of
       Done (Some rs', h') \<Rightarrow> Some (map (\<lambda>i. the (read_gpr rs' (of_nat i))) [0..<18], rs', h')
     | _ \<Rightarrow> None)"

definition guest_ldst ::
  "(u64, 'idmap, 'me, u64, 'e, 'w) hyp_deps \<Rightarrow> profile \<Rightarrow> ('idmap \<Rightarrow> u64 \<Rightarrow> u64 option) \<Rightarrow>
   (u64 \<Rightarrow> u32 \<Rightarrow> u64 \<Rightarrow> GuestRegisterState \<Rightarrow> (u64, 'idmap, 'w) hyp \<Rightarrow> ('idmap, 'w) ritm_guest) \<Rightarrow>
   (GuestRegisterState \<Rightarrow> GuestRegisterState) \<Rightarrow> u32 \<Rightarrow> u32 \<Rightarrow> u64 \<Rightarrow> ('idmap, 'w) ritm_guest \<Rightarrow>
   ((u64 \<times> usize) option \<times> ('idmap, 'w) ritm_guest) option" where
  "guest_ldst H pr maps direct code flags r a = (\<lambda>(rs, h).
     map_option (\<lambda>(rs', h').
       (if fst (exception_return rs') = cr_vbar_el1 (hv_core h') + 0x200
        then Some (cr_esr_el1 (hv_core h'), cr_elr_el1 (hv_core h')) else None, rs', h'))
       (guest_access H pr maps direct (test_iss U64 r flags) a a (code rs) h))"

definition ritm_machine ::
  "(u64, 'idmap, 'me, u64, 'e, 'w) hyp_deps \<Rightarrow> profile \<Rightarrow> ('idmap \<Rightarrow> u64 \<Rightarrow> u64 option) \<Rightarrow>
   (u64 \<Rightarrow> u32 \<Rightarrow> u64 \<Rightarrow> GuestRegisterState \<Rightarrow> (u64, 'idmap, 'w) hyp \<Rightarrow> ('idmap, 'w) ritm_guest) \<Rightarrow>
   (GuestRegisterState \<Rightarrow> GuestRegisterState) \<Rightarrow> ('idmap, 'w) ritm_guest machine_ops" where
  "ritm_machine H pr maps direct code =
     \<lparr>op_hvc = guest_hvc H pr code,
      op_load = guest_ldst H pr maps direct code DATA_ABORT_ISS_SF,
      op_store = guest_ldst H pr maps direct code (DATA_ABORT_ISS_SF OR DATA_ABORT_ISS_WNR),
      op_register = (\<lambda>r (rs, h). the (read_gpr rs (ucast r))),
      op_set_register = (\<lambda>r v (rs, h). (snd (write_gpr rs (ucast r) v), h)),
      op_return = (\<lambda>elr (rs, h). (set_exception_return rs elr (cr_spsr_el1 (hv_core h)), h))\<rparr>"

text \<open>
  The payload's code stays below the top of the address space and away from its vector, \<open>vbar\<close>. The
  moves between registers are \<open>op_set_register\<close>, so that \<open>code\<close> itself keeps them.
\<close>

definition code_ok :: "(GuestRegisterState \<Rightarrow> GuestRegisterState) \<Rightarrow> usize \<Rightarrow> bool" where
  "code_ok code vbar \<longleftrightarrow> vbar \<noteq> 0 \<and> unat vbar + 0x200 < 2 ^ 64 \<and>
     (\<forall>rs. guest_regs_wf rs \<longrightarrow> guest_regs_wf (code rs) \<and> read_gpr (code rs) = read_gpr rs \<and>
        unat (fst (exception_return (code rs))) + 4 < 2 ^ 64 \<and> fst (exception_return (code rs)) + 4 \<noteq> vbar + 0x200)"

text \<open>The firmware decodes \<open>PSCI_VERSION\<close> and always answers it with \<open>version\<close>, which is no error.\<close>

definition firmware_version_ok ::
  "(u64, 'idmap, 'me, u64, 'e, 'w) hyp_deps \<Rightarrow> ('con, 'ce) payload_deps \<Rightarrow> u64 \<Rightarrow> bool" where
  "firmware_version_ok H Y version \<longleftrightarrow>
     (let xs = py_version_call Y in
      4 \<le> length xs \<and> length xs \<le> 18 \<and> psci_id (xs ! 0) \<and> hd_function_try_from H (take 4 xs) = Inr Version \<and>
      (\<forall>args w. \<exists>res w'. hd_smc64 H (ucast (xs ! 0)) args w = (Some res, w') \<and> res ! 0 = version) \<and>
      \<not> py_version_is_err Y version)"

definition payload_deps_ok :: "('con, 'ce) payload_deps \<Rightarrow> bool" where
  "payload_deps_ok Y \<longleftrightarrow> driver_works (py_driver Y) \<and> (\<forall>v. py_esr_ec Y v = ucast (get_field 26 6 v))"

text \<open>
  A payload on RITM: the environment is as assumed, RITM serves the guest, the device's counter
  stands at \<open>k\<close>. The heap that RITM shares with the guest is not in the first page of the image.
\<close>

definition ritm_inv ::
  "(u64, 'idmap, 'me, u64, 'e, 'w) hyp_deps \<Rightarrow> stage2_attributes \<Rightarrow> profile \<Rightarrow> usize \<Rightarrow> usize \<Rightarrow> profile \<Rightarrow> nat \<Rightarrow>
   ('idmap \<Rightarrow> u64 \<Rightarrow> u64 option) \<Rightarrow> (GuestRegisterState \<Rightarrow> GuestRegisterState) \<Rightarrow> usize \<Rightarrow> ('con, 'ce) payload_deps \<Rightarrow> u64 \<Rightarrow>
   ('idmap, 'w) ritm_guest \<Rightarrow> u64 \<Rightarrow> bool" where
  "ritm_inv H A pr ritm_base heap pr' cap maps code vbar Y version = (\<lambda>(rs, h) k.
     qemu_guest_ok H maps ritm_base heap \<and> unat ritm_base + 4096 \<le> unat heap \<and> smccc_error_ok (hd_smccc_error H) \<and>
     code_ok code vbar \<and> firmware_version_ok H Y version \<and> payload_deps_ok Y \<and>
     served (qemu_hypervisor H A pr ritm_base heap) pr' cap h rs \<and> hv_platform h = k \<and> cr_vbar_el1 (hv_core h) = vbar)"

lemma ritm_invD:
  assumes "ritm_inv H A pr ritm_base heap pr' cap maps code vbar Y version (rs, h) k"
  shows "qemu_guest_ok H maps ritm_base heap" "served (qemu_hypervisor H A pr ritm_base heap) pr' cap h rs"
    "hv_platform h = k" "cr_vbar_el1 (hv_core h) = vbar" "code_ok code vbar" "smccc_error_ok (hd_smccc_error H)"
    "firmware_version_ok H Y version" "payload_deps_ok Y" "unat ritm_base + 4096 \<le> unat heap"
  using assms by (simp_all add: ritm_inv_def)

lemma ritm_inv_running:
  assumes "ritm_inv H A pr ritm_base heap pr' cap maps code vbar Y version (rs, h) k"
  shows "guest_running cap h rs" and "guest_regs_wf rs"
proof -
  note ok = ritm_invD(1) [OF assms, unfolded qemu_guest_ok_def]
  show "guest_running cap h rs" by (rule qemu_served_handlers [OF ritm_invD(2) [OF assms], of maps]) (use ok in auto)
  then show "guest_regs_wf rs" by (simp add: guest_running_def)
qed

lemma ritm_inv_guest:
  assumes "ritm_inv H A pr ritm_base heap pr' cap maps code vbar Y version (rs, h) k" and "guest_regs_wf rs'"
    and "cr_vbar_el1 c = vbar"
  shows "ritm_inv H A pr ritm_base heap pr' cap maps code vbar Y version (rs', h\<lparr>hv_core := c\<rparr>) k"
  using assms served_guest [OF ritm_invD(2) [OF assms(1)] assms(2), of c] by (simp add: ritm_inv_def)

lemma ritm_inv_regs:
  assumes "ritm_inv H A pr ritm_base heap pr' cap maps code vbar Y version (rs, h) k" and "guest_regs_wf rs'"
  shows "ritm_inv H A pr ritm_base heap pr' cap maps code vbar Y version (rs', h) k"
  using ritm_inv_guest [OF assms, of "hv_core h"] ritm_invD(4) [OF assms(1)] by simp

lemma ucast_reg: "r < 31 \<Longrightarrow> (ucast r :: usize) \<le> 30" "r < 31 \<Longrightarrow> j < 31 \<Longrightarrow> (ucast j :: usize) = ucast r \<longleftrightarrow> j = r"
  for r j :: u32
  by (simp_all add: word_le_nat_alt word_less_nat_alt word_unat_eq_iff unsigned_ucast_eq take_bit_nat_eq_self)

lemma ritm_access:
  assumes inv: "ritm_inv H A pr ritm_base heap pr' cap maps code vbar Y version (rs, h) k" and r: "r < 31"
    and flags: "flags = DATA_ABORT_ISS_SF \<or> flags = DATA_ABORT_ISS_SF OR DATA_ABORT_ISS_WNR"
    and a: "unat a < 2 ^ 52" "qemu_guest_map A ritm_base heap a = None"
    and page: "filtered_page (access_of U64 r flags a (code rs)) k = (e, k')"
  obtains rs' h' x where "guest_ldst (qemu_hypervisor H A pr ritm_base heap) pr' maps direct code flags r a (rs, h) = Some (x, rs', h')"
    and "ritm_inv H A pr ritm_base heap pr' cap maps code vbar Y version (rs', h') k'"
    and "case e of
        Loaded v \<Rightarrow> x = None \<and> read_gpr rs' (ucast r) = Some v
      | Stored \<Rightarrow> x = None
      | Faulted \<Rightarrow> (\<exists>esr elr. x = Some (esr, elr) \<and> get_field 26 6 esr = 0x25 \<and> unat elr + 4 < 2 ^ 64)"
proof -
  let ?H = "qemu_hypervisor H A pr ritm_base heap" and ?pc = "fst (exception_return (code rs))"
  have code: "guest_regs_wf (code rs)" "unat ?pc + 4 < 2 ^ 64" "?pc + 4 \<noteq> vbar + 0x200" "vbar \<noteq> 0" "unat vbar + 0x200 < 2 ^ 64"
    using ritm_invD(5) [OF inv] ritm_inv_running(2) [OF inv] by (simp_all add: code_ok_def)
  note inv' = ritm_inv_regs [OF inv code(1)]
  have "r < 32" using r by (rule order.strict_trans) simp
  moreover have "flags AND NOT (DATA_ABORT_ISS_SSE OR DATA_ABORT_ISS_SF OR DATA_ABORT_ISS_WNR) = 0"
    using flags by (auto simp: iss_field_defs)
  moreover have "guest_addresses_ok pr' e (hv_core h) (code rs)"
    using code ritm_invD(4) [OF inv] by (simp add: guest_addresses_ok_def)
  moreover have "filtered_page (access_of U64 r flags a (code rs)) (hv_platform h) = (e, k')"
    using page ritm_invD(3) [OF inv] by simp
  moreover have "(ucast r :: usize) \<noteq> 31" using ucast_reg(1) [OF r] by auto
  ultimately obtain rs' h' where
      acc: "guest_access ?H pr' maps direct (test_iss U64 r flags) a a (code rs) h = Some (rs', h')"
    and h': "served ?H pr' cap h' rs'" "hv_platform h' = k'" "cr_vbar_el1 (hv_core h') = vbar"
    and eff: "case e of
        Loaded v \<Rightarrow> fst (exception_return rs') = ?pc + 4 \<and> read_gpr rs' (ucast r) = Some v
      | Stored \<Rightarrow> fst (exception_return rs') = ?pc + 4
      | Faulted \<Rightarrow> fst (exception_return rs') = vbar + 0x200 \<and> cr_elr_el1 (hv_core h') = ?pc \<and>
          get_field 26 6 (cr_esr_el1 (hv_core h')) = 0x25"
    using qemu_access [OF ritm_invD(2) [OF inv'] ritm_invD(1) [OF inv],
        where r = r and flags = flags and ipa = a and va = a and w = U64 and e = e and s' = k' and direct = direct] a ritm_invD(4) [OF inv]
    by (cases e) auto
  have "ritm_inv H A pr ritm_base heap pr' cap maps code vbar Y version (rs', h') k'"
    using inv h' by (simp add: ritm_inv_def)
  moreover have "guest_ldst ?H pr' maps direct code flags r a (rs, h) =
      Some (if fst (exception_return rs') = vbar + 0x200
            then Some (cr_esr_el1 (hv_core h'), cr_elr_el1 (hv_core h')) else None, rs', h')" (is "_ = Some (?x, _)")
    by (simp add: guest_ldst_def acc h'(3))
  moreover have "case e of
      Loaded v \<Rightarrow> ?x = None \<and> read_gpr rs' (ucast r) = Some v
    | Stored \<Rightarrow> ?x = None
    | Faulted \<Rightarrow> (\<exists>esr elr. ?x = Some (esr, elr) \<and> get_field 26 6 esr = 0x25 \<and> unat elr + 4 < 2 ^ 64)"
    using eff code(2,3) by (cases e) simp_all
  ultimately show thesis by (intro that)
qed

lemma nth0_map_upt: "map f [0..<18] ! 0 = f 0"
  by (subst nth_map) simp_all

lemma ritm_hvc:
  assumes inv: "ritm_inv H A pr ritm_base heap pr' cap maps code vbar Y version (rs, h) k"
    and xs: "4 \<le> length xs" "length xs \<le> 18"
    and call: "\<And>h. guest_running cap h (write_response_registers (code rs) xs) \<Longrightarrow>
      \<exists>h' answer. handle_call (qemu_hypervisor H A pr ritm_base heap) (write_response_registers (code rs) xs) h =
        Done (Some (modify_register_state (hd_smccc_error H) answer (write_response_registers (code rs) xs)), h') \<and>
      hv_platform h' = hv_platform h \<and> hvc_result_wf answer \<and> returned_values (hd_smccc_error H) answer ! 0 = v \<and>
      returned_values (hd_smccc_error H) answer \<noteq> []"
  obtains res rs' h' where "guest_hvc (qemu_hypervisor H A pr ritm_base heap) pr' code xs (rs, h) = Some (res, rs', h')"
    and "res ! 0 = v" and "ritm_inv H A pr ritm_base heap pr' cap maps code vbar Y version (rs', h') k"
proof -
  let ?H = "qemu_hypervisor H A pr ritm_base heap" and ?rs = "write_response_registers (code rs) xs"
  let ?h = "h\<lparr>hv_core := (hv_core h)\<lparr>cr_esr_el2 := 0x5a000000\<rparr>\<rparr>"
  have "guest_regs_wf (code rs)" using ritm_invD(5) [OF inv] ritm_inv_running(2) [OF inv] by (simp add: code_ok_def)
  then have wf: "guest_regs_wf ?rs" by (rule write_response_registers_keeps)
  have inv': "ritm_inv H A pr ritm_base heap pr' cap maps code vbar Y version (?rs, ?h) k"
    using ritm_invD(4) [OF inv] by (intro ritm_inv_guest [OF inv wf]) simp
  note run = ritm_inv_running(1) [OF inv']
  obtain h' answer where
      c: "handle_call ?H ?rs ?h = Done (Some (modify_register_state (hd_smccc_error H) answer ?rs), h')"
    and p: "hv_platform h' = hv_platform ?h" and ans: "hvc_result_wf answer"
      "returned_values (hd_smccc_error H) answer ! 0 = v" "returned_values (hd_smccc_error H) answer \<noteq> []"
    using call [OF run] by blast
  let ?rs' = "modify_register_state (hd_smccc_error H) answer ?rs"
  have "arm_sysregs_ok (hd_sysregs H)" using ritm_invD(1) [OF inv] by (simp add: qemu_guest_ok_def)
  then have t: "handle_sync_lower ?H pr' ?rs ?h = Done (Some ?rs', h')"
    by (subst handle_sync_lower_hvc) (simp_all add: exception_class_eq get_field_def c)
  have "served ?H pr' cap h' ?rs'" by (rule served_trap [OF ritm_invD(2) [OF inv'] t])
  moreover have "hv_core h' = hv_core ?h" using handle_call_running [OF run c] by simp
  ultimately have "ritm_inv H A pr ritm_base heap pr' cap maps code vbar Y version (?rs', h') k"
    using inv p by (simp add: ritm_inv_def)
  moreover have "read_gpr ?rs' 0 = Some v" using ans by (simp add: read_modify_register_state [OF wf])
  ultimately show thesis
    by (intro that [of "map (\<lambda>i. the (read_gpr ?rs' (of_nat i))) [0..<18]"]) (simp_all add: guest_hvc_def t nth0_map_upt)
qed

lemma call_registers:
  assumes "guest_regs_wf rs" and "4 \<le> length xs" and "length xs \<le> 18"
  shows "call_id (write_response_registers rs xs) = xs ! 0"
    and "i < 3 \<Longrightarrow> call_args (write_response_registers rs xs) ! i = xs ! (i + 1)"
proof -
  let ?rs = "write_response_registers rs xs"
  have wf: "guest_regs_wf ?rs" using assms(1) by (rule write_response_registers_keeps)
  have nth: "volatile_gprs ?rs ! i = xs ! i" if "i < 4" for i
  proof -
    have i: "unat (of_nat i :: usize) = i" using that by (simp add: unat_of_nat)
    then have "(of_nat i :: usize) \<le> 18" using that by (simp add: word_le_nat_alt)
    then show ?thesis
      using read_write_response_registers [OF assms(1,3), of "of_nat i"] that assms(2)
      by (simp add: read_gpr_def i volatile_gprs_def)
  qed
  show "call_id ?rs = xs ! 0" by (simp add: call_id_def nth)
  have "length (volatile_gprs ?rs) = 19" using wf by (simp add: guest_regs_wf_def volatile_gprs_def)
  then show "i < 3 \<Longrightarrow> call_args ?rs ! i = xs ! (i + 1)" by (simp add: call_args_def nth)
qed

text \<open>The calls of the tests.\<close>

lemma ritm_platform_call:
  assumes inv: "ritm_inv H A pr ritm_base heap pr' cap maps code vbar Y version (rs, h) k"
    and f: "f = 0xFF000000 \<and> v = 0x123456789ABCDEF0 \<or> f = 0xFF000001 \<and> v = 0xFFFFFFFFFFFFFFFF"
  shows "\<exists>res t'. guest_hvc (qemu_hypervisor H A pr ritm_base heap) pr' code (f # replicate 17 0) (rs, h) = Some (res, t') \<and>
    res ! 0 = v \<and> ritm_inv H A pr ritm_base heap pr' cap maps code vbar Y version t' k"
proof -
  let ?H = "qemu_hypervisor H A pr ritm_base heap" and ?xs = "f # replicate 17 0"
  let ?rs = "write_response_registers (code rs) ?xs" and ?answer = "qemu_handle_hvc f (call_args (write_response_registers (code rs) ?xs))"
  have len: "4 \<le> length ?xs" "length ?xs \<le> 18" by simp_all
  have "guest_regs_wf (code rs)" using ritm_invD(5) [OF inv] ritm_inv_running(2) [OF inv] by (simp add: code_ok_def)
  then have "call_id ?rs = f" using call_registers(1) [OF _ len] by simp
  moreover have "\<not> psci_id f" using f by (auto simp: psci_id_def)
  ultimately have call: "handle_call ?H ?rs h = Done (Some (modify_register_state (hd_smccc_error H) ?answer ?rs), h)" for h
    by (simp add: handle_call_eq qemu_hypervisor_def)
  have "returned_values (hd_smccc_error H) ?answer ! 0 = v" "returned_values (hd_smccc_error H) ?answer \<noteq> []"
    using f ritm_invD(6) [OF inv]
    by (auto simp: qemu_handle_hvc_def response_from_u64_def error_to_u64_def smccc_error_ok_def)
  then have "\<exists>h' answer. handle_call ?H ?rs h = Done (Some (modify_register_state (hd_smccc_error H) answer ?rs), h') \<and>
      hv_platform h' = hv_platform h \<and> hvc_result_wf answer \<and> returned_values (hd_smccc_error H) answer ! 0 = v \<and>
      returned_values (hd_smccc_error H) answer \<noteq> []" for h
    using call qemu_handle_hvc_wf by blast
  then show ?thesis by (rule ritm_hvc [OF inv len]) blast
qed

lemma ritm_version_call:
  assumes inv: "ritm_inv H A pr ritm_base heap pr' cap maps code vbar Y version (rs, h) k"
  shows "\<exists>res t'. guest_hvc (qemu_hypervisor H A pr ritm_base heap) pr' code (py_version_call Y) (rs, h) = Some (res, t') \<and>
    res ! 0 = version \<and> \<not> py_version_is_err Y version \<and> ritm_inv H A pr ritm_base heap pr' cap maps code vbar Y version t' k"
proof -
  let ?xs = "py_version_call Y" and ?H = "qemu_hypervisor H A pr ritm_base heap"
  have xs: "4 \<le> length ?xs" "length ?xs \<le> 18" "psci_id (?xs ! 0)" "hd_function_try_from H (take 4 ?xs) = Inr Version"
    and smc: "\<And>args w. \<exists>res w'. hd_smc64 H (ucast (?xs ! 0)) args w = (Some res, w') \<and> res ! 0 = version"
    and v: "\<not> py_version_is_err Y version"
    using ritm_invD(7) [OF inv] by (auto simp: firmware_version_ok_def Let_def)
  let ?rs = "write_response_registers (code rs) ?xs"
  have "guest_regs_wf (code rs)" using ritm_invD(5) [OF inv] ritm_inv_running(2) [OF inv] by (simp add: code_ok_def)
  note regs = call_registers [OF this xs(1,2)]
  have t4: "take 4 ?xs = [?xs ! 0, ?xs ! 1, ?xs ! 2, ?xs ! 3]"
    using xs(1) by (auto simp: list_eq_iff_nth_eq nth_Cons' less_Suc_eq numeral_eq_Suc)
  have "\<exists>h' answer. handle_call ?H ?rs h = Done (Some (modify_register_state (hd_smccc_error H) answer ?rs), h') \<and>
      hv_platform h' = hv_platform h \<and> hvc_result_wf answer \<and> returned_values (hd_smccc_error H) answer ! 0 = version \<and>
      returned_values (hd_smccc_error H) answer \<noteq> []" for h
  proof -
    obtain res w' where "hd_smc64 H (ucast (?xs ! 0)) ((replicate 17 0)[0 := ?xs ! 1, 1 := ?xs ! 2, 2 := ?xs ! 3]) (hv_world h) =
        (Some res, w')" and res: "res ! 0 = version"
      using smc by blast
    then have "psci_outcome ?H ?rs h = Done (Some (Inr (res ! 0)), h\<lparr>hv_world := w'\<rparr>)"
      using xs(4) [unfolded t4] regs(2) [of 0] regs(2) [of 1] regs(2) [of 2]
      by (simp add: psci_outcome_def regs(1) handle_psci_def qemu_hypervisor_def forward_psci_def Let_def flip: numeral_2_eq_2)
    then show ?thesis
      using res xs(3)
      by (intro exI [of _ "h\<lparr>hv_world := w'\<rparr>"] exI [of _ "psci_response (hd_smccc_error H) (Inr version)"])
        (simp add: handle_call_eq regs(1))
  qed
  then show ?thesis by (rule ritm_hvc [OF inv xs(1,2)]) (use v in blast)
qed

lemma image_not_mapped:
  assumes "qemu_layout_ok ritm_base heap" and "unat ritm_base + 4096 \<le> unat heap"
  shows "qemu_guest_map A ritm_base heap ritm_base = None" and "unat ritm_base < 2 ^ 52"
    and "0x40000000 < unat ritm_base"
proof -
  have "unat heap < 4096 * (unat heap div 4096) + 4096" using div_mult_mod_eq [of "unat heap" 4096] mod_less_divisor [of 4096 "unat heap"] by linarith
  then have "unat ritm_base < 4096 * (unat heap div 4096)" using assms(2) by linarith
  then show "qemu_guest_map A ritm_base heap ritm_base = None" "unat ritm_base < 2 ^ 52" "0x40000000 < unat ritm_base"
    using assms(1) by (simp_all add: qemu_layout_ok_def qemu_guest_map_def DRAM_START_def)
qed

text \<open>The registers of the test device, as the payload addresses them.\<close>

lemma filtered_load:
  "filtered_page (access_of U64 r DATA_ABORT_ISS_SF (test_FILTERED_MMIO_BASE + 16) rs) k = (Loaded k, k + 1)"
  "(offset, v) \<in> set ((0, 0xfeedfacecafebeef) # FILTERED_MMIO_OFFSET_VALUES) \<Longrightarrow>
   filtered_page (access_of U64 r DATA_ABORT_ISS_SF (test_FILTERED_MMIO_BASE + offset) rs) k = (Loaded v, k)"
proof -
  have sf: "bit DATA_ABORT_ISS_SF 6 = False" "bit DATA_ABORT_ISS_SF 15 = True" "bit DATA_ABORT_ISS_SF 21 = False"
    by (simp_all add: iss_field_defs bit_simps)
  note page = access_of_def filtered_page_def test_FILTERED_MMIO_BASE_def register_load_def sf
  show "filtered_page (access_of U64 r DATA_ABORT_ISS_SF (test_FILTERED_MMIO_BASE + 16) rs) k = (Loaded k, k + 1)"
    by (simp add: page)
  assume "(offset, v) \<in> set ((0, 0xfeedfacecafebeef) # FILTERED_MMIO_OFFSET_VALUES)"
  then consider "offset = 0" "v = 0xfeedfacecafebeef" | "offset = 24" "v = 0x1111222233334444"
    | "offset = 32" "v = 0x5555666677778888" | "offset = 40" "v = 0x9999aaaabbbbcccc"
    by (auto simp: FILTERED_MMIO_OFFSET_VALUES_def)
  then show "filtered_page (access_of U64 r DATA_ABORT_ISS_SF (test_FILTERED_MMIO_BASE + offset) rs) k = (Loaded v, k)"
    by cases (simp_all add: page)
qed

lemma filtered_store:
  "read_gpr rs (ucast r) = Some 0x123456789abcdef0 \<Longrightarrow>
   filtered_page (access_of U64 r (DATA_ABORT_ISS_SF OR DATA_ABORT_ISS_WNR) (test_FILTERED_MMIO_BASE + 8) rs) k = (Stored, k)"
  by (simp add: access_of_def filtered_page_def test_FILTERED_MMIO_BASE_def iss_field_defs bit_simps)

lemma filtered_elsewhere:
  "0x40000000 < unat a \<Longrightarrow> filtered_page (access_of U64 r DATA_ABORT_ISS_SF a rs) k = (Faulted, k)"
proof -
  assume "0x40000000 < unat a"
  then have "a \<noteq> 0x0f000000" "a \<noteq> 0x0f000010" "a \<noteq> 0x0f000018" "a \<noteq> 0x0f000020" "a \<noteq> 0x0f000028" by auto
  moreover have "bit DATA_ABORT_ISS_SF 6 = False" by (simp add: iss_field_defs bit_simps)
  ultimately show ?thesis by (simp add: access_of_def filtered_page_def Let_def)
qed

lemma filtered_addresses:
  assumes "offset < 64"
  shows "unat (test_FILTERED_MMIO_BASE + offset) < 2 ^ 52"
    and "qemu_guest_map A ritm_base heap (test_FILTERED_MMIO_BASE + offset) = None"
proof -
  have "unat (test_FILTERED_MMIO_BASE + offset) = 0x0f000000 + unat offset"
    using assms by (simp add: test_FILTERED_MMIO_BASE_def word_less_nat_alt unat_plus_no_overflow)
  then show "unat (test_FILTERED_MMIO_BASE + offset) < 2 ^ 52"
    "qemu_guest_map A ritm_base heap (test_FILTERED_MMIO_BASE + offset) = None"
    using assms by (simp_all add: qemu_guest_map_def word_less_nat_alt)
qed

text \<open>The laws of the machine.\<close>

lemma ritm_load:
  assumes inv: "ritm_inv H A pr ritm_base heap pr' cap maps code vbar Y version (rs, h) k" and r: "r < 31"
    and a: "unat a < 2 ^ 52" "qemu_guest_map A ritm_base heap a = None"
    and page: "\<And>rs. filtered_page (access_of U64 r DATA_ABORT_ISS_SF a rs) k = (Loaded v, k')"
  shows "\<exists>t'. op_load (ritm_machine (qemu_hypervisor H A pr ritm_base heap) pr' maps direct code) r a (rs, h) = Some (None, t') \<and>
    op_register (ritm_machine (qemu_hypervisor H A pr ritm_base heap) pr' maps direct code) r t' = v \<and> ritm_inv H A pr ritm_base heap pr' cap maps code vbar Y version t' k'"
proof -
  have f: "DATA_ABORT_ISS_SF = DATA_ABORT_ISS_SF \<or> DATA_ABORT_ISS_SF = DATA_ABORT_ISS_SF OR DATA_ABORT_ISS_WNR" by simp
  obtain rs' h' x where "guest_ldst (qemu_hypervisor H A pr ritm_base heap) pr' maps direct code DATA_ABORT_ISS_SF r a (rs, h) =
      Some (x, rs', h')" "ritm_inv H A pr ritm_base heap pr' cap maps code vbar Y version (rs', h') k'"
    "case Loaded v of
        Loaded v \<Rightarrow> x = None \<and> read_gpr rs' (ucast r) = Some v
      | Stored \<Rightarrow> x = None
      | Faulted \<Rightarrow> (\<exists>esr elr. x = Some (esr, elr) \<and> get_field 26 6 esr = 0x25 \<and> unat elr + 4 < 2 ^ 64)"
    by (rule ritm_access [OF inv r f a page])
  then show ?thesis by (intro exI [of _ "(rs', h')"]) (simp add: ritm_machine_def)
qed

lemma ritm_store:
  assumes inv: "ritm_inv H A pr ritm_base heap pr' cap maps code vbar Y version (rs, h) k" and r: "r < 31"
    and v: "op_register (ritm_machine (qemu_hypervisor H A pr ritm_base heap) pr' maps direct code) r (rs, h) = 0x123456789abcdef0"
  shows "\<exists>t'. op_store (ritm_machine (qemu_hypervisor H A pr ritm_base heap) pr' maps direct code) r (test_FILTERED_MMIO_BASE + 8) (rs, h) = Some (None, t') \<and> ritm_inv H A pr ritm_base heap pr' cap maps code vbar Y version t' k"
proof -
  have f: "DATA_ABORT_ISS_SF OR DATA_ABORT_ISS_WNR = DATA_ABORT_ISS_SF \<or> DATA_ABORT_ISS_SF OR DATA_ABORT_ISS_WNR = DATA_ABORT_ISS_SF OR DATA_ABORT_ISS_WNR" by simp
  have wf: "guest_regs_wf rs" using inv by (rule ritm_inv_running)
  have "(ucast r :: usize) \<le> 31" using ucast_reg(1) [OF r] by (rule order_trans) simp
  then obtain w where w: "read_gpr rs (ucast r) = Some w" using guest.rd_defined [OF wf, of "ucast r"] by blast
  have "read_gpr (code rs) = read_gpr rs" using ritm_invD(5) [OF inv] wf by (simp add: code_ok_def)
  then have "read_gpr (code rs) (ucast r) = Some 0x123456789abcdef0" using v w by (simp add: ritm_machine_def)
  note page = filtered_store [OF this, of k]
  have off: "(8 :: usize) < 64" by simp
  obtain rs' h' x where "guest_ldst (qemu_hypervisor H A pr ritm_base heap) pr' maps direct code
      (DATA_ABORT_ISS_SF OR DATA_ABORT_ISS_WNR) r (test_FILTERED_MMIO_BASE + 8) (rs, h) = Some (x, rs', h')"
    "ritm_inv H A pr ritm_base heap pr' cap maps code vbar Y version (rs', h') k"
    "case Stored of
        Loaded v \<Rightarrow> x = None \<and> read_gpr rs' (ucast r) = Some v
      | Stored \<Rightarrow> x = None
      | Faulted \<Rightarrow> (\<exists>esr elr. x = Some (esr, elr) \<and> get_field 26 6 esr = 0x25 \<and> unat elr + 4 < 2 ^ 64)"
    by (rule ritm_access [OF inv r f filtered_addresses [OF off] page])
  then show ?thesis by (intro exI [of _ "(rs', h')"]) (simp add: ritm_machine_def)
qed

lemma ritm_load_image:
  assumes inv: "ritm_inv H A pr ritm_base heap pr' cap maps code vbar Y version (rs, h) k" and r: "r < 31"
  shows "\<exists>esr elr t'. op_load (ritm_machine (qemu_hypervisor H A pr ritm_base heap) pr' maps direct code) r ritm_base (rs, h) = Some (Some (esr, elr), t') \<and>
    py_esr_ec Y esr = 0x25 \<and> unat elr + 4 < 2 ^ 64 \<and> ritm_inv H A pr ritm_base heap pr' cap maps code vbar Y version (op_return (ritm_machine (qemu_hypervisor H A pr ritm_base heap) pr' maps direct code) (elr + 4) t') k"
proof -
  have f: "DATA_ABORT_ISS_SF = DATA_ABORT_ISS_SF \<or> DATA_ABORT_ISS_SF = DATA_ABORT_ISS_SF OR DATA_ABORT_ISS_WNR" by simp
  have "qemu_layout_ok ritm_base heap" using ritm_invD(1) [OF inv] by (simp add: qemu_guest_ok_def)
  note map = image_not_mapped [OF this ritm_invD(9) [OF inv]]
  obtain rs' h' x where acc: "guest_ldst (qemu_hypervisor H A pr ritm_base heap) pr' maps direct code DATA_ABORT_ISS_SF r
        ritm_base (rs, h) = Some (x, rs', h')" and inv': "ritm_inv H A pr ritm_base heap pr' cap maps code vbar Y version (rs', h') k"
    and x: "case Faulted of
        Loaded v \<Rightarrow> x = None \<and> read_gpr rs' (ucast r) = Some v
      | Stored \<Rightarrow> x = None
      | Faulted \<Rightarrow> (\<exists>esr elr. x = Some (esr, elr) \<and> get_field 26 6 esr = 0x25 \<and> unat elr + 4 < 2 ^ 64)"
    by (rule ritm_access [OF inv r f map(2,1) filtered_elsewhere [OF map(3)]])
  from x obtain esr elr where x: "x = Some (esr, elr)" "get_field 26 6 esr = 0x25" "unat elr + 4 < 2 ^ 64" by auto
  have "ritm_inv H A pr ritm_base heap pr' cap maps code vbar Y version (set_exception_return rs' (elr + 4) (cr_spsr_el1 (hv_core h')), h') k"
    using ritm_inv_running(2) [OF inv'] by (intro ritm_inv_regs [OF inv']) simp
  moreover have "py_esr_ec Y esr = 0x25" using ritm_invD(8) [OF inv] x(2) by (simp add: payload_deps_ok_def)
  ultimately show ?thesis
    using acc x by (intro exI [of _ esr] exI [of _ elr] exI [of _ "(rs', h')"]) (simp add: ritm_machine_def)
qed

interpretation ritm_test: tested_machine
  "ritm_machine (qemu_hypervisor H A pr ritm_base heap) pr' maps direct code" Y
  "ritm_inv H A pr ritm_base heap pr' cap maps code vbar Y version" version ritm_base
  for H :: "(u64, 'idmap, 'me, u64, 'e, 'w) hyp_deps" and A pr ritm_base heap pr' cap maps direct code vbar
    and Y :: "('con, 'ce) payload_deps" and version
proof (unfold_locales, goal_cases)
  case (1 t k r v)
  obtain rs h where t: "t = (rs, h)" by (cases t)
  have wf: "guest_regs_wf rs" using 1(1) unfolding t by (rule ritm_inv_running)
  then have "read_gpr (snd (write_gpr rs (ucast r) v)) (ucast j) = (if j = r then Some v else read_gpr rs (ucast j))"
    if "j < 31" for j
    using read_write_gpr [OF wf ucast_reg(1) [OF 1(2)]] ucast_reg(2) [OF 1(2) that] by simp
  moreover have "guest_regs_wf (snd (write_gpr rs (ucast r) v))" using wf by (rule guest.valid_wr)
  ultimately show ?case using ritm_inv_regs [OF 1(1) [unfolded t]] by (simp add: t ritm_machine_def)
next
  case (2 t k)
  then show ?case by (cases t) (simp add: ritm_inv_def payload_deps_ok_def)
next
  case (3 t k)
  obtain rs h where t: "t = (rs, h)" by (cases t)
  show ?case using ritm_version_call [OF 3 [unfolded t]] by (simp add: t ritm_machine_def)
next
  case (4 t k)
  obtain rs h where t: "t = (rs, h)" by (cases t)
  show ?case using ritm_platform_call [OF 4 [unfolded t], of "0xFF000000" "0x123456789ABCDEF0"] by (simp add: t ritm_machine_def)
next
  case (5 t k)
  obtain rs h where t: "t = (rs, h)" by (cases t)
  show ?case using ritm_platform_call [OF 5 [unfolded t], of "0xFF000001" "0xFFFFFFFFFFFFFFFF"] by (simp add: t ritm_machine_def)
next
  case (6 t k r offset v)
  obtain rs h where t: "t = (rs, h)" by (cases t)
  have "offset < 64" using 6(3) by (auto simp: FILTERED_MMIO_OFFSET_VALUES_def)
  note a = filtered_addresses [OF this]
  show ?case unfolding t by (rule ritm_load [OF 6(1) [unfolded t] 6(2) a filtered_load(2) [OF 6(3)]])
next
  case (7 t k r)
  obtain rs h where t: "t = (rs, h)" by (cases t)
  have "(16 :: usize) < 64" by simp
  note a = filtered_addresses [OF this]
  show ?case unfolding t by (rule ritm_load [OF 7(1) [unfolded t] 7(2) a filtered_load(1)])
next
  case (8 t k r)
  obtain rs h where t: "t = (rs, h)" by (cases t)
  show ?case unfolding t by (rule ritm_store [OF 8 [unfolded t]])
next
  case (9 t k r)
  obtain rs h where t: "t = (rs, h)" by (cases t)
  show ?case unfolding t by (rule ritm_load_image [OF 9 [unfolded t]])
qed

section \<open>A run of the payload\<close>

lemma str_contains_chars: "str_contains p s \<Longrightarrow> set p \<subseteq> set s"
proof (induction s)
  case (Cons c s)
  then show ?case using set_take_subset [of "length p" "c # s"] by (simp only: str_contains.simps) auto
qed simp

text \<open>Numbers are printed without capitals.\<close>

lemma radix_string_capitals:
  assumes "2 \<le> radix" "radix \<le> 16"
  shows "CHR ''P'' \<notin> set (radix_string radix n)" "CHR ''C'' \<notin> set (radix_string radix n)"
proof -
  have "(of_char c :: nat) < 58 \<or> 97 \<le> (of_char c :: nat)" if "c \<in> set (radix_string radix n)" for c
    using radix_string_chars [OF assms(1) that] assms(2) by (auto simp: of_char_digit_char split: if_splits)
  from this [of "CHR ''P''"] this [of "CHR ''C''"]
  show "CHR ''P'' \<notin> set (radix_string radix n)" "CHR ''C'' \<notin> set (radix_string radix n)" by auto
qed

lemma format_capitals:
  "CHR ''P'' \<notin> set (format_alt_x n)" "CHR ''C'' \<notin> set (format_alt_x n)" "CHR ''P'' \<notin> set (format_dec n)"
  by (simp_all add: format_alt_x_def format_dec_def radix_string_capitals)

lemma no_PANIC: "CHR ''P'' \<notin> set l \<or> CHR ''C'' \<notin> set l \<Longrightarrow> \<not> str_contains ''PANIC'' l"
  using str_contains_chars [of "''PANIC''" l] by auto

text \<open>Lines without the failure string do not change a verdict of success.\<close>

lemma read_output_pass: "\<forall>l\<in>set ls. \<not> str_contains f l \<Longrightarrow> read_output a f ls' \<Longrightarrow> read_output a f (ls @ ls')"
  by (induction ls) auto

lemma expected_output_verdict:
  assumes "\<not> str_contains ''PANIC'' (''TEST: PSCI version: '' @ py_version_debug Y version)"
  shows "read_output ''TEST: All tests passed!'' ''PANIC'' (expected_output Y version ritm_base)"
proof -
  let ?all = "expected_output Y version ritm_base"
  have split: "?all = butlast ?all @ [''TEST: All tests passed!'']" by (simp add: expected_output_def)
  have "\<not> str_contains ''PANIC'' ''TEST: All tests passed!''" by (rule no_PANIC) simp
  then have last: "read_output ''TEST: All tests passed!'' ''PANIC'' [''TEST: All tests passed!'']"
    by (simp del: str_contains.simps(2)) simp
  have "list_all (\<lambda>l. l = ''TEST: PSCI version: '' @ py_version_debug Y version \<or> CHR ''P'' \<notin> set l) (butlast ?all)"
    by (simp add: expected_output_def format_capitals)
  then have "\<not> str_contains ''PANIC'' l" if "l \<in> set (butlast ?all)" for l
    using that assms no_PANIC [of l] unfolding list_all_iff by metis
  then show ?thesis by (subst split) (intro read_output_pass ballI last)
qed

lemma entry_keeps_platform: "entry_point_el1 H a0 a1 a2 a3 e h = Done (x, h') \<Longrightarrow> hv_platform h' = hv_platform h"
  by (auto simp: entry_point_el1_def setup_stage2_def stage2_config_def Let_def case_prod_beta split: option.splits)

text \<open>The payload from the moment RITM has entered it.\<close>

lemma payload_passes:
  assumes enter: "entry_point_el1 (qemu_hypervisor H A pr ritm_base heap) a0 a1 a2 a3 entry (hyp_init cap c 0 w) = Done (x, h)"
    and guest: "guest_regs_wf rs" "cr_vbar_el1 c' = vbar" "code_ok code vbar"
    and ritm: "qemu_guest_ok H maps ritm_base heap" "unat ritm_base + 4096 \<le> unat heap" "smccc_error_ok (hd_smccc_error H)"
    and deps: "firmware_version_ok H Y version" "payload_deps_ok Y" and regs: "rt < 31" "rn < 31"
  shows "\<exists>st. integration_test_main (ritm_machine (qemu_hypervisor H A pr ritm_base heap) pr' maps direct code) Y pr'' rt rn ritm_base
        \<lparr>pl_machine = (rs, h\<lparr>hv_core := c'\<rparr>), pl_UART = None, pl_TRAP_COUNT = 0\<rparr> = Some st \<and>
     pl_UART st = Some (print_lines (py_driver Y) (expected_output Y version ritm_base)
       \<lparr>console_locked = False, console_console = py_uart_new Y test_UART_BASE\<rparr>) \<and>
     pl_TRAP_COUNT st = 1"
proof -
  have "served (qemu_hypervisor H A pr ritm_base heap) pr' cap h rs" using enter guest(1) by (rule served_enter)
  moreover have "hv_platform h = 0" using entry_keeps_platform [OF enter] by (simp add: hyp_init_def)
  ultimately have inv: "ritm_inv H A pr ritm_base heap pr' cap maps code vbar Y version (rs, h\<lparr>hv_core := c'\<rparr>) 0"
    using guest ritm deps served_guest [of _ pr' cap h rs rs c'] by (simp add: ritm_inv_def)
  let ?st = "\<lparr>pl_machine = (rs, h\<lparr>hv_core := c'\<rparr>), pl_UART = None, pl_TRAP_COUNT = 0\<rparr>"
  obtain st where "integration_test_main (ritm_machine (qemu_hypervisor H A pr ritm_base heap) pr' maps direct code) Y pr'' rt rn
      ritm_base ?st = Some st" "printed Y (expected_output Y version ritm_base) (pl_UART st)" "pl_TRAP_COUNT st = 1"
    by (rule ritm_test.all_tests_pass [where st = ?st, OF _ _ _ regs]) (use inv in simp_all)
  moreover have "expected_output Y version ritm_base \<noteq> []" by (simp add: expected_output_def)
  ultimately show ?thesis by (auto simp: printed_def split: option.splits)
qed

text \<open>A payload with a screen for its UART; the firmware of the examples reports PSCI 1.1.\<close>

definition example_payload :: "(string list, unit) payload_deps" where
  "example_payload =
     \<lparr>py_uart_new = (\<lambda>_. []), py_driver = screen, py_esr_ec = (\<lambda>v. ucast (get_field 26 6 v)),
      py_version_call = 0x84000000 # replicate 7 0, py_version_is_err = (\<lambda>v. bit v 31),
      py_version_debug = (\<lambda>v. ''Ok(Version { major: 1, minor: 1 })''), py_cpu_off_call = 0x84000002 # replicate 7 0,
      py_panic_info = (\<lambda>m. m)\<rparr>"

lemma example_payload_ok: "payload_deps_ok example_payload" "firmware_version_ok example_hyp_deps example_payload 0x10001"
  by (simp_all add: payload_deps_ok_def example_payload_def driver_works_def screen_def firmware_version_ok_def
      example_hyp_deps_def psci_id_def bit_simps)

end
