(* ===== verification/Spec2Isabelle.thy ===== *)
theory Spec2Isabelle
  imports Test_Build Machine Boot Integration_Test
begin

text \<open>
  RITM is a thin EL2 hypervisor for AArch64: it boots a payload, usually an operating system, at
  EL1 under a fixed stage-2 memory policy, emulates accesses to selected pages, and mediates PSCI
  calls. This development models its source and proves what the parts promise.

  \<^bold>\<open>The program and its models.\<close> The build script reads a platform's configuration and generates
  constants, sources and a linker script. At boot, \<open>main\<close> sets up console, logger and heaps, lets the
  platform rewrite the device tree, and starts the payload at EL1 or EL2. At EL1 the hypervisor
  builds the stage-2 policy once, through the platform, enters the guest, and from then on runs only
  when the guest traps or a core is started or resumed.

    \<^item> \<open>Prelude\<close>, \<open>Slices\<close>, \<open>Strings\<close>: machine integers, panics, results, overflow under the two build
      profiles; the slice searches and string functions of the standard library that the code uses.
    \<^item> \<open>Memory_Access\<close> (\<open>memory_access/src/lib.rs\<close>): decoding of data abort syndromes, widening of loads.
    \<^item> \<open>Simple_Map\<close> (\<open>src/simple_map.rs\<close>): the fixed-capacity map. A reference into it is a slot.
    \<^item> \<open>Stage2\<close> (\<open>src/stage2.rs\<close>): ranges, the handler registry with its binary search, the builder.
    \<^item> \<open>Exceptions\<close>, \<open>Hvc_Response\<close> (\<open>src/exceptions.rs\<close>, \<open>src/hvc_response.rs\<close>): saved guest registers,
      results of calls.
    \<^item> \<open>Assembly\<close> (the naked functions of \<open>src/hypervisor.rs\<close>, \<open>src/exceptions.rs\<close>, \<open>src/arch.rs\<close> and
      \<open>src/main.rs\<close>): instruction lists and an executor.
    \<^item> \<open>Sysregs\<close>, \<open>Hypervisor\<close> (\<open>src/hypervisor.rs\<close>): a core's registers and every function of the file;
      \<open>Trap\<close> and \<open>Guest\<close> hold the lemmas and properties about traps, \<open>Guest_Run\<close> the loads and stores of
      a guest from the instruction through the stage-2 lookup and RITM's handler to their effect.
    \<^item> \<open>Machine\<close>: several cores that interleave the steps of \<open>src/hypervisor.rs\<close> on shared statics.
    \<^item> \<open>Platform\<close>, \<open>Qemu\<close>, \<open>Qemu_Policy\<close> (\<open>src/platform.rs\<close>, \<open>src/pagetable.rs\<close>, \<open>src/platform/qemu.rs\<close>).
    \<^item> \<open>Console_Log\<close> (\<open>src/console.rs\<close>, \<open>src/logger.rs\<close>): the shared console with its lock, the logger
      and the panic handler.
    \<^item> \<open>Boot\<close> (\<open>src/main.rs\<close>): \<open>main\<close> with what it logs, and \<open>boot_image\<close>, which adds the panic handler.
    \<^item> \<open>Build\<close> (\<open>build.rs\<close>, \<open>build_support/platform_config.rs\<close>, \<open>platforms/*.conf\<close>), \<open>Test_Build\<close>
      (\<open>tests/*/build.rs\<close>).
    \<^item> \<open>Integration_Test\<close> (\<open>tests/integration_test/src/main.rs\<close>, \<open>tests/test_utils.py\<close>): the guest that
      tests RITM, its exception and panic handlers, and how its output is judged. Its instructions
      that may trap are operations of a machine; \<open>ritm_machine\<close> is a guest of RITM as that machine.
    \<^item> This theory links the parts: the image for QEMU, and the integration test on it.

  \<^bold>\<open>How code becomes definitions.\<close> A function of the source is one definition with the source's name
  (suffixed or prefixed where that name is taken). Integers are words of their width. \<open>Panicked msg\<close> is
  a panic, with the source's message up to its first formatted argument (in the test payload,
  whose messages are its output, with the arguments); \<open>Result\<close> is a sum type with
  the error on the left. Arithmetic that may overflow takes the build profile, because \<open>dev\<close> builds
  panic and \<open>release\<close> builds wrap. Statics are fields of a record that the operations thread; in
  particular \<open>hyp\<close> holds one core's registers and the statics of \<open>src/hypervisor.rs\<close>. A \<open>Once\<close> is an
  optional value, and a lock held for one expression is one atomic step. Where the code releases a
  lock and takes another, \<open>Machine\<close> has separate steps.

  \<^bold>\<open>Parameters.\<close> Crates are not part of the sources. Page tables and fixed-capacity vectors
  (\<open>stage2_deps\<close>), register fields (\<open>arm_sysregs\<close>), PSCI decoding, SMC calls and core start and
  suspension (\<open>hyp_deps\<close>), the device tree (\<open>dt_api\<close>), the allocator (\<open>boot_deps\<close>), the UART (\<open>uart_api\<close>),
  the console driver, the \<open>log\<close> crate and powering off (\<open>driver\<close>, \<open>log_crate\<close>, \<open>panic_deps\<close>), the crates of
  the test payload (\<open>payload_deps\<close>), and compiled code called from assembly are parameters. Their
  documented behaviour is in named hypotheses: \<open>stage2_deps_ok\<close>, \<open>map_range_succeeds\<close>
  (mapping a non-empty aligned range below 2^48 of which nothing is mapped yet succeeds),
  \<open>map_range_confined\<close> (a call, also a failed one, touches only its own range), \<open>dt_api_ok\<close> (the edits
  of a device tree on an abstract tree), \<open>stack_layout_ok\<close> (the linker's placement of the stacks),
  \<open>arm_sysregs_ok\<close>, \<open>activate_ok\<close>, \<open>activate_keeps\<close> (activating a page table does not change what it maps),
  \<open>smccc_error_ok\<close>, \<open>compiled_impl\<close>, \<open>handler_keeps_caller_frame\<close>,
  \<open>driver_works\<close>, \<open>log_crate_ok\<close>, \<open>firmware_version_ok\<close> (the firmware answers \<open>PSCI_VERSION\<close>),
  \<open>payload_deps_ok\<close> and \<open>code_ok\<close> (between the instructions that may trap, the payload's code only
  moves the program counter, within the address space: register moves are operations of their own). Each has an instance, used by the witnesses. A call into
  firmware that does not return gives \<open>None\<close>. The calls that start and suspend cores are also
  recorded, in \<open>hv_core_calls\<close>, with the stack address that they pass: a trace that no code reads.

  \<^bold>\<open>Interfaces.\<close> The locale \<open>bounded_map\<close> is what clients rely on of the map (interpreted on
  \<open>SimpleMap\<close>), \<open>handler_registry\<close> of the registry, \<open>register_file\<close> of the saved registers (interpreted
  on the two frames), \<open>platform_contract\<close> of a platform (interpreted on QEMU's), \<open>tested_machine\<close> what
  the integration test relies on of the machine below it (interpreted on a guest of RITM).

  \<^bold>\<open>What is shown.\<close>
    \<^item> The policy: allowed and emulated ranges stay apart for every sequence of builder calls, failed
      ones included; each call's result is determined; lookups by binary search equal a linear
      search; QEMU's configuration is
      exactly the intended map, and RITM's image is out of the guest's reach but for the pages of
      the shared heap; the device tree that the guest gets describes the memory without the image.
    \<^item> Traps: a trapped access refines a reference emulator or becomes an exception of the guest;
      calls write back exactly their results; the policy never changes after boot; the panics of
      the trap handler are characterised exactly; every handler keeps the state well formed. Every
      load and store of a guest on QEMU reaches memory, the emulated device or the guest's vector.
    \<^item> Guest entry and assembly: the registers in which the guest starts, and that nothing else of
      RITM is left in them; the frames the wrapper passes; the hand-over at EL2.
    \<^item> Cores: in every interleaving a core that powered down finds its own context again, the stack
      addresses passed for different cores are of disjoint stacks, and no core gets stuck while there are slots.
    \<^item> Boot and build: \<open>main\<close> reaches the payload, and a boot always ends there or powers off; parsing
      inverts printing; accepted payloads fit; RITM and the integration test agree on the addresses.
    \<^item> The whole: on QEMU, from power-on, the integration test runs to its end, prints exactly its
      lines of success and is judged as passed.
    \<^item> Panics: when the panic handler ends, what it has printed by then, and that it hangs after a log
      message that could not be written.

  \<^bold>\<open>Bounds.\<close> No function of the model uses fuel: all recursion is structural or has a termination
  proof, but for the panic handler, which may run for ever and is a partial function. \<open>Machine\<close> is parametric in the number of cores and in the capacity; QEMU has 8 slots.

  \<^bold>\<open>Not modelled.\<close> The debug messages of the trap handlers: they only format state that is modelled,
  and the level \<open>Info\<close> discards them; with them the \<open>Debug\<close> output of \<open>HvcResponse\<close>. The UART driver.
  Weak memory: the statics are protected by locks, and steps of the model are atomic. The exception
  vectors and the entry code of \<open>aarch64-rt\<close>. Of the PSCI test everything but its build script: it drives
  the interrupt controller and the timer through crates and waits for interrupts, which pass RITM
  by. Of the test scripts all but the verdict, and the Makefile: they start other programs. The
  unit tests of \<open>memory_access\<close>, but for the encoder that they share.
\<close>

section \<open>The whole system\<close>

text \<open>RITM linked with QEMU; \<open>alloc\<close> is the shared heap's allocator, whose memory the linker placed.\<close>

definition qemu_image ::
  "('fdt, 'node, 'prop, 'reg, 'dt, 'dnode, 'dprop, 'err) dt_api \<Rightarrow> (u64, 'idmap, 'me, u64, 'e, 'w) hyp_deps \<Rightarrow>
   stage2_attributes \<Rightarrow> profile \<Rightarrow> ('heap \<Rightarrow> Layout \<Rightarrow> u64 option) \<Rightarrow> 'con uart_api \<Rightarrow> usize \<Rightarrow> u64 \<Rightarrow> usize \<Rightarrow> 'heap \<Rightarrow>
   ('con Qemu, 'con, 'fdt, u64, 'idmap, 'me, u64, 'e) Platform" where
  "qemu_image T H A pr alloc U ritm_base payload heap shared =
     qemu_platform T (hd_stage2 H) A pr (alloc shared) U ritm_base payload heap"

lemma link_qemu: "link_platform (qemu_image T H A pr alloc U ritm_base payload heap shared) H = qemu_hypervisor H A pr ritm_base heap"
  by (simp add: link_platform_def qemu_image_def qemu_platform_def qemu_hypervisor_def)

text \<open>What RITM prints until it enters the payload at EL1.\<close>

definition boot_lines ::
  "('con, 'heap, 'lg, 'lv, 'le, 'fdt, 'fe) boot_deps \<Rightarrow> string list \<Rightarrow> u64 \<Rightarrow> u64 \<Rightarrow> u64 \<Rightarrow> u64 \<Rightarrow> u64 \<Rightarrow> string list" where
  "boot_lines B warnings payload x0 x1 x2 x3 =
     boot_greeting B x0 x1 x2 x3 @ map (log_line Warn) warnings @ boot_announcement El1 payload"

lemma boot_lines_clean:
  assumes "\<forall>l\<in>set warnings. \<not> str_contains ''PANIC'' (log_line Warn l)"
  shows "\<forall>l\<in>set (boot_lines B warnings payload x0 x1 x2 x3). \<not> str_contains ''PANIC'' l"
proof
  fix l assume "l \<in> set (boot_lines B warnings payload x0 x1 x2 x3)"
  then consider "CHR ''P'' \<notin> set l \<or> CHR ''C'' \<notin> set l" | "l \<in> log_line Warn ` set warnings"
    by (auto simp: boot_lines_def boot_greeting_def boot_announcement_def log_line_def main_args_def format_capitals)
  then show "\<not> str_contains ''PANIC'' l" using assms by cases (rule no_PANIC, assumption, blast)
qed

lemma qemu_boots:
  fixes H :: "(u64, 'idmap, 'me, u64, 'e, 'w) hyp_deps"
  assumes console: "driver_works D" "log_crate_ok (bd_log B)" "\<And>con. fst (log_set_logger (bd_log B) lg con) = Inr ()"
    and heap: "shared = bd_heap_init B free (bd_SHARED_HEAP_address B) default_SHARED_HEAP_SIZE"
    and dt: "qemu_fdt_address x0 = (fdt_address, ws)" "bd_fdt_from_raw B fdt_address = Inr fdt"
      "qemu_modify_dt T pr (alloc shared) ritm_base fdt = Done new_fdt" "qemu_boot_mode T new_fdt = (El1, ws')"
    and ritm: "qemu_guest_ok H maps ritm_base (bd_SHARED_HEAP_address B)" "activate_ok H root"
      "map_range_succeeds (hd_stage2 H) maps"
  obtains h con where "main D B (qemu_image T H A pr alloc U ritm_base payload (bd_SHARED_HEAP_address B)) H impl x0 x1 x2 x3
      (boot_init cap lg free c s w) = Some (Done ExceptionReturn,
        \<lparr>bt_console = Some (print_lines D (boot_lines B (ws @ ws') payload x0 x1 x2 x3) con),
         bt_logger = log_set_max_level (bd_log B) (snd (log_set_logger (bd_log B) lg con)) (LOG_LEVEL B),
         bt_heap_locked = True, bt_heap_allocator = bd_heap_init B free (bd_HEAP_address B) HEAP_SIZE,
         bt_shared_heap_locked = True, bt_shared_heap_allocator = shared, bt_hyp = h\<rparr>)"
    and "entry_point_el1 (qemu_hypervisor H A pr ritm_base (bd_SHARED_HEAP_address B)) (bd_fdt_data_ptr B new_fdt) x1 x2 x3 payload
      (hyp_init cap c s w) = Done (ExceptionReturn, h)"
    and "cr_elr_el2 (hv_core h) = payload"
proof -
  let ?P = "qemu_image T H A pr alloc U ritm_base payload (bd_SHARED_HEAP_address B)"
  let ?uart = "uart_set_interrupt_masks_RXI U (uart_new U UART_BASE_ADDRESS)"
  let ?con = "\<lparr>console_locked = False, console_console = pp_console \<lparr>pp_console = ?uart\<rparr>\<rparr>"
  have sel: "plat_create (?P free) = Done \<lparr>qemu_parts_field = Some \<lparr>pp_console = ?uart\<rparr>\<rparr>"
    "plat_parts (?P free) \<lparr>qemu_parts_field = Some \<lparr>pp_console = ?uart\<rparr>\<rparr> =
      (Some \<lparr>pp_console = ?uart\<rparr>, \<lparr>qemu_parts_field = None\<rparr>)"
    "plat_SHARED_HEAP_SIZE (?P free) = default_SHARED_HEAP_SIZE" "plat_payload_address (?P shared) self = payload"
    "plat_fdt_address (?P shared) self x0 = (fdt_address, ws)" "plat_modify_dt (?P shared) self fdt = Done new_fdt"
    "plat_boot_mode (?P shared) self new_fdt = (El1, ws')" for self
    using dt by (simp_all add: qemu_image_def qemu_platform_def qemu_create_def UART_BASE_ADDRESS_def qemu_parts_def
        qemu_payload_address_def)
  obtain lg' where lg: "log_set_logger (bd_log B) lg ?con = (Inr (), lg')" using console(3) [of ?con] by (metis prod.collapse)
  have pass: "log_passes (bd_log B) (log_set_max_level (bd_log B) lg' (LOG_LEVEL B)) level" for level
    using console(2) by (simp add: log_crate_ok_def LOG_LEVEL_def)
  let ?H = "qemu_hypervisor H A pr ritm_base (bd_SHARED_HEAP_address B)"
  obtain b where "hd_configure_memory_access ?H (builder_new (hd_stage2 ?H)) = Done (Inr (), b)"
    using qemu_configures [of "hd_stage2 H" maps ritm_base "bd_SHARED_HEAP_address B"] ritm(1,3)
    by (auto simp: qemu_guest_ok_def qemu_hypervisor_def)
  moreover have "arm_sysregs_ok (hd_sysregs ?H)" "activate_ok ?H root"
    using ritm by (simp_all add: qemu_guest_ok_def activate_ok_def qemu_hypervisor_def)
  ultimately obtain h where h: "run_payload_el1 ?H payload (bd_fdt_data_ptr B new_fdt) x1 x2 x3 (hyp_init cap c s w) = Done (ExceptionReturn, h)"
    and elr: "cr_elr_el2 (hv_core h) = payload"
    using run_payload_el1_enters [of ?H root b payload "bd_fdt_data_ptr B new_fdt" x1 x2 x3 cap c s w] by blast
  let ?lg = "log_set_max_level (bd_log B) lg' (LOG_LEVEL B)"
  let ?st = "\<lambda>ls. \<lparr>bt_console = Some (print_lines D ls ?con), bt_logger = ?lg, bt_heap_locked = True,
      bt_heap_allocator = bd_heap_init B free (bd_HEAP_address B) HEAP_SIZE, bt_shared_heap_locked = True,
      bt_shared_heap_allocator = shared, bt_hyp = hyp_init cap c s w\<rparr>"
  have "main D B ?P H impl x0 x1 x2 x3 (boot_init cap lg free c s w) =
      main_payload D B (?P shared) \<lparr>qemu_parts_field = None\<rparr> H impl x0 x1 x2 x3 (?st (boot_greeting B x0 x1 x2 x3))"
    by (simp only: main_runs [where P = ?P and heap = free, OF console(1,2) sel(1,2) refl lg] sel(3) heap [symmetric] Let_def)
  also have "\<dots> = run_payload (?P shared) H impl El1 payload (bd_fdt_data_ptr B new_fdt) x1 x2 x3
      (?st (boot_lines B (ws @ ws') payload x0 x1 x2 x3))"
    by (subst main_payload_runs [OF console(1) _ _ _ sel(5) dt(2) sel(6,7)]) (simp_all add: pass sel(4) boot_lines_def)
  also have "\<dots> = Some (Done ExceptionReturn, (?st (boot_lines B (ws @ ws') payload x0 x1 x2 x3))\<lparr>bt_hyp := h\<rparr>)"
    by (simp add: run_payload_def link_qemu h)
  finally show thesis by (intro that [of ?con h]) (simp_all add: lg [simplified] elr h [unfolded run_payload_el1_def])
qed

text \<open>
  C5: The integration test passes on RITM, from power-on to the verdict. Let the linker have placed
  RITM's image, with the shared heap away from its first page; let the page table accept fresh
  aligned ranges (\<open>map_range_succeeds\<close>) and stay what it is when activated; let the console work and
  the device tree be valid, rewritable and without a request for EL2; let the firmware answer
  \<open>PSCI_VERSION\<close> (\<open>firmware_version_ok\<close>) with a version whose text, like RITM's warnings, does not
  contain the word PANIC; and let the payload's compiled code and crates behave as \<open>code_ok\<close> and
  \<open>payload_deps_ok\<close> say: between its trapping instructions the code only moves the program counter,
  and the crates issue their calls and drive the UART as documented. Then \<open>main\<close> prints its greeting and
  enters the payload at EL1. Whatever the payload's start-up code does to the core but for
  installing its vector table, the test then runs to its end: PSCI, the dummy and the unknown call
  are answered as it demands, every access to the filtered device through \<open>x0\<close>, \<open>x19\<close> and \<open>x28\<close> is
  emulated with the values it demands and without an exception, the counter counts 0 to 3, and the
  read of RITM's own image faults exactly once. The UART shows exactly the lines of success, and
  the test script, reading RITM's lines and then those, reports a pass.
\<close>

theorem integration_test_passes:
  fixes H :: "(u64, 'idmap, 'me, u64, 'e, 'w) hyp_deps"
  assumes console: "driver_works D" "log_crate_ok (bd_log B)" "\<And>con. fst (log_set_logger (bd_log B) lg con) = Inr ()"
    and heap: "shared = bd_heap_init B free (bd_SHARED_HEAP_address B) default_SHARED_HEAP_SIZE"
    and dt: "qemu_fdt_address x0 = (fdt_address, ws)" "bd_fdt_from_raw B fdt_address = Inr fdt"
      "qemu_modify_dt T pr (alloc shared) ritm_base fdt = Done new_fdt" "qemu_boot_mode T new_fdt = (El1, ws')"
    and ritm: "qemu_guest_ok H maps ritm_base (bd_SHARED_HEAP_address B)" "activate_ok H root"
      "map_range_succeeds (hd_stage2 H) maps"
      "unat ritm_base + 4096 \<le> unat (bd_SHARED_HEAP_address B)" "smccc_error_ok (hd_smccc_error H)"
    and guest: "guest_regs_wf rs" "cr_vbar_el1 c' = vbar" "code_ok code vbar"
    and deps: "firmware_version_ok H Y version" "payload_deps_ok Y" and regs: "rt < 31" "rn < 31"
    and clean: "\<not> str_contains ''PANIC'' (''TEST: PSCI version: '' @ py_version_debug Y version)"
      "\<forall>l\<in>set (ws @ ws'). \<not> str_contains ''PANIC'' (log_line Warn l)"
  shows "\<exists>st con pst. main D B (qemu_image T H A pr alloc U ritm_base payload (bd_SHARED_HEAP_address B)) H impl x0 x1 x2 x3
        (boot_init cap lg free c 0 w) = Some (Done ExceptionReturn, st) \<and> cr_elr_el2 (hv_core (bt_hyp st)) = payload \<and>
     bt_console st = Some (print_lines D (boot_lines B (ws @ ws') payload x0 x1 x2 x3) con) \<and>
     integration_test_main
        (ritm_machine (qemu_hypervisor H A pr ritm_base (bd_SHARED_HEAP_address B)) pr' maps direct code) Y pr'' rt rn ritm_base
        \<lparr>pl_machine = (rs, (bt_hyp st)\<lparr>hv_core := c'\<rparr>), pl_UART = None, pl_TRAP_COUNT = 0\<rparr> = Some pst \<and>
     pl_UART pst = Some (print_lines (py_driver Y) (expected_output Y version ritm_base)
        \<lparr>console_locked = False, console_console = py_uart_new Y test_UART_BASE\<rparr>) \<and>
     pl_TRAP_COUNT pst = 1 \<and>
     read_output ''TEST: All tests passed!'' ''PANIC''
       (boot_lines B (ws @ ws') payload x0 x1 x2 x3 @ expected_output Y version ritm_base)"
proof -
  obtain h con where boot: "main D B (qemu_image T H A pr alloc U ritm_base payload (bd_SHARED_HEAP_address B)) H impl x0 x1 x2 x3
      (boot_init cap lg free c 0 w) = Some (Done ExceptionReturn,
        \<lparr>bt_console = Some (print_lines D (boot_lines B (ws @ ws') payload x0 x1 x2 x3) con),
         bt_logger = log_set_max_level (bd_log B) (snd (log_set_logger (bd_log B) lg con)) (LOG_LEVEL B),
         bt_heap_locked = True, bt_heap_allocator = bd_heap_init B free (bd_HEAP_address B) HEAP_SIZE,
         bt_shared_heap_locked = True, bt_shared_heap_allocator = shared, bt_hyp = h\<rparr>)" (is "_ = Some (_, ?st)")
    and enter: "entry_point_el1 (qemu_hypervisor H A pr ritm_base (bd_SHARED_HEAP_address B)) (bd_fdt_data_ptr B new_fdt) x1 x2 x3
      payload (hyp_init cap c 0 w) = Done (ExceptionReturn, h)" and elr: "cr_elr_el2 (hv_core h) = payload"
    by (rule qemu_boots [where alloc = alloc, OF console heap dt ritm(1-3)])
  have verdict: "read_output ''TEST: All tests passed!'' ''PANIC''
      (boot_lines B (ws @ ws') payload x0 x1 x2 x3 @ expected_output Y version ritm_base)"
    by (intro read_output_pass boot_lines_clean clean(2) expected_output_verdict clean(1))
  from payload_passes [OF enter guest ritm(1,4,5) deps regs] boot elr verdict show ?thesis
    by (intro exI [of _ ?st] exI [of _ con]) simp
qed

lemma example_is_qemu_image:
  "example_platform = qemu_image example_dt example_hyp_deps example_attrs Dev (\<lambda>heap _. Some heap)
     \<lparr>uart_new = (\<lambda>_. []), uart_set_interrupt_masks_RXI = (\<lambda>uart. uart)\<rparr> 0x47000000 0x40200000 0x47100800"
  by (simp add: fun_eq_iff example_platform_def qemu_image_def example_hyp_deps_def)

lemma example_boot_dt:
  "qemu_fdt_address 0x44000000 = (0x44000000, [])" "qemu_boot_mode example_dt fdt = (El1, [])"
  "qemu_modify_dt example_dt Dev (\<lambda>_. Some heap) 0x47000000 fdt = Done heap"
  "bd_SHARED_HEAP_address example_boot_deps = 0x47100800"
  using example_platform_sel(3,4) [of heap] example_modify_dt [of heap]
  by (simp_all add: example_platform_def qemu_platform_def example_boot_deps_def)

lemma screen_lines:
  "print_lines (py_driver example_payload) ls
     \<lparr>console_locked = False, console_console = py_uart_new example_payload a\<rparr> = \<lparr>console_locked = False, console_console = ls\<rparr>"
proof -
  have "fold (\<lambda>l con. snd (drv_write_line screen con l)) ls con = con @ ls" for con
    by (induction ls arbitrary: con) (simp_all add: screen_def)
  then show ?thesis by (simp add: print_lines_def example_payload_def)
qed

theorem integration_test_passes_witness:
  "\<exists>st pst. main screen example_boot_deps example_platform example_hyp_deps id 0x44000000 1 2 3
       (boot_init 8 () 0 example_core 0 ()) = Some (Done ExceptionReturn, st) \<and>
     integration_test_main
       (ritm_machine example_hyp_deps Dev range_table_maps (\<lambda>_ _ _ rs h. (rs, h)) (\<lambda>rs. set_exception_return rs 0x40200000 0x3c5))
       example_payload Dev 8 9 0x47000000
       \<lparr>pl_machine = (numbered_regs, (bt_hyp st)\<lparr>hv_core := example_core\<rparr>), pl_UART = None, pl_TRAP_COUNT = 0\<rparr> = Some pst \<and>
     map_option (\<lambda>c. last (console_console c)) (pl_UART pst) = Some ''TEST: All tests passed!'' \<and> pl_TRAP_COUNT pst = 1"
proof -
  have code: "code_ok (\<lambda>rs. set_exception_return rs 0x40200000 0x3c5) 0x40081000" by (simp add: code_ok_def fun_eq_iff)
  have vbar: "cr_vbar_el1 example_core = 0x40081000" by (simp add: example_core_def)
  have clean: "\<not> str_contains ''PANIC'' (''TEST: PSCI version: '' @ py_version_debug example_payload 0x10001)"
    "\<forall>l\<in>set ([] @ []). \<not> str_contains ''PANIC'' (log_line Warn l)"
    by (simp_all add: example_payload_def)
  have ritm: "qemu_guest_ok example_hyp_deps range_table_maps 0x47000000 (bd_SHARED_HEAP_address example_boot_deps)"
    "unat (0x47000000 :: usize) + 4096 \<le> unat (bd_SHARED_HEAP_address example_boot_deps)"
    "map_range_succeeds (hd_stage2 example_hyp_deps) range_table_maps"
    using example_guest_ok range_table_succeeds by (simp_all add: example_boot_dt(4) example_hyp_deps_def)
  have regs: "(8 :: u32) < 31" "(9 :: u32) < 31" by simp_all
  have last: "last (expected_output example_payload v base) = ''TEST: All tests passed!''" for v base
    by (simp add: expected_output_def)
  note passes = integration_test_passes [where alloc = "\<lambda>heap _. Some heap" and free = 0 and lg = "()" and A = example_attrs and payload = "0x40200000"
      and U = "\<lparr>uart_new = (\<lambda>_. []), uart_set_interrupt_masks_RXI = (\<lambda>uart. uart)\<rparr>" and impl = id and ?x1.0 = 1 and ?x2.0 = 2
      and ?x3.0 = 3 and cap = 8 and c = example_core and w = "()" and pr' = Dev and pr'' = Dev and direct = "\<lambda>_ _ _ rs h. (rs, h)",
      OF example_boot_ok(1,2,4) refl example_boot_dt(1) example_boot_ok(5) example_boot_dt(3,2) ritm(1) example_hyp_deps_ok(5)
        ritm(3,2) example_hyp_deps_ok(3) numbered_regs_wf vbar code example_payload_ok(2,1) regs clean]
  then show ?thesis
    unfolding example_boot_dt(4) example_is_qemu_image [symmetric] example_is_qemu screen_lines
    by (elim exE conjE, intro exI conjI) (assumption+, simp_all add: last)
qed

end
